(* ===== verification/Go_Prelude.thy ===== *)
theory Go_Prelude
  imports Main "HOL-Library.Word" "HOL-Library.Multiset" "HOL-Library.AList"
begin

text \<open>
  What every component shares: Go results, machine integers and slices.

  A Go function returning \<open>(T, error)\<close> is a HOL function into \<open>T res\<close>: \<open>Ok\<close> for a nil error,
  \<open>Err\<close> for a non-nil one, \<open>Panic\<close> for a run-time panic.
  Error values keep the wrapping of \<open>fmt.Errorf("...: %w", err)\<close>, since
  \<open>internal/errs/http.go\<close> looks through it with \<open>errors.Is\<close>.
  Go's \<open>int\<close> is a 64-bit word read as two's complement (\<open>sint\<close>), so products wrap as they do
  at run time.
\<close>

named_theorems svc_defs \<open>definitions of the service layer's operations\<close>
named_theorems http_defs \<open>definitions of the HTTP layer's writers, middleware and handlers\<close>

subsection \<open>Errors\<close>

text \<open>
  The sentinels of \<open>internal/core/errors.go\<close>, \<open>sql.ErrNoRows\<close>, and the two ways the code
  builds errors: \<open>errors.New\<close>/\<open>fmt.Errorf\<close> without a wrapped error, and \<open>fmt.Errorf\<close> with one.
\<close>

datatype gerr =
    ErrNotFound
  | ErrConflict
  | ErrValidation
  | ErrNoRows
  | ErrorNew string
  | Wrapf string gerr

primrec err_msg :: "gerr \<Rightarrow> string" where
  "err_msg ErrNotFound = ''not found''"
| "err_msg ErrConflict = ''conflict''"
| "err_msg ErrValidation = ''validation error''"
| "err_msg ErrNoRows = ''sql: no rows in result set''"
| "err_msg (ErrorNew s) = s"
| "err_msg (Wrapf s e) = s @ '': '' @ err_msg e"

text \<open>\<open>errors.Is(err, target)\<close>: the error itself or one it wraps.\<close>

primrec errors_is :: "gerr \<Rightarrow> gerr \<Rightarrow> bool" where
  "errors_is ErrNotFound t \<longleftrightarrow> t = ErrNotFound"
| "errors_is ErrConflict t \<longleftrightarrow> t = ErrConflict"
| "errors_is ErrValidation t \<longleftrightarrow> t = ErrValidation"
| "errors_is ErrNoRows t \<longleftrightarrow> t = ErrNoRows"
| "errors_is (ErrorNew s) t \<longleftrightarrow> t = ErrorNew s"
| "errors_is (Wrapf s e) t \<longleftrightarrow> t = Wrapf s e \<or> errors_is e t"

subsection \<open>Results\<close>

datatype 'a res = Ok 'a | Err gerr | Panic string

primrec is_ok :: "'a res \<Rightarrow> bool" where
  "is_ok (Ok x) = True"
| "is_ok (Err e) = False"
| "is_ok (Panic p) = False"

lemma not_ok_cases:
  assumes "\<not> is_ok x"
  obtains (Err) e where "x = Err e" | (Panic) p where "x = Panic p"
  using assms by (cases x) auto

lemma is_okE:
  assumes "is_ok x"
  obtains y where "x = Ok y"
  using assms by (cases x) auto

subsection \<open>Machine integers\<close>

type_synonym go_int = "64 word"
type_synonym go_uint64 = "64 word"

abbreviation max_int :: int where "max_int \<equiv> 9223372036854775807"
abbreviation min_int :: int where "min_int \<equiv> - 9223372036854775808"

lemma sint_range: "min_int \<le> sint (a :: go_int)" "sint (a :: go_int) \<le> max_int"
  using sint_ge [of a] sint_lt [of a] by simp_all

lemma sint_of_int:
  assumes "min_int \<le> i" "i \<le> max_int"
  shows "sint (word_of_int i :: go_int) = i"
  using assms by (simp add: signed_take_bit_int_eq_self sint_sbintrunc')

lemma sint_diff1:
  assumes "0 < sint (a :: go_int)"
  shows "sint (a - 1) = sint a - 1"
proof -
  have "a - 1 = word_of_int (sint a - 1)" by simp
  moreover have "min_int \<le> sint a - 1" "sint a - 1 \<le> max_int"
    using assms sint_range [of a] by linarith+
  ultimately show ?thesis using sint_of_int by metis
qed

lemma sint_mult_small:
  assumes "min_int \<le> sint a * sint b" "sint a * sint b \<le> max_int"
  shows "sint ((a :: go_int) * b) = sint a * sint b"
proof -
  have "a * b = word_of_int (sint a * sint b)" by simp
  then show ?thesis using sint_of_int [OF assms] by metis
qed

lemma sint_add_small:
  assumes "min_int \<le> sint a + sint b" "sint a + sint b \<le> max_int"
  shows "sint ((a :: go_int) + b) = sint a + sint b"
proof -
  have "a + b = word_of_int (sint a + sint b)" by simp
  then show ?thesis using sint_of_int [OF assms] by metis
qed

lemma sint_of_nat_small: "int n \<le> max_int \<Longrightarrow> sint (of_nat n :: go_int) = int n"
  using sint_of_int [of "int n"] by simp

subsection \<open>Slices\<close>

text \<open>
  \<open>xs[lo:hi]\<close> with both bounds inside the length (the code clamps \<open>hi\<close> to the length before it
  slices); Go panics when the bounds are negative or out of order.
\<close>

definition go_slice :: "'a list \<Rightarrow> go_int \<Rightarrow> go_int \<Rightarrow> 'a list res" where
  "go_slice xs lo hi =
     (if sint lo < 0 \<or> sint hi < sint lo \<or> int (length xs) < sint hi
      then Panic ''slice bounds out of range''
      else Ok (take (nat (sint hi - sint lo)) (drop (nat (sint lo)) xs)))"

lemma go_slice_ok:
  assumes "0 \<le> sint lo" "sint lo \<le> sint hi" "sint hi \<le> int (length xs)"
  shows "go_slice xs lo hi = Ok (take (nat (sint hi - sint lo)) (drop (nat (sint lo)) xs))"
  using assms by (simp add: go_slice_def)

lemma go_slice_panic: "sint lo < 0 \<Longrightarrow> go_slice xs lo hi = Panic ''slice bounds out of range''"
  by (simp add: go_slice_def)

subsection \<open>Association lists\<close>

lemma set_update_subset: "set (AList.update k v al) \<subseteq> insert (k, v) (set al)"
  by (induction al) auto

lemma distinct_update_by:
  assumes "distinct (map fst al)" "distinct (map (f \<circ> snd) al)"
    and "\<forall>(j, v) \<in> set al. j \<noteq> i \<longrightarrow> f v \<noteq> f w"
  shows "distinct (map (f \<circ> snd) (AList.update i w al))"
  using assms
proof (induction al)
  case Nil
  then show ?case by simp
next
  case (Cons kv al)
  obtain k v where kv: "kv = (k, v)" by fastforce
  have "f v \<notin> (f \<circ> snd) ` set (AList.update i w al)" if "k \<noteq> i"
    using Cons.prems(2,3) that set_update_subset [of i w al] by (force simp: kv)
  moreover have "f w \<notin> (f \<circ> snd) ` set al" if "k = i"
    using Cons.prems(1,3) that by (force simp: kv)
  ultimately show ?case using Cons by (auto simp: kv)
qed

end
