(* ===== verification/Go_Strings.thy ===== *)
theory Go_Strings
  imports Go_Prelude "HOL-Library.Sublist"
begin

text \<open>
  The parts of Go's \<open>strings\<close>, \<open>strconv\<close> and \<open>fmt\<close> packages the source uses, on byte strings:
  \<open>TrimSpace\<close> (over the UTF-8 encodings of every Unicode white-space character), \<open>ToLower\<close>,
  \<open>HasPrefix\<close>, \<open>Contains\<close>, \<open>Split\<close>, \<open>SplitN(s, sep, 2)\<close>, \<open>Atoi\<close>/\<open>ParseInt\<close> in base 10 with the
  saturation of a range error, and \<open>%d\<close>. A \<open>string\<close> is a list of bytes, as in Go.
\<close>

subsection \<open>TrimSpace\<close>

text \<open>
  The bytes of every rune \<open>unicode.IsSpace\<close> accepts: the six ASCII ones, U+0085, U+00A0, U+1680,
  U+2000 to U+200A, U+2028, U+2029, U+202F, U+205F and U+3000.
\<close>

definition space_runes :: "string list" where
  "space_runes =
     [[CHR 0x20], [CHR 0x09], [CHR 0x0A], [CHR 0x0B], [CHR 0x0C], [CHR 0x0D],
      [CHR 0xC2, CHR 0x85], [CHR 0xC2, CHR 0xA0], [CHR 0xE1, CHR 0x9A, CHR 0x80],
      [CHR 0xE2, CHR 0x80, CHR 0x80], [CHR 0xE2, CHR 0x80, CHR 0x81],
      [CHR 0xE2, CHR 0x80, CHR 0x82], [CHR 0xE2, CHR 0x80, CHR 0x83],
      [CHR 0xE2, CHR 0x80, CHR 0x84], [CHR 0xE2, CHR 0x80, CHR 0x85],
      [CHR 0xE2, CHR 0x80, CHR 0x86], [CHR 0xE2, CHR 0x80, CHR 0x87],
      [CHR 0xE2, CHR 0x80, CHR 0x88], [CHR 0xE2, CHR 0x80, CHR 0x89],
      [CHR 0xE2, CHR 0x80, CHR 0x8A], [CHR 0xE2, CHR 0x80, CHR 0xA8],
      [CHR 0xE2, CHR 0x80, CHR 0xA9], [CHR 0xE2, CHR 0x80, CHR 0xAF],
      [CHR 0xE2, CHR 0x81, CHR 0x9F], [CHR 0xE3, CHR 0x80, CHR 0x80]]"

text \<open>Drop one of the given (non-empty) runes from the front, if there is one.\<close>

definition strip_one :: "string list \<Rightarrow> string \<Rightarrow> string option" where
  "strip_one rs s =
     map_option (\<lambda>t. drop (length t) s) (find (\<lambda>t. t \<noteq> [] \<and> prefix t s) rs)"

lemma strip_one_shorter: "strip_one rs s = Some s' \<Longrightarrow> length s' < length s"
  by (auto simp: strip_one_def find_Some_iff prefix_def)

lemma strip_one_suffix: "strip_one rs s = Some s' \<Longrightarrow> suffix s' s"
  by (auto simp: strip_one_def intro: suffix_drop)

lemma strip_one_None:
  "strip_one rs s = None \<longleftrightarrow> (\<forall>t\<in>set rs. t \<noteq> [] \<longrightarrow> \<not> prefix t s)"
  by (auto simp: strip_one_def find_None_iff)

function trim_left :: "string list \<Rightarrow> string \<Rightarrow> string" where
  "trim_left rs s = (case strip_one rs s of None \<Rightarrow> s | Some s' \<Rightarrow> trim_left rs s')"
  by pat_completeness auto
termination
  by (relation "measure (\<lambda>(rs, s). length s)") (auto dest: strip_one_shorter)

declare trim_left.simps [simp del]

definition trim_right :: "string list \<Rightarrow> string \<Rightarrow> string" where
  "trim_right rs s = rev (trim_left (map rev rs) (rev s))"

definition trim_space :: "string \<Rightarrow> string" where
  "trim_space s = trim_right space_runes (trim_left space_runes s)"

lemma trim_left_fixed: "strip_one rs s = None \<Longrightarrow> trim_left rs s = s"
  by (simp add: trim_left.simps)

lemma strip_trim_left: "strip_one rs (trim_left rs s) = None"
proof (induction rs s rule: trim_left.induct)
  case (1 rs s)
  then show ?case by (cases "strip_one rs s") (simp_all add: trim_left.simps [of rs s])
qed

lemma trim_left_suffix: "suffix (trim_left rs s) s"
proof (induction rs s rule: trim_left.induct)
  case (1 rs s)
  show ?case
  proof (cases "strip_one rs s")
    case None
    then show ?thesis by (simp add: trim_left_fixed)
  next
    case (Some s')
    then have "suffix (trim_left rs s') s'" by (rule "1.IH")
    with strip_one_suffix [OF Some] Some show ?thesis
      by (simp add: trim_left.simps [of rs s] suffix_order.order_trans)
  qed
qed

lemma trim_right_prefix: "prefix (trim_right rs s) s"
  using trim_left_suffix [of "map rev rs" "rev s"]
  by (simp add: trim_right_def suffix_to_prefix)

lemma strip_one_prefix_None:
  assumes "strip_one rs s = None" "prefix s' s"
  shows "strip_one rs s' = None"
  using assms by (auto simp: strip_one_None dest: prefix_order.order_trans)

lemma trim_space_no_left: "strip_one space_runes (trim_space s) = None"
  unfolding trim_space_def
  by (rule strip_one_prefix_None [OF strip_trim_left trim_right_prefix])

lemma trim_space_no_right: "strip_one (map rev space_runes) (rev (trim_space s)) = None"
  by (simp add: trim_space_def trim_right_def strip_trim_left)

lemma trim_space_fixed:
  assumes "strip_one space_runes s = None" "strip_one (map rev space_runes) (rev s) = None"
  shows "trim_space s = s"
  using assms by (simp add: trim_space_def trim_right_def trim_left_fixed)

lemma trim_space_idem [simp]: "trim_space (trim_space s) = trim_space s"
  by (rule trim_space_fixed [OF trim_space_no_left trim_space_no_right])

definition visible :: "char \<Rightarrow> bool" where
  "visible c \<longleftrightarrow> 32 < (of_char c :: nat) \<and> (of_char c :: nat) < 127"

lemma trim_space_visible:
  assumes "list_all visible s"
  shows "trim_space s = s"
proof (rule trim_space_fixed)
  have runes: "\<forall>t \<in> set space_runes. \<not> visible (hd t) \<and> \<not> visible (hd (rev t))"
    by (simp add: space_runes_def visible_def)
  have no: "\<not> prefix t r" if "t \<noteq> []" "\<not> visible (hd t)" "set r = set s" for t r
    using that assms by (cases t) (auto simp: prefix_def list_all_iff)
  show "strip_one space_runes s = None" using runes no by (auto simp: strip_one_None)
  show "strip_one (map rev space_runes) (rev s) = None" using runes no by (auto simp: strip_one_None)
qed

lemma trim_space_Nil [simp]: "trim_space [] = []"
proof -
  have "strip_one rs [] = None" for rs by (simp add: strip_one_None)
  then show ?thesis by (simp add: trim_space_fixed)
qed

lemma trim_space_sublist: "sublist (trim_space s) s"
proof -
  have "prefix (trim_space s) (trim_left space_runes s)"
    by (simp add: trim_space_def trim_right_prefix)
  then show ?thesis
    using trim_left_suffix [of space_runes s]
    by (meson prefix_imp_sublist suffix_imp_sublist sublist_order.order_trans)
qed

subsection \<open>ToLower, HasPrefix, Contains, Split\<close>

definition is_ascii :: "string \<Rightarrow> bool" where
  "is_ascii s \<longleftrightarrow> list_all (\<lambda>c. (of_char c :: nat) < 128) s"

definition ascii_lower :: "char \<Rightarrow> char" where
  "ascii_lower c =
     (let n = (of_char c :: nat) in if 65 \<le> n \<and> n \<le> 90 then char_of (n + 32) else c)"

text \<open>
  \<open>strings.ToLower\<close> takes its byte-wise path on ASCII input and maps \<open>unicode.ToLower\<close> otherwise;
  the Unicode tables are the parameter \<open>uni\<close>.
\<close>

definition to_lower :: "(string \<Rightarrow> string) \<Rightarrow> string \<Rightarrow> string" where
  "to_lower uni s = (if is_ascii s then map ascii_lower s else uni s)"

lemma ascii_lower_idem: "ascii_lower (ascii_lower c) = ascii_lower c"
  by (simp add: ascii_lower_def Let_def)

lemma of_char_ascii_lower: "(of_char c :: nat) < 128 \<Longrightarrow> (of_char (ascii_lower c) :: nat) < 128"
  by (simp add: ascii_lower_def Let_def)

lemma is_ascii_lower: "is_ascii s \<Longrightarrow> is_ascii (map ascii_lower s)"
  by (auto simp: is_ascii_def list_all_iff of_char_ascii_lower)

lemma is_ascii_sublist: "is_ascii s \<Longrightarrow> sublist s' s \<Longrightarrow> is_ascii s'"
  by (auto simp: is_ascii_def list_all_iff sublist_def)

lemma to_lower_fixed:
  assumes "is_ascii s" "sublist s' (to_lower uni s)"
  shows "to_lower uni s' = s'"
proof -
  have low: "sublist s' (map ascii_lower s)" using assms by (simp add: to_lower_def)
  then have "set s' \<subseteq> set (map ascii_lower s)" by (rule set_mono_sublist)
  then have "map ascii_lower s' = s'"
    by (intro map_idI) (auto simp: ascii_lower_idem)
  moreover have "is_ascii s'" using is_ascii_lower [OF assms(1)] low by (rule is_ascii_sublist)
  ultimately show ?thesis by (simp add: to_lower_def)
qed

fun contains_str :: "string \<Rightarrow> string \<Rightarrow> bool" where
  "contains_str p [] \<longleftrightarrow> p = []"
| "contains_str p (c # s) \<longleftrightarrow> prefix p (c # s) \<or> contains_str p s"

lemma contains_str_sublist: "contains_str p s \<longleftrightarrow> sublist p s"
  by (induction s) (auto simp: sublist_Cons_right)

text \<open>\<open>strings.Split\<close> with a one-byte separator: one piece more than there are separators.\<close>

fun split_on :: "char \<Rightarrow> string \<Rightarrow> string list" where
  "split_on c [] = [[]]"
| "split_on c (x # s) =
     (if x = c then [] # split_on c s
      else (case split_on c s of [] \<Rightarrow> [[x]] | p # ps \<Rightarrow> (x # p) # ps))"

text \<open>\<open>strings.SplitN(s, sep, 2)\<close> on a string that contains the separator: before and after the first.\<close>

definition split_first :: "char \<Rightarrow> string \<Rightarrow> string \<times> string" where
  "split_first c s = (takeWhile (\<lambda>x. x \<noteq> c) s, drop 1 (dropWhile (\<lambda>x. x \<noteq> c) s))"

lemma split_on_nonempty [simp]: "split_on c s \<noteq> []"
  by (cases s) (simp_all split: list.splits)

lemma split_on_no_sep: "p \<in> set (split_on c s) \<Longrightarrow> c \<notin> set p"
proof (induction s arbitrary: p)
  case Nil
  then show ?case by simp
next
  case (Cons x s)
  then show ?case by (cases "split_on c s") (auto split: if_splits)
qed

lemma length_split_on: "length (split_on c s) = Suc (count_list s c)"
proof (induction s)
  case Nil
  then show ?case by simp
next
  case (Cons x s)
  then show ?case by (cases "split_on c s") auto
qed

lemma sep_inject:
  assumes "c \<notin> set xs" "c \<notin> set xs'" "xs @ c # ys = xs' @ c # ys'"
  shows "xs = xs' \<and> ys = ys'"
  using assms
proof (induction xs arbitrary: xs')
  case Nil
  then show ?case by (cases xs') auto
next
  case (Cons x xs)
  then show ?case by (cases xs') auto
qed

subsection \<open>Numbers in decimal\<close>

definition digit_char :: "nat \<Rightarrow> char" where
  "digit_char d = char_of (48 + d)"

definition digit_val :: "char \<Rightarrow> nat option" where
  "digit_val c =
     (let n = (of_char c :: nat) in if 48 \<le> n \<and> n \<le> 57 then Some (n - 48) else None)"

lemma digit_val_char: "d < 10 \<Longrightarrow> digit_val (digit_char d) = Some d"
  by (simp add: digit_val_def digit_char_def Let_def)

lemma digit_val_Some_less: "digit_val c = Some d \<Longrightarrow> d < 10"
  by (auto simp: digit_val_def Let_def split: if_splits)

fun show_nat :: "nat \<Rightarrow> string" where
  "show_nat n =
     (if n < 10 then [digit_char n] else show_nat (n div 10) @ [digit_char (n mod 10)])"

declare show_nat.simps [simp del]

text \<open>\<open>%d\<close> of \<open>fmt.Sprintf\<close>.\<close>

definition show_int :: "int \<Rightarrow> string" where
  "show_int i = (if i < 0 then CHR ''-'' # show_nat (nat (- i)) else show_nat (nat i))"

lemma show_nat_digits: "c \<in> set (show_nat n) \<Longrightarrow> \<exists>d < 10. c = digit_char d"
proof (induction n rule: show_nat.induct)
  case (1 n)
  have last: "\<exists>d < 10. digit_char (n mod 10) = digit_char d"
    by (rule exI [of _ "n mod 10"]) simp
  show ?case
  proof (cases "n < 10")
    case True
    with "1.prems" show ?thesis by (auto simp: show_nat.simps [of n])
  next
    case False
    with "1.prems" have "c \<in> set (show_nat (n div 10)) \<or> c = digit_char (n mod 10)"
      by (auto simp: show_nat.simps [of n])
    with "1.IH" [OF False] last show ?thesis by auto
  qed
qed

lemma digit_char_code: "d < 10 \<Longrightarrow> (of_char (digit_char d) :: nat) = 48 + d"
  by (simp add: digit_char_def)

lemma show_nat_not_in:
  assumes "(of_char c :: nat) < 48 \<or> 57 < (of_char c :: nat)"
  shows "c \<notin> set (show_nat n)"
  using assms show_nat_digits [of c n] digit_char_code by fastforce

lemma colon_show_nat [simp]: "CHR '':'' \<notin> set (show_nat n)"
  by (rule show_nat_not_in) simp

lemma colon_show_int [simp]: "CHR '':'' \<notin> set (show_int i)"
  by (simp add: show_int_def)

lemma minus_show_nat [simp]: "CHR ''-'' \<notin> set (show_nat n)"
  by (rule show_nat_not_in) simp

lemma show_nat_nonempty [simp]: "show_nat n \<noteq> []"
  by (subst show_nat.simps) simp

definition dec_val :: "string \<Rightarrow> nat" where
  "dec_val s = foldl (\<lambda>a c. 10 * a + the (digit_val c)) 0 s"

lemma dec_val_show_nat: "dec_val (show_nat n) = n"
proof (induction n rule: show_nat.induct)
  case (1 n)
  then show ?case
    by (subst show_nat.simps) (auto simp: dec_val_def digit_val_char)
qed

lemma show_nat_inject [simp]: "show_nat m = show_nat n \<longleftrightarrow> m = n"
  by (metis dec_val_show_nat)

lemma show_int_inject [simp]: "show_int i = show_int j \<longleftrightarrow> i = j"
proof -
  have "CHR ''-'' # show_nat m \<noteq> show_nat n" for m n
    using minus_show_nat [of n] by (metis list.set_intros(1))
  then show ?thesis unfolding show_int_def by (auto simp: nat_eq_iff2 dest: sym)
qed

subsection \<open>ParseInt and Atoi\<close>

datatype num_error = NumSyntax | NumRange

text \<open>
  The digit loop of \<open>strconv.ParseUint(s, 10, 64)\<close>: it stops at the first byte that is not a digit
  (value 0) and at the first overflow (the largest value), whatever follows.
\<close>

fun parse_uint_loop :: "nat \<Rightarrow> string \<Rightarrow> nat \<times> num_error option" where
  "parse_uint_loop n [] = (n, None)"
| "parse_uint_loop n (c # s) =
     (case digit_val c of
        None \<Rightarrow> (0, Some NumSyntax)
      | Some d \<Rightarrow>
          if 2 ^ 64 - 1 < 10 * n + d then (2 ^ 64 - 1, Some NumRange)
          else parse_uint_loop (10 * n + d) s)"

definition parse_uint :: "string \<Rightarrow> nat \<times> num_error option" where
  "parse_uint s = (if s = [] then (0, Some NumSyntax) else parse_uint_loop 0 s)"

text \<open>\<open>strconv.ParseInt(s, 10, 64)\<close>, and \<open>strconv.Atoi\<close>, which agrees with it on 64-bit targets.\<close>

definition parse_int :: "string \<Rightarrow> int \<times> num_error option" where
  "parse_int s =
     (case s of
        [] \<Rightarrow> (0, Some NumSyntax)
      | c # cs \<Rightarrow>
          let neg = (c = CHR ''-'');
              body = (if c = CHR ''+'' \<or> neg then cs else s);
              (un, e) = parse_uint body
          in if e = Some NumSyntax then (0, e)
             else if \<not> neg \<and> 2 ^ 63 \<le> un then (2 ^ 63 - 1, Some NumRange)
             else if neg \<and> 2 ^ 63 < un then (- (2 ^ 63), Some NumRange)
             else (if neg then - int un else int un, None))"

definition atoi :: "string \<Rightarrow> go_int \<times> num_error option" where
  "atoi s = (case parse_int s of (i, e) \<Rightarrow> (word_of_int i, e))"

lemma parse_uint_loop_le: "n \<le> 2 ^ 64 - 1 \<Longrightarrow> fst (parse_uint_loop n s) \<le> 2 ^ 64 - 1"
  by (induction n s rule: parse_uint_loop.induct) (auto split: option.splits)

lemma parse_uint_le: "fst (parse_uint s) \<le> 2 ^ 64 - 1"
  using parse_uint_loop_le [of 0 s] by (simp add: parse_uint_def)

lemma parse_int_range: "min_int \<le> fst (parse_int s)" "fst (parse_int s) \<le> max_int"
  by (auto simp: parse_int_def Let_def split: list.splits prod.splits)

lemma sint_atoi: "sint (fst (atoi s)) = fst (parse_int s)"
  using parse_int_range [of s] by (cases "parse_int s") (simp add: atoi_def sint_of_int)

lemma parse_uint_loop_snoc:
  "parse_uint_loop n s = (m, None) \<Longrightarrow> parse_uint_loop n (s @ t) = parse_uint_loop m t"
  by (induction n s rule: parse_uint_loop.induct) (auto split: option.splits if_splits)

lemma parse_uint_loop_show_nat:
  assumes "n \<le> 2 ^ 64 - 1"
  shows "parse_uint_loop 0 (show_nat n) = (n, None)"
  using assms
proof (induction n rule: show_nat.induct)
  case (1 n)
  show ?case
  proof (cases "n < 10")
    case True
    then show ?thesis by (simp add: show_nat.simps [of n] digit_val_char)
  next
    case False
    with 1 have "parse_uint_loop 0 (show_nat (n div 10)) = (n div 10, None)" by simp
    with False "1.prems" show ?thesis
      by (simp add: show_nat.simps [of n] parse_uint_loop_snoc digit_val_char)
  qed
qed

lemma parse_uint_show_nat: "n \<le> 2 ^ 64 - 1 \<Longrightarrow> parse_uint (show_nat n) = (n, None)"
  by (simp add: parse_uint_def parse_uint_loop_show_nat)

lemma show_nat_Cons:
  obtains c cs where "show_nat n = c # cs" "c \<noteq> CHR ''-''" "c \<noteq> CHR ''+''"
proof (cases "show_nat n")
  case Nil
  then show ?thesis by simp
next
  case (Cons c cs)
  then have "c \<in> set (show_nat n)" by simp
  moreover have "CHR ''+'' \<notin> set (show_nat n)" by (rule show_nat_not_in) simp
  ultimately show ?thesis using Cons minus_show_nat [of n] that by metis
qed

lemma parse_int_show_nat: "int n \<le> max_int \<Longrightarrow> parse_int (show_nat n) = (int n, None)"
proof -
  assume n: "int n \<le> max_int"
  obtain c cs where c: "show_nat n = c # cs" "c \<noteq> CHR ''-''" "c \<noteq> CHR ''+''" by (rule show_nat_Cons)
  have "parse_uint (c # cs) = (n, None)" using parse_uint_show_nat [of n] n c(1) by simp
  then show ?thesis using n c by (simp add: parse_int_def)
qed

subsection \<open>UTF-8\<close>

text \<open>
  \<open>utf8.ValidString\<close>: no stray continuation byte, no overlong form, no surrogate, nothing above U+10FFFF.
\<close>

definition utf8_cont :: "nat \<Rightarrow> nat \<Rightarrow> nat list \<Rightarrow> nat list option" where
  "utf8_cont lo hi bs =
     (case bs of [] \<Rightarrow> None | b # bs \<Rightarrow> if lo \<le> b \<and> b \<le> hi then Some bs else None)"

text \<open>The bytes after the first rune, if they begin with one.\<close>

definition utf8_rune :: "nat list \<Rightarrow> nat list option" where
  "utf8_rune bs =
     (case bs of
        [] \<Rightarrow> None
      | b # bs \<Rightarrow>
          let tail = utf8_cont 128 191 in
          if b < 128 then Some bs
          else if b < 194 then None
          else if b \<le> 223 then tail bs
          else if b \<le> 239 then
            Option.bind (utf8_cont (if b = 224 then 160 else 128) (if b = 237 then 159 else 191) bs) tail
          else if b \<le> 244 then
            Option.bind (Option.bind
              (utf8_cont (if b = 240 then 144 else 128) (if b = 244 then 143 else 191) bs) tail) tail
          else None)"

lemma utf8_cont_length: "utf8_cont lo hi bs = Some cs \<Longrightarrow> length cs < length bs"
  by (auto simp: utf8_cont_def split: list.splits if_splits)

lemma utf8_rune_length: "utf8_rune bs = Some cs \<Longrightarrow> length cs < length bs"
  by (fastforce simp: utf8_rune_def Let_def dest: utf8_cont_length
      split: list.splits if_splits Option.bind_splits)

function utf8_runes :: "nat list \<Rightarrow> bool" where
  "utf8_runes bs = (bs = [] \<or> (case utf8_rune bs of None \<Rightarrow> False | Some cs \<Rightarrow> utf8_runes cs))"
  by pat_completeness auto
termination
  by (relation "measure length") (auto dest: utf8_rune_length)

declare utf8_runes.simps [simp del]

definition utf8_valid :: "string \<Rightarrow> bool" where
  "utf8_valid s = utf8_runes (map of_char s)"

lemma utf8_valid_ascii:
  assumes "is_ascii s"
  shows "utf8_valid s"
proof -
  have "utf8_runes bs" if "list_all (\<lambda>b. b < 128) bs" for bs
    using that
    by (induction bs) (simp_all add: utf8_runes.simps utf8_rune_def)
  then show ?thesis using assms by (simp add: utf8_valid_def is_ascii_def list_all_iff)
qed

lemma utf8_valid_append:
  assumes "is_ascii s"
  shows "utf8_valid (s @ t) \<longleftrightarrow> utf8_valid t"
proof -
  have "utf8_runes (bs @ cs) \<longleftrightarrow> utf8_runes cs" if "list_all (\<lambda>b. b < 128) bs" for bs cs
    using that
    by (induction bs) (simp_all add: utf8_runes.simps [of "_ # _"] utf8_rune_def)
  then show ?thesis using assms by (simp add: utf8_valid_def is_ascii_def list_all_iff)
qed

end
