(* ===== verification/User_Model.thy ===== *)
theory User_Model
  imports Go_Strings
begin

text \<open>
  The core entity and the interfaces of package \<open>internal/core\<close>: \<open>User\<close>, \<open>UserRepository\<close>,
  \<open>UserService\<close>, \<open>UnitOfWork\<close> and \<open>TxStarter\<close>, and the error-to-status map of \<open>internal/errs\<close>.

  A Go interface is a record of operations over a state type; the operations take the state and
  return the new one beside their result. Each interface has a contract, stated as a locale over
  an abstraction \<open>live\<close> of the state to the finite map of users that are not deleted.
\<close>

subsection \<open>Users\<close>

type_synonym uuid = "128 word"

text \<open>A \<open>time.Time\<close> in UTC: nanoseconds since the Unix epoch.\<close>

type_synonym time = int

record user =
  ID :: uuid
  Name :: string
  Email :: string
  CreatedAt :: time
  UpdatedAt :: time
  DeletedAt :: "time option"

definition HTTPStatus :: "gerr \<Rightarrow> nat" where
  "HTTPStatus err =
     (if errors_is err ErrNotFound then 404
      else if errors_is err ErrConflict then 409
      else if errors_is err ErrValidation then 400
      else 500)"

subsection \<open>The environment of one call\<close>

text \<open>
  What an operation takes from outside the program: the clock, \<open>uuid.New\<close>, the Unicode tables
  behind \<open>strings.ToLower\<close>, the acceptance test of \<open>mail.ParseAddress\<close>, the iteration order of a Go
  map, \<open>sort.Slice\<close>, and the error (if any) the database driver reports for a statement.
\<close>

record env =
  now :: time
  fresh_id :: uuid
  unicode_lower :: "string \<Rightarrow> string"
  address_ok :: "string \<Rightarrow> bool"
  range_users :: "(uuid \<times> user) list \<Rightarrow> (uuid \<times> user) list"
  sort_users :: "(user \<Rightarrow> user \<Rightarrow> bool) \<Rightarrow> user list \<Rightarrow> user list"
  db_error :: "string \<Rightarrow> gerr option"

definition strict_weak :: "('a \<Rightarrow> 'a \<Rightarrow> bool) \<Rightarrow> bool" where
  "strict_weak lt \<longleftrightarrow>
     (\<forall>a. \<not> lt a a) \<and> (\<forall>a b c. lt a b \<longrightarrow> lt b c \<longrightarrow> lt a c) \<and>
     (\<forall>a b c. \<not> lt a b \<longrightarrow> \<not> lt b c \<longrightarrow> \<not> lt a c)"

text \<open>An error that is, and wraps, none of the sentinels.\<close>

definition opaque :: "gerr \<Rightarrow> bool" where
  "opaque f \<longleftrightarrow>
     \<not> errors_is f ErrNotFound \<and> \<not> errors_is f ErrConflict \<and> \<not> errors_is f ErrValidation \<and>
     \<not> errors_is f ErrNoRows"

text \<open>
  The documented behaviour relied on: ranging over a map visits each entry once in some order,
  \<open>sort.Slice\<close> permutes its slice and leaves no later element that must come before an earlier one,
  and driver errors are opaque.
\<close>

definition wf_env :: "env \<Rightarrow> bool" where
  "wf_env e \<longleftrightarrow>
     (\<forall>kus. mset (range_users e kus) = mset kus) \<and>
     (\<forall>lt us. strict_weak lt \<longrightarrow>
        mset (sort_users e lt us) = mset us \<and>
        sorted_wrt (\<lambda>a b. \<not> lt b a) (sort_users e lt us)) \<and>
     (\<forall>q f. db_error e q = Some f \<longrightarrow> opaque f)"

text \<open>A call during which the database reports no error.\<close>

definition calm :: "env \<Rightarrow> bool" where
  "calm e \<longleftrightarrow> (\<forall>q. db_error e q = None)"

lemma HTTPStatus_opaque: "opaque f \<Longrightarrow> HTTPStatus f = 500"
  by (simp add: opaque_def HTTPStatus_def)

lemma opaque_Wrapf: "opaque f \<Longrightarrow> opaque (Wrapf s f)"
  by (simp add: opaque_def)

lemma wf_env_range: "wf_env e \<Longrightarrow> mset (range_users e kus) = mset kus"
  by (simp add: wf_env_def)

lemma wf_env_sort:
  assumes "wf_env e" "strict_weak lt"
  shows "mset (sort_users e lt us) = mset us"
    "sorted_wrt (\<lambda>a b. \<not> lt b a) (sort_users e lt us)"
  using assms by (simp_all add: wf_env_def)

lemma wf_env_db: "wf_env e \<Longrightarrow> db_error e q = Some f \<Longrightarrow> opaque f"
  by (simp add: wf_env_def)

text \<open>
  A concrete environment, for evaluating the model: insertion sort for \<open>sort.Slice\<close>, insertion
  order for map iteration, no database errors.
\<close>

fun sort_insert :: "('a \<Rightarrow> 'a \<Rightarrow> bool) \<Rightarrow> 'a \<Rightarrow> 'a list \<Rightarrow> 'a list" where
  "sort_insert lt x [] = [x]"
| "sort_insert lt x (y # ys) = (if lt y x then y # sort_insert lt x ys else x # y # ys)"

definition insertion_sort :: "('a \<Rightarrow> 'a \<Rightarrow> bool) \<Rightarrow> 'a list \<Rightarrow> 'a list" where
  "insertion_sort lt xs = foldr (sort_insert lt) xs []"

lemma mset_sort_insert: "mset (sort_insert lt x ys) = add_mset x (mset ys)"
  by (induction ys) auto

lemma set_sort_insert: "set (sort_insert lt x ys) = insert x (set ys)"
  by (induction ys) auto

lemma sorted_sort_insert:
  assumes "strict_weak lt" "sorted_wrt (\<lambda>a b. \<not> lt b a) ys"
  shows "sorted_wrt (\<lambda>a b. \<not> lt b a) (sort_insert lt x ys)"
  using assms(2)
proof (induction ys)
  case Nil
  then show ?case by simp
next
  case (Cons y ys)
  have asym: "lt y x \<Longrightarrow> \<not> lt x y" and ntrans: "\<And>b. \<not> lt b y \<Longrightarrow> \<not> lt y x \<Longrightarrow> \<not> lt b x"
    using assms(1) unfolding strict_weak_def by blast+
  show ?case using Cons ntrans by (auto simp: set_sort_insert asym)
qed

lemma mset_insertion_sort: "mset (insertion_sort lt xs) = mset xs"
  unfolding insertion_sort_def by (induction xs) (simp_all add: mset_sort_insert)

lemma sorted_insertion_sort:
  "strict_weak lt \<Longrightarrow> sorted_wrt (\<lambda>a b. \<not> lt b a) (insertion_sort lt xs)"
  unfolding insertion_sort_def by (induction xs) (simp_all add: sorted_sort_insert)

definition sample_env :: env where
  "sample_env =
     \<lparr>now = 1000, fresh_id = 7, unicode_lower = (\<lambda>s. s), address_ok = (\<lambda>s. CHR ''@'' \<in> set s),
      range_users = (\<lambda>kus. kus), sort_users = insertion_sort, db_error = (\<lambda>q. None)\<rparr>"

lemma sample_env_simps [simp]:
  "now sample_env = 1000" "fresh_id sample_env = 7" "unicode_lower sample_env = (\<lambda>s. s)"
  "address_ok sample_env = (\<lambda>s. CHR ''@'' \<in> set s)" "range_users sample_env = (\<lambda>kus. kus)"
  "sort_users sample_env = insertion_sort" "db_error sample_env = (\<lambda>q. None)"
  by (simp_all add: sample_env_def)

lemma wf_sample_env [simp]: "wf_env sample_env"
  by (simp add: wf_env_def mset_insertion_sort sorted_insertion_sort)

lemma calm_sample_env [simp]: "calm sample_env"
  by (simp add: calm_def)

subsection \<open>Interfaces\<close>

record 'r repo_ops =
  repo_Create :: "env \<Rightarrow> 'r \<Rightarrow> user \<Rightarrow> 'r \<times> unit res"
  repo_Get :: "env \<Rightarrow> 'r \<Rightarrow> uuid \<Rightarrow> 'r \<times> user res"
  repo_Update :: "env \<Rightarrow> 'r \<Rightarrow> user \<Rightarrow> 'r \<times> unit res"
  repo_Delete :: "env \<Rightarrow> 'r \<Rightarrow> uuid \<Rightarrow> 'r \<times> unit res"
  repo_List :: "env \<Rightarrow> 'r \<Rightarrow> go_int \<Rightarrow> go_int \<Rightarrow> 'r \<times> (user list \<times> go_int) res"

text \<open>
  A unit of work is a transaction handle \<open>'t\<close> opened on a database \<open>'r\<close>; its repository works on
  the handle, \<open>Commit\<close> and \<open>Rollback\<close> end it.
\<close>

record ('r, 't) tx_ops =
  tx_Begin :: "env \<Rightarrow> 'r \<Rightarrow> 'r \<times> 't res"
  tx_UserRepo :: "'t repo_ops"
  tx_Commit :: "env \<Rightarrow> 'r \<Rightarrow> 't \<Rightarrow> 'r \<times> unit res"
  tx_Rollback :: "env \<Rightarrow> 'r \<Rightarrow> 't \<Rightarrow> 'r \<times> unit res"

text \<open>The function a caller passes to \<open>WithTx\<close>: it works through the unit of work's repository.\<close>

type_synonym 't tx_fn = "env \<Rightarrow> 't repo_ops \<Rightarrow> 't \<Rightarrow> 't \<times> unit res"

record ('s, 't) svc_ops =
  svc_Create :: "env \<Rightarrow> 's \<Rightarrow> string \<Rightarrow> string \<Rightarrow> 's \<times> user res"
  svc_Get :: "env \<Rightarrow> 's \<Rightarrow> uuid \<Rightarrow> 's \<times> user res"
  svc_Update :: "env \<Rightarrow> 's \<Rightarrow> uuid \<Rightarrow> string option \<Rightarrow> string option \<Rightarrow> 's \<times> user res"
  svc_Delete :: "env \<Rightarrow> 's \<Rightarrow> uuid \<Rightarrow> 's \<times> unit res"
  svc_List :: "env \<Rightarrow> 's \<Rightarrow> go_int \<Rightarrow> go_int \<Rightarrow> 's \<times> (user list \<times> go_int) res"
  svc_WithTx :: "env \<Rightarrow> 's \<Rightarrow> 't tx_fn \<Rightarrow> 's \<times> unit res"

subsection \<open>Abstract listings\<close>

type_synonym users_map = "uuid \<Rightarrow> user option"

text \<open>
  \<open>listing m us\<close>: \<open>us\<close> lists the users of \<open>m\<close>, each once, newest first.
  \<open>page_result norm m p z us t\<close>: \<open>us\<close> is page \<open>p\<close> of size \<open>z\<close> of such a listing, after the
  repository's normalisation \<open>norm\<close> of the page number and size, and \<open>t\<close> the number of users.
\<close>

definition listing :: "users_map \<Rightarrow> user list \<Rightarrow> bool" where
  "listing m us \<longleftrightarrow>
     distinct us \<and> set us = ran m \<and> sorted_wrt (\<lambda>a b. CreatedAt b \<le> CreatedAt a) us"

definition page_result ::
  "(go_int \<Rightarrow> go_int \<Rightarrow> int \<times> int) \<Rightarrow> users_map \<Rightarrow> go_int \<Rightarrow> go_int \<Rightarrow> user list \<Rightarrow> go_int \<Rightarrow> bool"
where
  "page_result norm m p z us t \<longleftrightarrow>
     (\<exists>full. listing m full \<and> t = of_nat (length full) \<and>
        (case norm p z of (pg, sz) \<Rightarrow>
           us = take (nat sz) (drop (nat ((pg - 1) * sz)) full)))"

lemma listing_length: "listing m us \<Longrightarrow> length us = card (ran m)"
  by (metis distinct_card listing_def)

lemma page_result_members:
  assumes "page_result norm m p z us t"
  shows "set us \<subseteq> ran m" "distinct us" "sorted_wrt (\<lambda>a b. CreatedAt b \<le> CreatedAt a) us"
proof -
  from assms obtain full sz pg where
      full: "listing m full" and us: "us = take (nat sz) (drop (nat ((pg - 1) * sz)) full)"
    by (auto simp: page_result_def)
  have "set us \<subseteq> set full"
    unfolding us by (meson order_trans set_drop_subset set_take_subset)
  then show "set us \<subseteq> ran m" using full by (simp add: listing_def)
  show "distinct us" "sorted_wrt (\<lambda>a b. CreatedAt b \<le> CreatedAt a) us"
    using full by (simp_all add: us listing_def sorted_wrt_take sorted_wrt_drop)
qed

lemma page_result_length:
  assumes "page_result norm m p z us t"
  shows "int (length us) \<le> max 0 (snd (norm p z))"
  using assms by (cases "norm p z") (auto simp: page_result_def)

text \<open>
  \<open>page_fits\<close>: the product the code computes for the page's end does not leave Go's \<open>int\<close>, nor does
  the number of users.
\<close>

definition page_fits ::
  "(go_int \<Rightarrow> go_int \<Rightarrow> int \<times> int) \<Rightarrow> users_map \<Rightarrow> go_int \<Rightarrow> go_int \<Rightarrow> bool" where
  "page_fits norm m p z \<longleftrightarrow>
     (case norm p z of (pg, sz) \<Rightarrow> pg * sz \<le> max_int) \<and> int (card (ran m)) \<le> max_int"

subsection \<open>The contract of a repository\<close>

text \<open>
  What the service relies on, whichever repository it is given. \<open>stored\<close> is the precision the
  store keeps (the identity in memory, microseconds in Postgres), \<open>norm\<close> its normalisation of page
  arguments.
\<close>

locale user_repo =
  fixes ops :: "'r repo_ops"
    and live :: "'r \<Rightarrow> users_map"
    and inv :: "'r \<Rightarrow> bool"
    and stored :: "user \<Rightarrow> user"
    and norm :: "go_int \<Rightarrow> go_int \<Rightarrow> int \<times> int"
  assumes stored_fields:
      "ID (stored u) = ID u" "Name (stored u) = Name u" "Email (stored u) = Email u"
      "DeletedAt (stored u) = DeletedAt u"
    and live_wf:
      "inv r \<Longrightarrow> live r i = Some u \<Longrightarrow> ID u = i \<and> DeletedAt u = None \<and> stored u = u"
    and get:
      "wf_env e \<Longrightarrow> inv r \<Longrightarrow>
       fst (repo_Get ops e r i) = r \<and>
       (case snd (repo_Get ops e r i) of
          Ok u \<Rightarrow> live r i = Some u
        | Err f \<Rightarrow> f = ErrNotFound \<and> live r i = None \<or> opaque f
        | Panic q \<Rightarrow> False)"
    and get_calm:
      "wf_env e \<Longrightarrow> calm e \<Longrightarrow> inv r \<Longrightarrow>
       snd (repo_Get ops e r i) = (case live r i of None \<Rightarrow> Err ErrNotFound | Some u \<Rightarrow> Ok u)"
    and create:
      "wf_env e \<Longrightarrow> inv r \<Longrightarrow> DeletedAt u = None \<Longrightarrow> repo_Create ops e r u = (r', x) \<Longrightarrow>
       (case x of
          Ok v \<Rightarrow> live r (ID u) = None \<and> inv r' \<and> live r' = (live r)(ID u \<mapsto> stored u)
        | Err f \<Rightarrow> r' = r \<and> opaque f
        | Panic q \<Rightarrow> False)"
    and update:
      "wf_env e \<Longrightarrow> inv r \<Longrightarrow> live r (ID u) = Some u0 \<Longrightarrow> CreatedAt u = CreatedAt u0 \<Longrightarrow>
       DeletedAt u = None \<Longrightarrow> repo_Update ops e r u = (r', x) \<Longrightarrow>
       (case x of
          Ok v \<Rightarrow> inv r' \<and> live r' = (live r)(ID u \<mapsto> stored u)
        | Err f \<Rightarrow> r' = r \<and> opaque f
        | Panic q \<Rightarrow> False)"
    and delete:
      "wf_env e \<Longrightarrow> inv r \<Longrightarrow> repo_Delete ops e r i = (r', x) \<Longrightarrow>
       (case x of
          Ok v \<Rightarrow> live r i \<noteq> None \<and> inv r' \<and> live r' = (live r)(i := None)
        | Err f \<Rightarrow> r' = r \<and> (f = ErrNotFound \<and> live r i = None \<or> opaque f)
        | Panic q \<Rightarrow> False)"
    and delete_calm:
      "wf_env e \<Longrightarrow> calm e \<Longrightarrow> inv r \<Longrightarrow>
       snd (repo_Delete ops e r i) = (case live r i of None \<Rightarrow> Err ErrNotFound | Some u \<Rightarrow> Ok ())"
    and listed:
      "wf_env e \<Longrightarrow> inv r \<Longrightarrow> page_fits norm (live r) p z \<Longrightarrow>
       fst (repo_List ops e r p z) = r \<and>
       (case snd (repo_List ops e r p z) of
          Ok v \<Rightarrow> page_result norm (live r) p z (fst v) (snd v)
        | Err f \<Rightarrow> opaque f
        | Panic q \<Rightarrow> False)"
    and list_state: "fst (repo_List ops e r p z) = r"
    and update_missing:
      "wf_env e \<Longrightarrow> inv r \<Longrightarrow> live r (ID u) = None \<Longrightarrow> repo_Update ops e r u = (r', x) \<Longrightarrow>
       r' = r \<and> (\<exists>f. x = Err f \<and> (f = ErrNotFound \<or> opaque f))"

end
