(* ===== verification/Mem_Repo.thy ===== *)
theory Mem_Repo
  imports User_Model
begin

text \<open>
  \<open>internal/core/user_repo_memory.go\<close>: the in-memory \<open>UserRepository\<close>. The Go map is an association
  list with distinct keys; the methods hold the mutex for their whole body, so each is one step.
  The copies the code makes (\<open>cpy := *u\<close>) keep callers from aliasing the stored users, which
  is what passing records by value models.
\<close>

record mem_repo =
  users :: "(uuid \<times> user) list"

definition NewInMemoryUserRepo :: mem_repo where
  "NewInMemoryUserRepo = \<lparr>users = []\<rparr>"

definition mem_Create :: "env \<Rightarrow> mem_repo \<Rightarrow> user \<Rightarrow> mem_repo \<times> unit res" where
  "mem_Create e r u =
     (case map_of (users r) (ID u) of
        Some x \<Rightarrow> (r, Err (ErrorNew ''duplicate id''))
      | None \<Rightarrow> (r\<lparr>users := AList.update (ID u) u (users r)\<rparr>, Ok ()))"

definition mem_Get :: "env \<Rightarrow> mem_repo \<Rightarrow> uuid \<Rightarrow> mem_repo \<times> user res" where
  "mem_Get e r uid =
     (r, case map_of (users r) uid of
           None \<Rightarrow> Err ErrNotFound
         | Some u \<Rightarrow> if DeletedAt u \<noteq> None then Err ErrNotFound else Ok u)"

definition mem_Update :: "env \<Rightarrow> mem_repo \<Rightarrow> user \<Rightarrow> mem_repo \<times> unit res" where
  "mem_Update e r u =
     (case map_of (users r) (ID u) of
        None \<Rightarrow> (r, Err ErrNotFound)
      | Some existing \<Rightarrow>
          if DeletedAt existing \<noteq> None then (r, Err ErrNotFound)
          else (r\<lparr>users := AList.update (ID u) u (users r)\<rparr>, Ok ()))"

definition mem_Delete :: "env \<Rightarrow> mem_repo \<Rightarrow> uuid \<Rightarrow> mem_repo \<times> unit res" where
  "mem_Delete e r uid =
     (case map_of (users r) uid of
        None \<Rightarrow> (r, Err ErrNotFound)
      | Some u \<Rightarrow>
          if DeletedAt u \<noteq> None then (r, Err ErrNotFound)
          else (r\<lparr>users := AList.update uid (u\<lparr>DeletedAt := Some (now e)\<rparr>) (users r)\<rparr>, Ok ()))"

text \<open>\<open>a.CreatedAt.After(b.CreatedAt)\<close>, the order \<open>sort.Slice\<close> is given.\<close>

definition newer :: "user \<Rightarrow> user \<Rightarrow> bool" where
  "newer a b \<longleftrightarrow> CreatedAt b < CreatedAt a"

definition mem_live_list :: "env \<Rightarrow> mem_repo \<Rightarrow> user list" where
  "mem_live_list e r =
     sort_users e newer (filter (\<lambda>u. DeletedAt u = None) (map snd (range_users e (users r))))"

definition mem_List ::
  "env \<Rightarrow> mem_repo \<Rightarrow> go_int \<Rightarrow> go_int \<Rightarrow> mem_repo \<times> (user list \<times> go_int) res" where
  "mem_List e r page pageSize =
     (let list = mem_live_list e r;
          total = of_nat (length list);
          pageSize = (if sint pageSize \<le> 0 then 50 else pageSize);
          page = (if sint page \<le> 0 then 1 else page);
          start = (page - 1) * pageSize
      in (r,
          if sint total \<le> sint start then Ok ([], total)
          else
            let end' = start + pageSize;
                end' = (if sint total < sint end' then total else end')
            in case go_slice list start end' of
                 Ok us \<Rightarrow> Ok (us, total)
               | Err f \<Rightarrow> Err f
               | Panic q \<Rightarrow> Panic q))"

definition mem_ops :: "mem_repo repo_ops" where
  "mem_ops =
     \<lparr>repo_Create = mem_Create, repo_Get = mem_Get, repo_Update = mem_Update,
      repo_Delete = mem_Delete, repo_List = mem_List\<rparr>"

lemma mem_ops_simps [simp]:
  "repo_Create mem_ops = mem_Create" "repo_Get mem_ops = mem_Get"
  "repo_Update mem_ops = mem_Update" "repo_Delete mem_ops = mem_Delete"
  "repo_List mem_ops = mem_List"
  by (simp_all add: mem_ops_def)

subsection \<open>Abstraction and invariant\<close>

definition mem_live :: "mem_repo \<Rightarrow> users_map" where
  "mem_live r uid =
     (case map_of (users r) uid of
        None \<Rightarrow> None
      | Some u \<Rightarrow> if DeletedAt u = None then Some u else None)"

definition mem_inv :: "mem_repo \<Rightarrow> bool" where
  "mem_inv r \<longleftrightarrow> distinct (map fst (users r)) \<and> (\<forall>(k, u) \<in> set (users r). ID u = k)"

definition mem_norm :: "go_int \<Rightarrow> go_int \<Rightarrow> int \<times> int" where
  "mem_norm p z = (if sint p \<le> 0 then 1 else sint p, if sint z \<le> 0 then 50 else sint z)"

lemma mem_inv_new [simp]: "mem_inv NewInMemoryUserRepo"
  by (simp add: mem_inv_def NewInMemoryUserRepo_def)

lemma mem_live_new [simp]: "mem_live NewInMemoryUserRepo = Map.empty"
  by (simp add: fun_eq_iff mem_live_def NewInMemoryUserRepo_def)

lemma mem_live_Some:
  "mem_live r uid = Some u \<longleftrightarrow> map_of (users r) uid = Some u \<and> DeletedAt u = None"
  by (auto simp: mem_live_def split: option.splits)

lemma mem_Get_live:
  "mem_Get e r uid = (r, case mem_live r uid of None \<Rightarrow> Err ErrNotFound | Some u \<Rightarrow> Ok u)"
  by (auto simp: mem_Get_def mem_live_def split: option.splits)

lemma mem_inv_ID: "mem_inv r \<Longrightarrow> map_of (users r) uid = Some u \<Longrightarrow> ID u = uid"
  by (auto simp: mem_inv_def dest: map_of_SomeD)

lemma mem_inv_update:
  assumes "mem_inv r" "ID u = k"
  shows "mem_inv (r\<lparr>users := AList.update k u (users r)\<rparr>)"
  using assms set_update_subset [of k u "users r"]
  by (fastforce simp: mem_inv_def AList.distinct_update)

lemma mem_live_update:
  "mem_live (r\<lparr>users := AList.update k u (users r)\<rparr>) =
     (mem_live r)(k := (if DeletedAt u = None then Some u else None))"
  by (auto simp: fun_eq_iff mem_live_def AList.update_conv')

subsection \<open>Listing\<close>

lemma strict_weak_newer: "strict_weak newer"
  by (auto simp: strict_weak_def newer_def)

lemma sorted_newer: "sorted_wrt (\<lambda>a b. \<not> newer b a) us \<longleftrightarrow> sorted_wrt (\<lambda>a b. CreatedAt b \<le> CreatedAt a) us"
  by (simp add: newer_def not_less)

lemma mset_mem_live_list:
  assumes "wf_env e"
  shows "mset (mem_live_list e r) = mset (filter (\<lambda>u. DeletedAt u = None) (map snd (users r)))"
  using wf_env_sort(1) [OF assms strict_weak_newer] wf_env_range [OF assms, of "users r"]
  by (simp add: mem_live_list_def)

lemma mem_inv_distinct_snd: "mem_inv r \<Longrightarrow> distinct (map snd (users r))"
proof -
  assume inv: "mem_inv r"
  then have "distinct (users r)" by (simp add: mem_inv_def distinct_map)
  moreover have "inj_on snd (set (users r))"
  proof (rule inj_onI)
    fix x y assume "x \<in> set (users r)" "y \<in> set (users r)" "snd x = snd y"
    moreover from this inv have "fst x = ID (snd x)" "fst y = ID (snd y)"
      by (auto simp: mem_inv_def)
    ultimately show "x = y" by (simp add: prod_eq_iff)
  qed
  ultimately show ?thesis by (simp add: distinct_map)
qed

lemma listing_mem_live_list:
  assumes "wf_env e" "mem_inv r"
  shows "listing (mem_live r) (mem_live_list e r)"
proof -
  let ?us = "filter (\<lambda>u. DeletedAt u = None) (map snd (users r))"
  note ms = mset_mem_live_list [OF assms(1), of r]
  have "distinct ?us" using mem_inv_distinct_snd [OF assms(2)] by simp
  then have "distinct (mem_live_list e r)" using ms by (metis mset_eq_imp_distinct_iff)
  moreover have "set (mem_live_list e r) = ran (mem_live r)"
  proof -
    have "set (mem_live_list e r) = set ?us" using ms by (rule mset_eq_setD)
    also have "\<dots> = ran (mem_live r)"
      using assms(2) by (force simp: ran_def mem_live_Some mem_inv_def)
    finally show ?thesis .
  qed
  moreover have "sorted_wrt (\<lambda>a b. CreatedAt b \<le> CreatedAt a) (mem_live_list e r)"
    using wf_env_sort(2) [OF assms(1) strict_weak_newer]
    by (simp only: mem_live_list_def sorted_newer)
  ultimately show ?thesis by (simp add: listing_def)
qed

text \<open>
  The page arithmetic on its own: with page \<open>P \<ge> 1\<close>, size \<open>Z \<ge> 1\<close> and \<open>P * Z\<close> inside Go's \<open>int\<close>,
  the start is \<open>(P - 1) * Z\<close> and the slice is the page.
\<close>

definition page_slice :: "'a list \<Rightarrow> go_int \<Rightarrow> go_int \<Rightarrow> 'a list res" where
  "page_slice list page pageSize =
     (let total = of_nat (length list); start = (page - 1) * pageSize in
      if sint total \<le> sint start then Ok []
      else
        let end' = start + pageSize;
            end' = (if sint total < sint end' then total else end')
        in go_slice list start end')"

lemma mem_List_alt:
  "mem_List e r p z =
     (let list = mem_live_list e r; total = of_nat (length list) in
      (r, case page_slice list (if sint p \<le> 0 then 1 else p) (if sint z \<le> 0 then 50 else z) of
            Ok us \<Rightarrow> Ok (us, total) | Err f \<Rightarrow> Err f | Panic q \<Rightarrow> Panic q))"
  unfolding mem_List_def page_slice_def Let_def
  by (simp only: prod.inject if_distrib [where f = "case_res _ _ _"] res.case split: if_split)

lemma take_min_length: "take (min (length xs) n) xs = take n xs"
  by (simp add: min_def)

lemma page_start:
  assumes "1 \<le> sint (P :: go_int)" "1 \<le> sint Z" "sint P * sint Z \<le> max_int"
  shows "sint ((P - 1) * Z) = (sint P - 1) * sint Z"
proof -
  have P: "sint (P - 1) = sint P - 1" using assms(1) by (intro sint_diff1) simp
  have "(sint P - 1) * sint Z \<le> sint P * sint Z" using assms(2) by (intro mult_right_mono) auto
  with assms(3) have "(sint P - 1) * sint Z \<le> max_int" by linarith
  moreover have "0 \<le> (sint P - 1) * sint Z" using assms(1,2) by (intro mult_nonneg_nonneg) auto
  ultimately show ?thesis using sint_mult_small [of "P - 1" Z] by (simp add: P)
qed

lemma page_slice_fits:
  assumes P: "1 \<le> sint P" and Z: "1 \<le> sint Z" and PZ: "sint P * sint Z \<le> max_int"
    and len: "int (length list) \<le> max_int"
  shows "page_slice list P Z = Ok (take (nat (sint Z)) (drop (nat ((sint P - 1) * sint Z)) list))"
proof -
  let ?start = "(P - 1) * Z"
  have start: "sint ?start = (sint P - 1) * sint Z" using P Z PZ by (rule page_start)
  have start0: "0 \<le> sint ?start" unfolding start using P Z by (intro mult_nonneg_nonneg) auto
  have total: "sint (of_nat (length list) :: go_int) = int (length list)"
    using len by (rule sint_of_nat_small)
  have sum: "sint ?start + sint Z = sint P * sint Z"
    by (subst start) (simp add: algebra_simps)
  have end': "sint (?start + Z) = sint ?start + sint Z"
    using start0 Z PZ sum by (intro sint_add_small) linarith+
  show ?thesis
  proof (cases "int (length list) \<le> sint ?start")
    case True
    then have "length list \<le> nat ((sint P - 1) * sint Z)" by (simp add: start)
    with True show ?thesis by (simp add: page_slice_def Let_def total)
  next
    case False
    let ?hi = "if int (length list) < sint ?start + sint Z then of_nat (length list) else ?start + Z"
    have hi: "sint ?hi = min (int (length list)) (sint ?start + sint Z)"
      by (simp add: total end')
    have "page_slice list P Z = go_slice list ?start ?hi"
      using False by (simp add: page_slice_def Let_def total end')
    also have "\<dots> = Ok (take (nat (sint ?hi - sint ?start)) (drop (nat (sint ?start)) list))"
      using False Z start0 by (intro go_slice_ok) (auto simp: hi)
    also have "nat (sint ?hi - sint ?start) =
        min (length (drop (nat (sint ?start)) list)) (nat (sint Z))"
      unfolding hi using start0 Z False by (simp only: length_drop)
    also have "take \<dots> (drop (nat (sint ?start)) list) =
        take (nat (sint Z)) (drop (nat (sint ?start)) list)"
      by (rule take_min_length)
    finally show ?thesis by (simp add: start)
  qed
qed

lemma page_fits_listing:
  assumes "page_fits mem_norm m p z" "listing m us"
  shows "sint (if sint p \<le> 0 then 1 else p) * sint (if sint z \<le> 0 then 50 else z) \<le> max_int"
    "int (length us) \<le> max_int"
  using assms by (simp_all add: page_fits_def mem_norm_def listing_length split: if_splits)

lemma mem_List_fits:
  assumes "wf_env e" "mem_inv r" "page_fits mem_norm (mem_live r) p z"
  shows "mem_List e r p z =
     (r, Ok (case mem_norm p z of (pg, sz) \<Rightarrow>
               take (nat sz) (drop (nat ((pg - 1) * sz)) (mem_live_list e r)),
             of_nat (length (mem_live_list e r))))"
proof -
  note fits = page_fits_listing [OF assms(3) listing_mem_live_list [OF assms(1,2)]]
  let ?P = "if sint p \<le> 0 then 1 else p" and ?Z = "if sint z \<le> 0 then 50 else z"
  have "page_slice (mem_live_list e r) ?P ?Z =
      Ok (take (nat (sint ?Z)) (drop (nat ((sint ?P - 1) * sint ?Z)) (mem_live_list e r)))"
    using fits by (intro page_slice_fits) auto
  moreover have "mem_norm p z = (sint ?P, sint ?Z)" by (simp add: mem_norm_def)
  ultimately show ?thesis by (simp only: mem_List_alt Let_def prod.case res.case)
qed

lemma opaque_duplicate: "opaque (ErrorNew s)"
  by (simp add: opaque_def)

interpretation mem: user_repo mem_ops mem_live mem_inv "\<lambda>u. u" mem_norm
proof (unfold_locales, goal_cases)
  case (5 r i u)
  then show ?case using mem_inv_ID by (auto simp: mem_live_Some)
next
  case (6 e r i)
  then show ?case by (auto simp: mem_Get_def mem_live_def split: option.splits)
next
  case (7 e r i)
  then show ?case by (auto simp: mem_Get_def mem_live_def split: option.splits)
next
  case (8 e r u r' x)
  then show ?case
    using mem_inv_update [OF 8(2), of u "ID u"] mem_live_update [of "ID u" u r]
    by (auto simp: mem_Create_def mem_live_def opaque_duplicate split: option.splits)
next
  case (9 e r u u0 r' x)
  then show ?case
    using mem_inv_update [OF 9(2), of u "ID u"] mem_live_update [of "ID u" u r]
    by (auto simp: mem_Update_def mem_live_Some)
next
  case (10 e r i r' x)
  then show ?case
    using mem_inv_update [OF 10(2), of "(the (map_of (users r) i))\<lparr>DeletedAt := Some (now e)\<rparr>" i]
      mem_live_update [of i _ r] mem_inv_ID [OF 10(2)]
    by (auto simp: mem_Delete_def mem_live_def split: option.splits if_splits)
next
  case (11 e r i)
  then show ?case by (auto simp: mem_Delete_def mem_live_def split: option.splits)
next
  case (12 e r p z)
  then show ?case
    using listing_mem_live_list [of e r]
    by (cases "mem_norm p z") (auto simp: mem_List_fits page_result_def)
next
  case (13 e r p z)
  then show ?case by (simp add: mem_List_alt Let_def)
next
  case (14 e r u r' x)
  then show ?case by (auto simp: mem_Update_def mem_live_def split: option.splits if_splits)
qed simp_all

subsection \<open>Histories\<close>

datatype repo_call =
    CreateCall user
  | GetCall uuid
  | UpdateCall user
  | DeleteCall uuid
  | ListCall go_int go_int

primrec mem_call :: "env \<Rightarrow> mem_repo \<Rightarrow> repo_call \<Rightarrow> mem_repo" where
  "mem_call e r (CreateCall u) = fst (mem_Create e r u)"
| "mem_call e r (GetCall i) = fst (mem_Get e r i)"
| "mem_call e r (UpdateCall u) = fst (mem_Update e r u)"
| "mem_call e r (DeleteCall i) = fst (mem_Delete e r i)"
| "mem_call e r (ListCall p z) = fst (mem_List e r p z)"

fun mem_run :: "mem_repo \<Rightarrow> (env \<times> repo_call) list \<Rightarrow> mem_repo" where
  "mem_run r [] = r"
| "mem_run r ((e, c) # cs) = mem_run (mem_call e r c) cs"

lemma mem_call_inv: "mem_inv r \<Longrightarrow> mem_inv (mem_call e r c)"
  by (cases c)
    (auto simp: mem_Create_def mem_Get_def mem_Update_def mem_Delete_def mem_List_alt Let_def
      mem_inv_update mem_inv_ID split: option.splits)

lemma mem_run_keeps_inv: "mem_inv r \<Longrightarrow> mem_inv (mem_run r cs)"
  by (induction r cs rule: mem_run.induct) (auto simp: mem_call_inv)

lemma mem_call_tombstone:
  assumes "map_of (users r) i = Some u" "DeletedAt u \<noteq> None"
  shows "map_of (users (mem_call e r c)) i = Some u"
  using assms
  by (cases c)
    (auto simp: mem_Create_def mem_Get_def mem_Update_def mem_Delete_def mem_List_alt Let_def
      AList.update_conv' split: option.splits)

text \<open>
  Whatever calls are made, in whatever environments, a store that started empty keeps its
  invariant: no id is stored twice and every user is stored under its own id.
\<close>

theorem mem_run_inv: "mem_inv (mem_run NewInMemoryUserRepo cs)"
  by (rule mem_run_keeps_inv) simp

text \<open>
  C29: Soft deletion is final. Once a stored user carries a deletion time, no later history of calls
  changes that record: lookups, updates and deletions of the id keep answering "not found", and the
  id is never handed out again.
\<close>

theorem mem_deleted_forever:
  assumes "map_of (users r) i = Some u" "DeletedAt u \<noteq> None"
  shows "map_of (users (mem_run r cs)) i = Some u \<and>
    snd (mem_Get e (mem_run r cs) i) = Err ErrNotFound \<and>
    snd (mem_Delete e (mem_run r cs) i) = Err ErrNotFound \<and>
    (\<forall>v. ID v = i \<longrightarrow>
       snd (mem_Update e (mem_run r cs) v) = Err ErrNotFound \<and>
       snd (mem_Create e (mem_run r cs) v) = Err (ErrorNew ''duplicate id''))"
proof -
  have "map_of (users (mem_run r cs)) i = Some u"
    using assms by (induction r cs rule: mem_run.induct) (auto simp: mem_call_tombstone)
  with assms(2) show ?thesis
    by (simp add: mem_Get_def mem_Delete_def mem_Update_def mem_Create_def)
qed

definition alice :: user where
  "alice =
     \<lparr>ID = 1, Name = ''Alice'', Email = ''alice@example.com'', CreatedAt = 10, UpdatedAt = 10,
      DeletedAt = None\<rparr>"

lemma alice_simps [simp]:
  "ID alice = 1" "Name alice = ''Alice''" "Email alice = ''alice@example.com''"
  "CreatedAt alice = 10" "UpdatedAt alice = 10" "DeletedAt alice = None"
  by (simp_all add: alice_def)

theorem mem_deleted_forever_witness:
  "snd (mem_Get sample_env
     (mem_run \<lparr>users = [(1, alice\<lparr>DeletedAt := Some 20\<rparr>)]\<rparr> [(sample_env, CreateCall alice)]) 1) =
   Err ErrNotFound"
  by (rule mem_deleted_forever [where u = "alice\<lparr>DeletedAt := Some 20\<rparr>",
        THEN conjunct2, THEN conjunct1]) simp_all

subsection \<open>Pages\<close>

lemma concat_pages: "concat (map (\<lambda>k. take s (drop (k * s) xs)) [0..<n]) = take (n * s) xs"
proof (induction n)
  case 0
  then show ?case by simp
next
  case (Suc n)
  have "take (n * s) xs @ take s (drop (n * s) xs) = take (n * s + s) xs"
    by (simp add: take_add)
  with Suc show ?case by (simp add: add.commute)
qed



lemma mem_List_negative_start:
  assumes "0 < sint p" "0 < sint z" "sint ((p - 1) * z) < 0"
    and "int (length (mem_live_list e r)) \<le> max_int"
  shows "snd (mem_List e r p z) = Panic ''slice bounds out of range''"
  using assms sint_of_nat_small [OF assms(4)]
  by (simp add: mem_List_alt Let_def page_slice_def go_slice_panic)

end
