(* ===== verification/User_Service.thy ===== *)
theory User_Service
  imports User_Model
begin

text \<open>
  \<open>internal/core/usersvc.go\<close>: the user service over any repository, e-mail normalisation and
  transactions. The contract a service keeps towards its callers (REST handlers, GraphQL resolvers,
  the caching decorator) is the locale \<open>user_service\<close>; the service over a repository that keeps
  \<open>user_repo\<close> keeps it.
\<close>

subsection \<open>The operations\<close>

definition normalizeEmail :: "env \<Rightarrow> string \<Rightarrow> string res" where
  "normalizeEmail e s =
     (let s = trim_space (to_lower (unicode_lower e) s) in
      if s = [] then Err (Wrapf ''email empty'' ErrValidation)
      else if \<not> address_ok e s then Err (Wrapf ''invalid email'' ErrValidation)
      else Ok s)"

definition service_Create ::
  "'r repo_ops \<Rightarrow> env \<Rightarrow> 'r \<Rightarrow> string \<Rightarrow> string \<Rightarrow> 'r \<times> user res" where
  "service_Create repo e r name email =
     (if trim_space name = [] then (r, Err (Wrapf ''name empty'' ErrValidation))
      else case normalizeEmail e email of
        Err f \<Rightarrow> (r, Err f)
      | Panic q \<Rightarrow> (r, Panic q)
      | Ok ne \<Rightarrow>
          let u = \<lparr>ID = fresh_id e, Name = trim_space name, Email = ne,
                   CreatedAt = now e, UpdatedAt = now e, DeletedAt = None\<rparr>
          in case repo_Create repo e r u of
               (r', Ok v) \<Rightarrow> (r', Ok u)
             | (r', Err f) \<Rightarrow> (r', Err f)
             | (r', Panic q) \<Rightarrow> (r', Panic q))"

definition service_Get :: "'r repo_ops \<Rightarrow> env \<Rightarrow> 'r \<Rightarrow> uuid \<Rightarrow> 'r \<times> user res" where
  "service_Get repo e r i = repo_Get repo e r i"

text \<open>
  The fields \<open>Update\<close> sets on the user it read, in the order of the code: the name first, so an empty
  name is reported before an invalid address.
\<close>

definition apply_patch :: "env \<Rightarrow> user \<Rightarrow> string option \<Rightarrow> string option \<Rightarrow> user res" where
  "apply_patch e u name email =
     (case (case name of
              None \<Rightarrow> Ok u
            | Some n \<Rightarrow>
                if trim_space n = [] then Err (Wrapf ''name empty'' ErrValidation)
                else Ok (u\<lparr>Name := trim_space n\<rparr>)) of
        Err f \<Rightarrow> Err f
      | Panic q \<Rightarrow> Panic q
      | Ok u \<Rightarrow>
          (case email of
             None \<Rightarrow> Ok u
           | Some m \<Rightarrow>
               (case normalizeEmail e m of
                  Err f \<Rightarrow> Err f
                | Panic q \<Rightarrow> Panic q
                | Ok ne \<Rightarrow> Ok (u\<lparr>Email := ne\<rparr>))))"

definition service_Update ::
  "'r repo_ops \<Rightarrow> env \<Rightarrow> 'r \<Rightarrow> uuid \<Rightarrow> string option \<Rightarrow> string option \<Rightarrow> 'r \<times> user res" where
  "service_Update repo e r i name email =
     (case repo_Get repo e r i of
        (r, Err f) \<Rightarrow> (r, Err f)
      | (r, Panic q) \<Rightarrow> (r, Panic q)
      | (r, Ok u) \<Rightarrow>
          (case apply_patch e u name email of
             Err f \<Rightarrow> (r, Err f)
           | Panic q \<Rightarrow> (r, Panic q)
           | Ok u \<Rightarrow>
               let u = u\<lparr>UpdatedAt := now e\<rparr>
               in case repo_Update repo e r u of
                    (r', Ok v) \<Rightarrow> (r', Ok u)
                  | (r', Err f) \<Rightarrow> (r', Err f)
                  | (r', Panic q) \<Rightarrow> (r', Panic q)))"

definition service_Delete :: "'r repo_ops \<Rightarrow> env \<Rightarrow> 'r \<Rightarrow> uuid \<Rightarrow> 'r \<times> unit res" where
  "service_Delete repo e r i = repo_Delete repo e r i"

definition service_List ::
  "'r repo_ops \<Rightarrow> env \<Rightarrow> 'r \<Rightarrow> go_int \<Rightarrow> go_int \<Rightarrow> 'r \<times> (user list \<times> go_int) res" where
  "service_List repo e r page pageSize = repo_List repo e r page pageSize"

text \<open>
  \<open>WithTx\<close>. The type assertion \<open>s.repo.(TxStarter)\<close> succeeds when the repository brings transactions.
  The deferred rollback runs on every exit but a successful commit: when \<open>fn\<close> fails, when it
  panics (and the panic goes on), and when the commit itself fails.
\<close>

definition service_WithTx ::
  "('r, 't) tx_ops option \<Rightarrow> env \<Rightarrow> 'r \<Rightarrow> 't tx_fn \<Rightarrow> 'r \<times> unit res" where
  "service_WithTx starter e r fn =
     (case starter of
        None \<Rightarrow> (r, Err (ErrorNew ''transactions not supported''))
      | Some tx \<Rightarrow>
          (case tx_Begin tx e r of
             (r, Err f) \<Rightarrow> (r, Err f)
           | (r, Panic q) \<Rightarrow> (r, Panic q)
           | (r, Ok uow) \<Rightarrow>
               (case fn e (tx_UserRepo tx) uow of
                  (uow, Err f) \<Rightarrow> (fst (tx_Rollback tx e r uow), Err f)
                | (uow, Panic q) \<Rightarrow> (fst (tx_Rollback tx e r uow), Panic q)
                | (uow, Ok v) \<Rightarrow>
                    (case tx_Commit tx e r uow of
                       (r, Ok v) \<Rightarrow> (r, Ok ())
                     | (r, Err f) \<Rightarrow> (fst (tx_Rollback tx e r uow), Err f)
                     | (r, Panic q) \<Rightarrow> (fst (tx_Rollback tx e r uow), Panic q)))))"

text \<open>\<open>NewUserService\<close>: the service over a repository, as a \<open>UserService\<close>.\<close>

definition NewUserService :: "'r repo_ops \<Rightarrow> ('r, 't) tx_ops option \<Rightarrow> ('r, 't) svc_ops" where
  "NewUserService repo starter =
     \<lparr>svc_Create = service_Create repo, svc_Get = service_Get repo,
      svc_Update = service_Update repo, svc_Delete = service_Delete repo,
      svc_List = service_List repo, svc_WithTx = service_WithTx starter\<rparr>"

lemma NewUserService_simps [simp]:
  "svc_Create (NewUserService repo starter) = service_Create repo"
  "svc_Get (NewUserService repo starter) = service_Get repo"
  "svc_Update (NewUserService repo starter) = service_Update repo"
  "svc_Delete (NewUserService repo starter) = service_Delete repo"
  "svc_List (NewUserService repo starter) = service_List repo"
  "svc_WithTx (NewUserService repo starter) = service_WithTx starter"
  by (simp_all add: NewUserService_def)

lemmas service_defs [svc_defs] =
  service_Create_def service_Get_def service_Update_def service_Delete_def service_List_def

subsection \<open>Normalisation\<close>

text \<open>The errors a validation step can give, which the HTTP layer answers with 400.\<close>

definition validation_error :: "gerr \<Rightarrow> bool" where
  "validation_error f \<longleftrightarrow> HTTPStatus f = 400"

lemma validation_error_Wrapf [simp]: "validation_error (Wrapf s ErrValidation)"
  by (simp add: validation_error_def HTTPStatus_def)

lemma not_opaque_validation: "opaque f \<Longrightarrow> \<not> validation_error f"
  by (simp add: validation_error_def HTTPStatus_opaque)

lemma normalizeEmail_cases:
  obtains (ok) ne where "normalizeEmail e s = Ok ne" "ne \<noteq> []" "address_ok e ne" "trim_space ne = ne"
  | (err) f where "normalizeEmail e s = Err f" "validation_error f"
  by (cases "normalizeEmail e s") (auto simp: normalizeEmail_def Let_def split: if_splits)

lemma normalizeEmail_Ok:
  assumes "normalizeEmail e s = Ok ne"
  shows "ne \<noteq> []" "address_ok e ne" "trim_space ne = ne"
    "ne = trim_space (to_lower (unicode_lower e) s)"
  using assms by (auto simp: normalizeEmail_def Let_def split: if_splits)

lemma normalizeEmail_Err: "normalizeEmail e s = Err f \<Longrightarrow> validation_error f"
  by (auto simp: normalizeEmail_def Let_def split: if_splits)

lemma normalizeEmail_no_panic [simp]: "normalizeEmail e s \<noteq> Panic q"
  by (simp add: normalizeEmail_def Let_def)

lemma apply_patch_Ok:
  assumes "apply_patch e u name email = Ok v"
  shows "ID v = ID u" "CreatedAt v = CreatedAt u" "UpdatedAt v = UpdatedAt u"
    "DeletedAt v = DeletedAt u"
    "Name v = (case name of None \<Rightarrow> Name u | Some n \<Rightarrow> trim_space n)"
    "Email v = (case email of None \<Rightarrow> Email u
                | Some m \<Rightarrow> trim_space (to_lower (unicode_lower e) m))"
  using assms
  by (auto simp: apply_patch_def dest!: normalizeEmail_Ok(4)
      split: option.splits res.splits if_splits)

lemma apply_patch_Err: "apply_patch e u name email = Err f \<Longrightarrow> validation_error f"
  by (auto simp: apply_patch_def dest: normalizeEmail_Err split: option.splits res.splits if_splits)

lemma apply_patch_no_panic [simp]: "apply_patch e u name email \<noteq> Panic q"
  by (auto simp: apply_patch_def split: option.splits res.splits)

subsection \<open>The contract of a user service\<close>

definition create_input_ok :: "env \<Rightarrow> string \<Rightarrow> string \<Rightarrow> bool" where
  "create_input_ok e name email \<longleftrightarrow>
     trim_space name \<noteq> [] \<and> is_ok (normalizeEmail e email)"

text \<open>The user \<open>Create\<close> makes of valid input, and what \<open>Update\<close> makes of a live user.\<close>

definition created_user :: "env \<Rightarrow> string \<Rightarrow> string \<Rightarrow> user" where
  "created_user e name email =
     \<lparr>ID = fresh_id e, Name = trim_space name,
      Email = trim_space (to_lower (unicode_lower e) email),
      CreatedAt = now e, UpdatedAt = now e, DeletedAt = None\<rparr>"

definition updated_user :: "env \<Rightarrow> user \<Rightarrow> string option \<Rightarrow> string option \<Rightarrow> user" where
  "updated_user e u name email =
     u\<lparr>Name := (case name of None \<Rightarrow> Name u | Some n \<Rightarrow> trim_space n),
       Email := (case email of None \<Rightarrow> Email u
                 | Some m \<Rightarrow> trim_space (to_lower (unicode_lower e) m)),
       UpdatedAt := now e\<rparr>"

text \<open>
  \<open>live\<close> abstracts the state to the map of live users, \<open>stored\<close> is the precision the store keeps of a
  user it is given, \<open>repr w u\<close> says that \<open>w\<close> is a faithful answer for the stored user \<open>u\<close> (equal to it
  without a cache, its JSON image with one), and \<open>room\<close> is the side condition of the operations that
  change users (a version counter that does not wrap; nothing without a cache).
\<close>

locale user_service =
  fixes ops :: "('s, 't) svc_ops"
    and live :: "'s \<Rightarrow> users_map"
    and inv :: "'s \<Rightarrow> bool"
    and stored :: "user \<Rightarrow> user"
    and norm :: "go_int \<Rightarrow> go_int \<Rightarrow> int \<times> int"
    and repr :: "user \<Rightarrow> user \<Rightarrow> bool"
    and room :: "'s \<Rightarrow> bool"
  assumes stored_fields:
      "ID (stored u) = ID u" "Name (stored u) = Name u" "Email (stored u) = Email u"
      "DeletedAt (stored u) = DeletedAt u"
    and live_wf:
      "inv s \<Longrightarrow> live s i = Some u \<Longrightarrow> ID u = i \<and> DeletedAt u = None \<and> stored u = u"
    and create:
      "wf_env e \<Longrightarrow> room s \<Longrightarrow> inv s \<Longrightarrow> svc_Create ops e s name email = (s', x) \<Longrightarrow>
       (case x of
          Ok u \<Rightarrow>
            create_input_ok e name email \<and> u = created_user e name email \<and> live s (ID u) = None \<and>
            inv s' \<and> live s' = (live s)(ID u \<mapsto> stored u)
        | Err f \<Rightarrow>
            inv s' \<and> live s' = live s \<and>
            (if create_input_ok e name email then opaque f else validation_error f)
        | Panic q \<Rightarrow> False)"
    and get:
      "wf_env e \<Longrightarrow> inv s \<Longrightarrow> svc_Get ops e s i = (s', x) \<Longrightarrow>
       inv s' \<and> live s' = live s \<and>
       (case x of
          Ok u \<Rightarrow> (\<exists>u0. live s i = Some u0 \<and> repr u u0)
        | Err f \<Rightarrow> f = ErrNotFound \<and> live s i = None \<or> opaque f
        | Panic q \<Rightarrow> False)"
    and get_calm:
      "wf_env e \<Longrightarrow> calm e \<Longrightarrow> inv s \<Longrightarrow>
       (case live s i of
          None \<Rightarrow> snd (svc_Get ops e s i) = Err ErrNotFound
        | Some u \<Rightarrow> is_ok (snd (svc_Get ops e s i)))"
    and update:
      "wf_env e \<Longrightarrow> room s \<Longrightarrow> inv s \<Longrightarrow> svc_Update ops e s i nm em = (s', x) \<Longrightarrow>
       (case x of
          Ok u \<Rightarrow>
            (\<exists>u0. live s i = Some u0 \<and> u = updated_user e u0 nm em) \<and>
            inv s' \<and> live s' = (live s)(i \<mapsto> stored u)
        | Err f \<Rightarrow>
            inv s' \<and> live s' = live s \<and>
            (f = ErrNotFound \<and> live s i = None \<or> validation_error f \<or> opaque f)
        | Panic q \<Rightarrow> False)"
    and delete:
      "wf_env e \<Longrightarrow> room s \<Longrightarrow> inv s \<Longrightarrow> svc_Delete ops e s i = (s', y) \<Longrightarrow>
       (case y of
          Ok v \<Rightarrow> live s i \<noteq> None \<and> inv s' \<and> live s' = (live s)(i := None)
        | Err f \<Rightarrow>
            inv s' \<and> live s' = live s \<and> (f = ErrNotFound \<and> live s i = None \<or> opaque f)
        | Panic q \<Rightarrow> False)"
    and delete_calm:
      "wf_env e \<Longrightarrow> calm e \<Longrightarrow> inv s \<Longrightarrow>
       snd (svc_Delete ops e s i) = (case live s i of None \<Rightarrow> Err ErrNotFound | Some u \<Rightarrow> Ok ())"
    and listed:
      "wf_env e \<Longrightarrow> inv s \<Longrightarrow> page_fits norm (live s) p z \<Longrightarrow> svc_List ops e s p z = (s', l) \<Longrightarrow>
       (case l of
          Ok v \<Rightarrow> \<exists>us. list_all2 repr (fst v) us \<and> page_result norm (live s) p z us (snd v)
        | Err f \<Rightarrow> opaque f
        | Panic q \<Rightarrow> False)"
    and list_state:
      "wf_env e \<Longrightarrow> inv s \<Longrightarrow> svc_List ops e s p z = (s', l) \<Longrightarrow> inv s' \<and> live s' = live s"
    and repr_ID: "repr w u \<Longrightarrow> ID w = ID u"

text \<open>A call of the service and its answer, for histories of calls.\<close>

datatype svc_call =
    CreateUser string string
  | GetUser uuid
  | UpdateUser uuid "string option" "string option"
  | DeleteUser uuid
  | ListUsers go_int go_int

datatype svc_answer =
    AnUser "user res"
  | Done "unit res"
  | APage "(user list \<times> go_int) res"

fun svc_step :: "('s, 't) svc_ops \<Rightarrow> env \<Rightarrow> svc_call \<Rightarrow> 's \<Rightarrow> 's \<times> svc_answer" where
  "svc_step ops e (CreateUser n m) s = map_prod (\<lambda>s. s) AnUser (svc_Create ops e s n m)"
| "svc_step ops e (GetUser i) s = map_prod (\<lambda>s. s) AnUser (svc_Get ops e s i)"
| "svc_step ops e (UpdateUser i n m) s = map_prod (\<lambda>s. s) AnUser (svc_Update ops e s i n m)"
| "svc_step ops e (DeleteUser i) s = map_prod (\<lambda>s. s) Done (svc_Delete ops e s i)"
| "svc_step ops e (ListUsers p z) s = map_prod (\<lambda>s. s) APage (svc_List ops e s p z)"

fun svc_run :: "('s, 't) svc_ops \<Rightarrow> 's \<Rightarrow> (env \<times> svc_call) list \<Rightarrow> 's \<times> svc_answer list" where
  "svc_run ops s [] = (s, [])"
| "svc_run ops s ((e, c) # cs) =
     (case svc_step ops e c s of (s, a) \<Rightarrow>
        (case svc_run ops s cs of (s, as) \<Rightarrow> (s, a # as)))"

text \<open>What the callers of a service use.\<close>

context user_service
begin

lemma updated_ID: "inv s \<Longrightarrow> live s i = Some u \<Longrightarrow> ID (updated_user e u name email) = i"
  using live_wf by (simp add: updated_user_def)

text \<open>
  No operation answers with a conflict: the 409 branch of \<open>HTTPStatus\<close> is never taken.
\<close>

lemma no_conflict:
  "wf_env e \<Longrightarrow> room s \<Longrightarrow> inv s \<Longrightarrow> svc_Create ops e s name email = (s', Err f) \<Longrightarrow>
   HTTPStatus f \<noteq> 409"
  using create [of e s name email s' "Err f"]
  by (auto simp: validation_error_def HTTPStatus_opaque split: if_splits)

lemma step_inv:
  assumes "wf_env e" "room s" "inv s" "svc_step ops e c s = (s', a)"
  shows "inv s'"
proof (cases c)
  case (CreateUser n m)
  then obtain x where "svc_Create ops e s n m = (s', x)"
    using assms(4) by (cases "svc_Create ops e s n m") auto
  from create [OF assms(1-3) this] show ?thesis by (simp split: res.splits)
next
  case (GetUser i)
  then obtain x where "svc_Get ops e s i = (s', x)"
    using assms(4) by (cases "svc_Get ops e s i") auto
  from get [OF assms(1,3) this] show ?thesis by simp
next
  case (UpdateUser i n m)
  then obtain x where "svc_Update ops e s i n m = (s', x)"
    using assms(4) by (cases "svc_Update ops e s i n m") auto
  from update [OF assms(1-3) this] show ?thesis by (simp split: res.splits)
next
  case (DeleteUser i)
  then obtain x where "svc_Delete ops e s i = (s', x)"
    using assms(4) by (cases "svc_Delete ops e s i") auto
  from delete [OF assms(1-3) this] show ?thesis by (simp split: res.splits)
next
  case (ListUsers p z)
  then obtain x where "svc_List ops e s p z = (s', x)"
    using assms(4) by (cases "svc_List ops e s p z") auto
  from list_state [OF assms(1,3) this] show ?thesis by simp
qed

lemma get_after_create:
  assumes "wf_env e" "room s" "inv s" "svc_Create ops e s name email = (s', Ok u)"
    and "wf_env e'" "calm e'"
  obtains s'' w where "svc_Get ops e' s' (ID u) = (s'', Ok w)" "repr w (stored u)"
proof -
  from create [OF assms(1-4)] have inv': "inv s'" and live': "live s' (ID u) = Some (stored u)"
    by auto
  obtain s'' x where x: "svc_Get ops e' s' (ID u) = (s'', x)" by fastforce
  with get_calm [OF assms(5,6) inv', of "ID u"] live' obtain w where "x = Ok w"
    by (auto elim: is_okE)
  with get [OF assms(5) inv' x] live' x show ?thesis by (auto intro: that)
qed

lemma get_after_delete:
  assumes "wf_env e" "room s" "inv s" "svc_Delete ops e s i = (s', Ok v)" "wf_env e'" "calm e'"
  shows "snd (svc_Get ops e' s' i) = Err ErrNotFound"
  using delete [OF assms(1-4)] get_calm [OF assms(5,6), of s' i] by simp

end

subsection \<open>The service over a repository keeps the contract\<close>

context user_repo
begin

lemma service_create:
  assumes "wf_env e" "inv r" "service_Create ops e r name email = (r', x)"
  shows "case x of
          Ok u \<Rightarrow>
            create_input_ok e name email \<and> u = created_user e name email \<and> live r (ID u) = None \<and>
            inv r' \<and> live r' = (live r)(ID u \<mapsto> stored u)
        | Err f \<Rightarrow>
            inv r' \<and> live r' = live r \<and>
            (if create_input_ok e name email then opaque f else validation_error f)
        | Panic q \<Rightarrow> False"
proof (cases "trim_space name = []")
  case True
  with assms show ?thesis by (auto simp: service_Create_def create_input_ok_def)
next
  case False
  show ?thesis
  proof (cases "normalizeEmail e email")
    case (Ok ne)
    then have u: "\<lparr>ID = fresh_id e, Name = trim_space name, Email = ne,
        CreatedAt = now e, UpdatedAt = now e, DeletedAt = None\<rparr> = created_user e name email"
      by (simp add: created_user_def normalizeEmail_Ok(4))
    obtain y where "repo_Create ops e r (created_user e name email) = (r', y)"
        and x: "x = (case y of Ok v \<Rightarrow> Ok (created_user e name email) | Err f \<Rightarrow> Err f
                     | Panic q \<Rightarrow> Panic q)"
      using assms(3) False Ok by (auto simp: service_Create_def u Let_def split: prod.splits res.splits)
    moreover from this(1) assms(1,2) have "case y of
          Ok v \<Rightarrow> live r (ID (created_user e name email)) = None \<and> inv r' \<and>
            live r' = (live r)(ID (created_user e name email) \<mapsto> stored (created_user e name email))
        | Err f \<Rightarrow> r' = r \<and> opaque f
        | Panic q \<Rightarrow> False"
      by (intro create) (auto simp: created_user_def)
    ultimately show ?thesis
      using False Ok assms(2) by (cases y) (auto simp: create_input_ok_def)
  next
    case (Err f)
    with False assms show ?thesis
      by (auto simp: service_Create_def create_input_ok_def normalizeEmail_Err)
  next
    case (Panic q)
    then show ?thesis by simp
  qed
qed

lemma get_cases:
  assumes "wf_env e" "inv r"
  obtains (ok) u where "repo_Get ops e r i = (r, Ok u)" "live r i = Some u"
  | (err) f where "repo_Get ops e r i = (r, Err f)" "f = ErrNotFound \<and> live r i = None \<or> opaque f"
  using get [OF assms, of i] by (cases "repo_Get ops e r i"; cases "snd (repo_Get ops e r i)") auto

lemma apply_patch_updated:
  "apply_patch e u name email = Ok v \<Longrightarrow> v\<lparr>UpdatedAt := t\<rparr> =
     (updated_user e u name email)\<lparr>UpdatedAt := t\<rparr>"
  using apply_patch_Ok [of e u name email v] by (simp add: updated_user_def split: option.splits)

lemma service_update:
  assumes "wf_env e" "inv r" "service_Update ops e r i name email = (r', x)"
  shows "case x of
          Ok u \<Rightarrow>
            (\<exists>u0. live r i = Some u0 \<and> u = updated_user e u0 name email) \<and>
            inv r' \<and> live r' = (live r)(i \<mapsto> stored u)
        | Err f \<Rightarrow>
            inv r' \<and> live r' = live r \<and>
            (f = ErrNotFound \<and> live r i = None \<or> validation_error f \<or> opaque f)
        | Panic q \<Rightarrow> False"
  using assms(1,2)
proof (cases rule: get_cases [where i = i])
  case (err f)
  with assms show ?thesis by (auto simp: service_Update_def)
next
  case (ok u)
  show ?thesis
  proof (cases "apply_patch e u name email")
    case (Ok v)
    let ?w = "updated_user e u name email"
    have w: "v\<lparr>UpdatedAt := now e\<rparr> = ?w"
      using apply_patch_updated [OF Ok, of "now e"] by (simp add: updated_user_def)
    have wf: "ID u = i" "DeletedAt u = None" using live_wf [OF assms(2) ok(2)] by auto
    obtain y where y: "repo_Update ops e r ?w = (r', y)"
        and x: "x = (case y of Ok v \<Rightarrow> Ok ?w | Err f \<Rightarrow> Err f | Panic q \<Rightarrow> Panic q)"
      using assms(3) by (auto simp: service_Update_def ok Ok w Let_def split: prod.splits res.splits)
    have "case y of Ok v \<Rightarrow> inv r' \<and> live r' = (live r)(ID ?w \<mapsto> stored ?w)
        | Err f \<Rightarrow> r' = r \<and> opaque f | Panic q \<Rightarrow> False"
      using wf ok(2) by (intro update [OF assms(1,2) _ _ _ y, of u]) (auto simp: updated_user_def)
    moreover have "ID ?w = i" using wf by (simp add: updated_user_def)
    ultimately show ?thesis using x ok(2) assms(2) by (cases y) auto
  next
    case (Err f)
    have "x = Err f" "r' = r" using assms(3) ok(1) Err by (simp_all add: service_Update_def)
    with apply_patch_Err [OF Err] assms(2) show ?thesis by simp
  next
    case (Panic q)
    then show ?thesis by simp
  qed
qed

lemma service_contract:
  "user_service (NewUserService ops starter) live inv stored norm (=) (\<lambda>r. True)"
proof (unfold_locales, goal_cases)
  case (6 e s name email s' x)
  then show ?case using service_create [of e s name email s' x] by simp
next
  case (7 e s i s' x)
  then show ?case
    using get [of e s i] live_wf [of s i] by (auto simp: service_Get_def split: res.splits)
next
  case (8 e s i)
  then show ?case using get_calm [of e s i] by (auto simp: service_Get_def split: option.splits)
next
  case (9 e s i name email s' x)
  then show ?case using service_update [of e s i name email s' x] by simp
next
  case (10 e s i s' x)
  then show ?case using delete [of e s i s' x] by (auto simp: service_Delete_def split: res.splits)
next
  case (11 e s i)
  then show ?case by (simp add: service_Delete_def delete_calm)
next
  case (12 e s p z s' x)
  then show ?case using listed [of e s p z] by (auto simp: service_List_def list.rel_eq split: res.splits)
next
  case (13 e s p z s' x)
  then show ?case using list_state [of e s p z] by (simp add: service_List_def)
qed (simp_all add: stored_fields live_wf)

end

subsection \<open>Properties\<close>

text \<open>
  Normalising a normalised ASCII address changes nothing: what the store holds is a fixed point
  of the normalisation, so looking a user up by the stored address cannot miss through case or
  surrounding white space.
\<close>

lemma normalizeEmail_idem:
  assumes "is_ascii s" "normalizeEmail e s = Ok ne"
  shows "normalizeEmail e ne = Ok ne"
proof -
  have ne: "ne = trim_space (to_lower (unicode_lower e) s)" using assms(2) by (rule normalizeEmail_Ok)
  have "to_lower (unicode_lower e) ne = ne"
    by (rule to_lower_fixed [OF assms(1)]) (simp add: ne trim_space_sublist)
  then show ?thesis
    using normalizeEmail_Ok [OF assms(2)] by (simp add: normalizeEmail_def)
qed

lemma normalizeEmail_example: "normalizeEmail sample_env '' Bob@X.com '' = Ok ''bob@x.com''"
  by code_simp

definition patch_ok :: "env \<Rightarrow> string option \<Rightarrow> string option \<Rightarrow> bool" where
  "patch_ok e name email \<longleftrightarrow>
     (case name of None \<Rightarrow> True | Some n \<Rightarrow> trim_space n \<noteq> []) \<and>
     (case email of None \<Rightarrow> True | Some m \<Rightarrow> is_ok (normalizeEmail e m))"

lemma apply_patch_ok_iff: "is_ok (apply_patch e u name email) \<longleftrightarrow> patch_ok e name email"
  by (auto simp: apply_patch_def patch_ok_def split: option.splits res.splits)

text \<open>
  A rejected request changes nothing and says why: with an empty name, or an address that
  does not normalise, \<open>Create\<close> leaves the repository alone and answers with a validation error
  (HTTP 400), and so does \<open>Update\<close> of an existing user when one of the fields it is given is invalid,
  even if the other is valid. This holds for any repository.
\<close>

theorem invalid_input_rejected:
  assumes "\<not> create_input_ok e name email"
    and "repo_Get repo e r i = (r, Ok u)" "\<not> patch_ok e pname pemail"
  shows "(\<exists>f. service_Create repo e r name email = (r, Err f) \<and> HTTPStatus f = 400) \<and>
    (\<exists>f. service_Update repo e r i pname pemail = (r, Err f) \<and> HTTPStatus f = 400)"
proof
  show "\<exists>f. service_Create repo e r name email = (r, Err f) \<and> HTTPStatus f = 400"
    using assms(1) normalizeEmail_Err [of e email]
    by (cases "normalizeEmail e email")
      (auto simp: service_Create_def create_input_ok_def validation_error_def HTTPStatus_def)
next
  from assms(3) have "\<not> is_ok (apply_patch e u pname pemail)" by (simp add: apply_patch_ok_iff)
  then obtain f where "apply_patch e u pname pemail = Err f"
    by (cases rule: not_ok_cases) simp_all
  with apply_patch_Err [OF this] assms(2)
  show "\<exists>f. service_Update repo e r i pname pemail = (r, Err f) \<and> HTTPStatus f = 400"
    by (simp add: service_Update_def validation_error_def)
qed

end
