(* ===== verification/Mem_Service.thy ===== *)
theory Mem_Service
  imports Mem_Repo User_Service
begin

text \<open>
  The user service over the in-memory repository, as \<open>cmd/server/main.go\<close> builds it with
  \<open>INMEMORY=1\<close>: the service contract for it, and what a caller sees of a create, an update and a
  deletion.
\<close>

abbreviation mem_service :: "(mem_repo, unit) svc_ops" where
  "mem_service \<equiv> NewUserService mem_ops None"

interpretation mem_svc: user_service mem_service mem_live mem_inv "\<lambda>u. u" mem_norm "(=)" "\<lambda>r. True"
  by (rule user_repo.service_contract [OF mem.user_repo_axioms])

text \<open>
  C1: The service over any repository that keeps the repository contract keeps the service contract:
  every operation is its counterpart on the finite map of live users, on the success and on every
  error path, and none panics on arguments whose page arithmetic stays inside \<open>int\<close>.
\<close>

theorem service_refines:
  assumes "user_repo repo live good stored norm"
  shows "user_service (NewUserService repo starter) live good stored norm (=) (\<lambda>r. True)"
  using assms by (rule user_repo.service_contract)

theorem service_refines_witness:
  "user_service (NewUserService mem_ops None) mem_live mem_inv (\<lambda>u. u) mem_norm
     (=) (\<lambda>r. True)"
  by (rule service_refines [OF mem.user_repo_axioms])

theorem invalid_input_rejected_witness:
  "\<exists>f. service_Update mem_ops sample_env \<lparr>users = [(1, alice)]\<rparr> 1 (Some ''Al'') (Some '' '') =
     (\<lparr>users = [(1, alice)]\<rparr>, Err f) \<and> HTTPStatus f = 400"
proof -
  have blank: "trim_space '' '' = []"
    by (simp add: trim_space_def trim_right_def trim_left.simps strip_one_def space_runes_def)
  have a: "\<not> create_input_ok sample_env [] []" by (simp add: create_input_ok_def)
  have b: "\<not> patch_ok sample_env (Some ''Al'') (Some '' '')"
    by (simp add: patch_ok_def normalizeEmail_def to_lower_def is_ascii_def ascii_lower_def blank)
  have c: "repo_Get mem_ops sample_env \<lparr>users = [(1, alice)]\<rparr> 1 =
      (\<lparr>users = [(1, alice)]\<rparr>, Ok alice)"
    by (simp add: mem_Get_def)
  show ?thesis using invalid_input_rejected [OF a c b] by (rule conjunct2)
qed

text \<open>
  A user created over HTTP or GraphQL can be read back as it was answered, is the only change,
  and carries the trimmed name, the normalised address and the creation time; after a deletion the
  same lookup answers "not found" (404).
\<close>

theorem mem_create_get_delete:
  assumes "wf_env e" "wf_env e'" "wf_env e''" "mem_inv r"
    and "service_Create mem_ops e r name email = (r', Ok u)"
    and "service_Delete mem_ops e' r' (ID u) = (r'', Ok ())"
  shows "service_Get mem_ops e' r' (ID u) = (r', Ok u) \<and>
    Name u = trim_space name \<and> Email u = trim_space (to_lower (unicode_lower e) email) \<and>
    CreatedAt u = now e \<and> UpdatedAt u = now e \<and>
    mem_live r' = (mem_live r)(ID u \<mapsto> u) \<and>
    mem_live r'' = mem_live r \<and>
    service_Get mem_ops e'' r'' (ID u) = (r'', Err ErrNotFound)"
proof -
  note c = mem_svc.create [OF assms(1) TrueI assms(4), of name email r' "Ok u",
      unfolded NewUserService_simps res.case, OF assms(5)]
  have u: "u = created_user e name email" and fresh: "mem_live r (ID u) = None"
    and inv': "mem_inv r'" and live': "mem_live r' = (mem_live r)(ID u \<mapsto> u)"
    using c by blast+
  have live'': "mem_live r'' = (mem_live r')(ID u := None)" and inv'': "mem_inv r''"
    using mem_svc.delete [OF assms(2) TrueI inv', of "ID u" r'' "Ok ()"] assms(6) by simp_all
  have "mem_live r'' = mem_live r" using fresh live' live'' by (simp add: fun_eq_iff)
  moreover have "service_Get mem_ops e' r' (ID u) = (r', Ok u)"
    using live' by (simp add: service_Get_def mem_Get_live)
  moreover have "service_Get mem_ops e'' r'' (ID u) = (r'', Err ErrNotFound)"
    using live'' by (simp add: service_Get_def mem_Get_live)
  ultimately show ?thesis using u live' by (simp add: created_user_def)
qed

theorem mem_create_get_delete_witness:
  "service_Get mem_ops sample_env \<lparr>users = [(7, created_user sample_env ''Bob'' '' Bob@X.com '')]\<rparr> 7 =
     (\<lparr>users = [(7, created_user sample_env ''Bob'' '' Bob@X.com '')]\<rparr>,
      Ok (created_user sample_env ''Bob'' '' Bob@X.com ''))"
proof -
  let ?bob = "created_user sample_env ''Bob'' '' Bob@X.com ''"
  let ?gone = "\<lparr>users = [(7, ?bob\<lparr>DeletedAt := Some 1000\<rparr>)]\<rparr>"
  have id: "ID ?bob = 7" "DeletedAt ?bob = None" by (simp_all add: created_user_def)
  have c: "service_Create mem_ops sample_env NewInMemoryUserRepo ''Bob'' '' Bob@X.com '' =
      (\<lparr>users = [(7, ?bob)]\<rparr>, Ok ?bob)"
    by code_simp
  have d: "service_Delete mem_ops sample_env \<lparr>users = [(7, ?bob)]\<rparr> (ID ?bob) = (?gone, Ok ())"
    by (simp add: service_Delete_def mem_Delete_def id)
  show ?thesis
    using mem_create_get_delete [OF wf_sample_env wf_sample_env wf_sample_env mem_inv_new c d]
    by (simp only: id)
qed

end
