(* ===== verification/Layered_Cache.thy ===== *)
theory Layered_Cache
  imports Go_Strings
begin

text \<open>
  \<open>internal/cache/cache.go\<close>: the two-level cache. The in-process cache (Ristretto) and Redis are
  third-party: their operations are parameters, and what the code relies on is stated as the
  locales \<open>local_store\<close> and \<open>redis_store\<close>: a lossy store may forget any entry at any time (eviction, a
  dropped write, expiry) but never invents one, and a write or deletion replaces what was there.
  A \<open>[]byte\<close> is an optional byte string, \<open>None\<close> being the nil slice.
\<close>

type_synonym go_bytes = "string option"

text \<open>What is left of a nil slice after it went through Redis: the empty string.\<close>

definition wire :: "go_bytes \<Rightarrow> string" where
  "wire v = (case v of None \<Rightarrow> [] | Some b \<Rightarrow> b)"

record 'l local_ops =
  local_Get :: "'l \<Rightarrow> string \<Rightarrow> 'l \<times> go_bytes option"
  local_Set :: "'l \<Rightarrow> string \<Rightarrow> go_bytes \<Rightarrow> 'l"
  local_Del :: "'l \<Rightarrow> string \<Rightarrow> 'l"

text \<open>Redis commands answer or fail; a missing key is an error too (\<open>redis.Nil\<close>).\<close>

record 'd redis_ops =
  redis_Get :: "'d \<Rightarrow> string \<Rightarrow> 'd \<times> (gerr + string)"
  redis_Set :: "'d \<Rightarrow> string \<Rightarrow> string \<Rightarrow> int \<Rightarrow> 'd \<times> gerr option"
  redis_Del :: "'d \<Rightarrow> string \<Rightarrow> 'd \<times> gerr option"

record ('l, 'd) layered =
  local :: 'l
  redis :: "'d option"
  ttl :: int

text \<open>
  \<open>cache.New\<close>: the constructor of the in-process cache (number of counters, maximal cost, buffer
  items) may refuse its configuration.
\<close>

record 'd cache_options =
  MaxCost :: go_int
  NumCounters :: go_int
  BufferItems :: go_int
  TTL :: int
  RedisClient :: "'d option"

definition cache_New ::
  "(go_int \<Rightarrow> go_int \<Rightarrow> go_int \<Rightarrow> gerr + 'l) \<Rightarrow> 'd cache_options \<Rightarrow> ('l, 'd) layered res" where
  "cache_New newCache opts =
     (case newCache (NumCounters opts) (MaxCost opts) (BufferItems opts) of
        Inl f \<Rightarrow> Err f
      | Inr c \<Rightarrow> Ok \<lparr>local = c, redis = RedisClient opts, ttl = TTL opts\<rparr>)"

text \<open>
  \<open>Layered.Get\<close>: a non-nil local value wins; otherwise Redis is asked, if there is one, and what
  it returns is kept locally. Its third result, the error, is always nil.
\<close>

definition layered_Get ::
  "'l local_ops \<Rightarrow> 'd redis_ops \<Rightarrow> ('l, 'd) layered \<Rightarrow> string \<Rightarrow> ('l, 'd) layered \<times> string option"
where
  "layered_Get lops rops c key =
     (case local_Get lops (local c) key of
        (l, Some (Some b)) \<Rightarrow> (c\<lparr>local := l\<rparr>, Some b)
      | (l, v) \<Rightarrow>
          (case redis c of
             None \<Rightarrow> (c\<lparr>local := l\<rparr>, None)
           | Some d \<Rightarrow>
               (case redis_Get rops d key of
                  (d, Inr res) \<Rightarrow>
                    (c\<lparr>local := local_Set lops l key (Some res), redis := Some d\<rparr>, Some res)
                | (d, Inl f) \<Rightarrow> (c\<lparr>local := l, redis := Some d\<rparr>, None))))"

definition layered_Set ::
  "'l local_ops \<Rightarrow> 'd redis_ops \<Rightarrow> ('l, 'd) layered \<Rightarrow> string \<Rightarrow> go_bytes \<Rightarrow> ('l, 'd) layered"
where
  "layered_Set lops rops c key val =
     (let c = c\<lparr>local := local_Set lops (local c) key val\<rparr> in
      case redis c of
        None \<Rightarrow> c
      | Some d \<Rightarrow> c\<lparr>redis := Some (fst (redis_Set rops d key (wire val) (ttl c)))\<rparr>)"

definition layered_Delete ::
  "'l local_ops \<Rightarrow> 'd redis_ops \<Rightarrow> ('l, 'd) layered \<Rightarrow> string \<Rightarrow> ('l, 'd) layered" where
  "layered_Delete lops rops c key =
     (let c = c\<lparr>local := local_Del lops (local c) key\<rparr> in
      case redis c of
        None \<Rightarrow> c
      | Some d \<Rightarrow> c\<lparr>redis := Some (fst (redis_Del rops d key))\<rparr>)"

record 'c cache_ops =
  cache_Get :: "'c \<Rightarrow> string \<Rightarrow> 'c \<times> string option"
  cache_Set :: "'c \<Rightarrow> string \<Rightarrow> go_bytes \<Rightarrow> 'c"
  cache_Delete :: "'c \<Rightarrow> string \<Rightarrow> 'c"

definition layered_ops ::
  "'l local_ops \<Rightarrow> 'd redis_ops \<Rightarrow> ('l, 'd) layered cache_ops" where
  "layered_ops lops rops =
     \<lparr>cache_Get = layered_Get lops rops, cache_Set = layered_Set lops rops,
      cache_Delete = layered_Delete lops rops\<rparr>"

lemma layered_ops_simps [simp]:
  "cache_Get (layered_ops lops rops) = layered_Get lops rops"
  "cache_Set (layered_ops lops rops) = layered_Set lops rops"
  "cache_Delete (layered_ops lops rops) = layered_Delete lops rops"
  by (simp_all add: layered_ops_def)

subsection \<open>Contracts\<close>

text \<open>
  A cache as its client sees it: \<open>entries c k\<close> is the set of byte strings a lookup of \<open>k\<close> may
  return. Nothing ever adds to it but a write of the key, which leaves at most the written value.
\<close>

locale cache_spec =
  fixes cops :: "'c cache_ops"
    and entries :: "'c \<Rightarrow> string \<Rightarrow> string set"
  assumes cache_get:
      "cache_Get cops c k = (c', v) \<Longrightarrow>
       entries c' k' \<subseteq> entries c k' \<and> (\<forall>b. v = Some b \<longrightarrow> b \<in> entries c k)"
    and cache_set:
      "entries (cache_Set cops c k v) k' \<subseteq> (if k' = k then {wire v} else entries c k')"
    and cache_delete:
      "entries (cache_Delete cops c k) k' \<subseteq> (if k' = k then {} else entries c k')"

context cache_spec
begin

lemma cache_setD:
  "b \<in> entries (cache_Set cops c k v) k' \<Longrightarrow> k' = k \<and> b = wire v \<or> k' \<noteq> k \<and> b \<in> entries c k'"
  using cache_set [of c k v k'] by (auto split: if_splits)

lemma cache_deleteD:
  "b \<in> entries (cache_Delete cops c k) k' \<Longrightarrow> k' \<noteq> k \<and> b \<in> entries c k'"
  using cache_delete [of c k k'] by (auto split: if_splits)

end

locale local_store =
  fixes lops :: "'l local_ops"
    and labs :: "'l \<Rightarrow> string \<Rightarrow> go_bytes option"
  assumes local_get:
      "local_Get lops l k = (l', v) \<Longrightarrow> labs l' \<subseteq>\<^sub>m labs l \<and> (v = None \<or> v = labs l k)"
    and local_set: "labs (local_Set lops l k b) \<subseteq>\<^sub>m (labs l)(k \<mapsto> b)"
    and local_del: "labs (local_Del lops l k) \<subseteq>\<^sub>m (labs l)(k := None)"

text \<open>
  The laws of Redis hold while it is reachable and this process is its only writer: the code drops
  the error of a write or deletion, so a failed one is outside them.
\<close>

locale redis_store =
  fixes rops :: "'d redis_ops"
    and rabs :: "'d \<Rightarrow> string \<Rightarrow> string option"
  assumes redis_get:
      "redis_Get rops d k = (d', x) \<Longrightarrow>
       rabs d' \<subseteq>\<^sub>m rabs d \<and> (\<forall>b. x = Inr b \<longrightarrow> rabs d k = Some b)"
    and redis_set: "rabs (fst (redis_Set rops d k b t)) \<subseteq>\<^sub>m (rabs d)(k \<mapsto> b)"
    and redis_del: "rabs (fst (redis_Del rops d k)) \<subseteq>\<^sub>m (rabs d)(k := None)"

locale layered_cache = local_store lops labs + redis_store rops rabs
  for lops :: "'l local_ops" and labs and rops :: "'d redis_ops" and rabs

text \<open>The byte strings the two levels hold for a key; a nil slice in the local level is no entry.\<close>

definition layered_entries ::
  "('l \<Rightarrow> string \<Rightarrow> go_bytes option) \<Rightarrow> ('d \<Rightarrow> string \<Rightarrow> string option) \<Rightarrow>
   ('l, 'd) layered \<Rightarrow> string \<Rightarrow> string set"
where
  "layered_entries labs rabs c k =
     {b. labs (local c) k = Some (Some b) \<or> (\<exists>d. redis c = Some d \<and> rabs d k = Some b)}"

lemma map_leD: "m \<subseteq>\<^sub>m m' \<Longrightarrow> m k = Some v \<Longrightarrow> m' k = Some v"
  by (auto simp: map_le_def dom_def)

lemma map_le_updD: "m \<subseteq>\<^sub>m m'(k := w) \<Longrightarrow> m k' = Some v \<Longrightarrow> (if k' = k then w else m' k') = Some v"
  using map_leD [of m "m'(k := w)" k' v] by simp

context layered_cache
begin

lemma layered_get:
  assumes "layered_Get lops rops c k = (c', v)"
  shows "layered_entries labs rabs c' k' \<subseteq> layered_entries labs rabs c k' \<and>
    (\<forall>b. v = Some b \<longrightarrow> b \<in> layered_entries labs rabs c k)"
proof -
  obtain l w where l: "local_Get lops (local c) k = (l, w)" by fastforce
  note loc = local_get [OF l]
  have mono: "labs (local c) j = Some y" if "labs l j = Some y" for j y
    using loc that by (auto dest: map_leD)
  show ?thesis
  proof (cases "\<exists>b. w = Some (Some b)")
    case True
    then obtain b where b: "w = Some (Some b)" by blast
    then have "c' = c\<lparr>local := l\<rparr>" "v = Some b" using assms l by (simp_all add: layered_Get_def)
    moreover have "labs (local c) k = Some (Some b)" using loc b by simp
    ultimately show ?thesis by (auto simp: layered_entries_def dest: mono)
  next
    case False
    then have miss: "w = None \<or> w = Some None" by (metis option.exhaust)
    show ?thesis
    proof (cases "redis c")
      case None
      then have "c' = c\<lparr>local := l\<rparr>" "v = None"
        using miss assms l by (auto simp: layered_Get_def)
      then show ?thesis by (auto simp: layered_entries_def dest: mono)
    next
      case (Some d)
      obtain d' x where d: "redis_Get rops d k = (d', x)" by fastforce
      note red = redis_get [OF d]
      show ?thesis
      proof (cases x)
        case (Inl f)
        then have "c' = c\<lparr>local := l, redis := Some d'\<rparr>" "v = None"
          using Some d miss assms l by (auto simp: layered_Get_def)
        with Some red show ?thesis by (auto simp: layered_entries_def dest: mono map_leD)
      next
        case (Inr b)
        then have c': "c' = c\<lparr>local := local_Set lops l k (Some b), redis := Some d'\<rparr>" "v = Some b"
          using Some d miss assms l by (auto simp: layered_Get_def)
        have b: "b \<in> layered_entries labs rabs c k"
          using red Inr Some by (simp add: layered_entries_def)
        have "a \<in> layered_entries labs rabs c k'" if "a \<in> layered_entries labs rabs c' k'" for a
        proof -
          from that consider "labs (local_Set lops l k (Some b)) k' = Some (Some a)"
            | "rabs d' k' = Some a"
            by (auto simp: layered_entries_def c')
          then show ?thesis
          proof cases
            case 1
            from map_le_updD [OF local_set 1] b show ?thesis
              by (auto simp: layered_entries_def dest: mono split: if_splits)
          next
            case 2
            then show ?thesis using red Some by (auto simp: layered_entries_def dest: map_leD)
          qed
        qed
        with b c' show ?thesis by blast
      qed
    qed
  qed
qed

lemma layered_set:
  "layered_entries labs rabs (layered_Set lops rops c k v) k' \<subseteq>
     (if k' = k then {wire v} else layered_entries labs rabs c k')"
proof
  fix b assume "b \<in> layered_entries labs rabs (layered_Set lops rops c k v) k'"
  then consider "labs (local_Set lops (local c) k v) k' = Some (Some b)"
    | d where "redis c = Some d" "rabs (fst (redis_Set rops d k (wire v) (ttl c))) k' = Some b"
    by (auto simp: layered_entries_def layered_Set_def Let_def split: option.splits)
  then show "b \<in> (if k' = k then {wire v} else layered_entries labs rabs c k')"
  proof cases
    case 1
    from map_le_updD [OF local_set 1] show ?thesis
      by (auto simp: layered_entries_def wire_def split: if_splits)
  next
    case 2
    from map_le_updD [OF redis_set 2(2)] 2(1) show ?thesis
      by (auto simp: layered_entries_def split: if_splits)
  qed
qed

lemma layered_delete:
  "layered_entries labs rabs (layered_Delete lops rops c k) k' \<subseteq>
     (if k' = k then {} else layered_entries labs rabs c k')"
proof
  fix b assume "b \<in> layered_entries labs rabs (layered_Delete lops rops c k) k'"
  then consider "labs (local_Del lops (local c) k) k' = Some (Some b)"
    | d where "redis c = Some d" "rabs (fst (redis_Del rops d k)) k' = Some b"
    by (auto simp: layered_entries_def layered_Delete_def Let_def split: option.splits)
  then show "b \<in> (if k' = k then {} else layered_entries labs rabs c k')"
  proof cases
    case 1
    from map_le_updD [OF local_del 1] show ?thesis
      by (auto simp: layered_entries_def split: if_splits)
  next
    case 2
    from map_le_updD [OF redis_del 2(2)] 2(1) show ?thesis
      by (auto simp: layered_entries_def split: if_splits)
  qed
qed

end

sublocale layered_cache \<subseteq> cache_spec "layered_ops lops rops" "layered_entries labs rabs"
  by unfold_locales (simp_all add: layered_get layered_set layered_delete)

subsection \<open>Stores that keep the contracts\<close>

text \<open>
  A bounded store that forgets its oldest entries, and a key-value server without expiry: instances
  of the two third-party contracts, for evaluating the model.
\<close>

record bounded =
  capacity :: nat
  items :: "(string \<times> go_bytes) list"

definition bounded_Set :: "bounded \<Rightarrow> string \<Rightarrow> go_bytes \<Rightarrow> bounded" where
  "bounded_Set c k b =
     c\<lparr>items := take (capacity c) ((k, b) # filter (\<lambda>kv. fst kv \<noteq> k) (items c))\<rparr>"

definition bounded_Del :: "bounded \<Rightarrow> string \<Rightarrow> bounded" where
  "bounded_Del c k = c\<lparr>items := filter (\<lambda>kv. fst kv \<noteq> k) (items c)\<rparr>"

definition bounded_ops :: "bounded local_ops" where
  "bounded_ops =
     \<lparr>local_Get = (\<lambda>c k. (c, map_of (items c) k)), local_Set = bounded_Set,
      local_Del = bounded_Del\<rparr>"

type_synonym server = "(string \<times> string) list"

definition server_ops :: "server redis_ops" where
  "server_ops =
     \<lparr>redis_Get = (\<lambda>d k. (d, case map_of d k of None \<Rightarrow> Inl (ErrorNew ''redis: nil'') | Some b \<Rightarrow> Inr b)),
      redis_Set = (\<lambda>d k b t. ((k, b) # filter (\<lambda>kv. fst kv \<noteq> k) d, None)),
      redis_Del = (\<lambda>d k. (filter (\<lambda>kv. fst kv \<noteq> k) d, None))\<rparr>"

lemma map_of_take: "map_of (take n kvs) k = Some v \<Longrightarrow> map_of kvs k = Some v"
proof -
  assume "map_of (take n kvs) k = Some v"
  then have "map_of (take n kvs @ drop n kvs) k = Some v"
    by (simp only: map_of_append map_add_find_right)
  then show ?thesis by (simp only: append_take_drop_id)
qed

lemma map_of_take_le: "map_of (take n kvs) \<subseteq>\<^sub>m map_of kvs"
  unfolding map_le_def by (metis domD map_of_take)

lemma map_of_filter_key:
  "map_of (filter (\<lambda>kv. fst kv \<noteq> k) kvs) = (map_of kvs)(k := None)"
  by (induction kvs) (auto simp: fun_eq_iff)

interpretation sample: layered_cache bounded_ops "\<lambda>c. map_of (items c)" server_ops map_of
proof (unfold_locales, goal_cases)
  case (1 l k l' v)
  then show ?case by (auto simp: bounded_ops_def)
next
  case (2 l k b)
  show ?case
    using map_of_take_le [of "capacity l" "(k, b) # filter (\<lambda>kv. fst kv \<noteq> k) (items l)"]
    by (simp add: bounded_ops_def bounded_Set_def map_of_filter_key)
next
  case (3 l k)
  then show ?case by (simp add: bounded_ops_def bounded_Del_def map_of_filter_key)
next
  case (4 d k d' x)
  then show ?case by (auto simp: server_ops_def split: option.splits)
next
  case (5 d k b t)
  then show ?case by (simp add: server_ops_def map_of_filter_key)
next
  case (6 d k)
  then show ?case by (simp add: server_ops_def map_of_filter_key)
qed

end
