(* ===== verification/Cached_Service.thy ===== *)
theory Cached_Service
  imports User_Service Layered_Cache
begin

text \<open>
  \<open>internal/core/cached_usersvc.go\<close>: the caching decorator of a \<open>UserService\<close>. Users are cached
  under their id, list pages under a version number that every change of a user bumps, so that
  stale pages are never looked up again. The theory shows when the decorator is transparent: with
  lossy caches and one process it keeps the service contract of what it wraps.
\<close>

subsection \<open>Serialisation\<close>

text \<open>
  \<open>encoding/json\<close> for a user and for a page, and \<open>uuid.UUID.String\<close>. \<open>json.Marshal\<close> may fail (a
  year beyond 9999); its error is dropped and the nil slice cached.
\<close>

record codec =
  enc_user :: "user \<Rightarrow> go_bytes"
  dec_user :: "string \<Rightarrow> user option"
  enc_list :: "user list \<times> go_int \<Rightarrow> go_bytes"
  dec_list :: "string \<Rightarrow> (user list \<times> go_int) option"
  id_string :: "uuid \<Rightarrow> string"

record ('s, 'c) cached =
  base :: 's
  cache :: 'c
  listVer :: go_uint64

subsection \<open>The operations\<close>

definition cacheKeyUser :: "codec \<Rightarrow> uuid \<Rightarrow> string" where
  "cacheKeyUser cd i = ''user:get:'' @ id_string cd i"

definition cacheKeyList :: "go_uint64 \<Rightarrow> go_int \<Rightarrow> go_int \<Rightarrow> string" where
  "cacheKeyList ver page pageSize =
     ''user:list:v'' @ show_nat (unat ver) @ '':'' @ show_int (sint page) @ '':'' @ show_int (sint pageSize)"

definition getUser ::
  "'c cache_ops \<Rightarrow> codec \<Rightarrow> ('s, 'c) cached \<Rightarrow> uuid \<Rightarrow> ('s, 'c) cached \<times> user option" where
  "getUser cops cd s i =
     (case cache_Get cops (cache s) (cacheKeyUser cd i) of
        (c, Some b) \<Rightarrow> (s\<lparr>cache := c\<rparr>, dec_user cd b)
      | (c, None) \<Rightarrow> (s\<lparr>cache := c\<rparr>, None))"

definition setUser ::
  "'c cache_ops \<Rightarrow> codec \<Rightarrow> ('s, 'c) cached \<Rightarrow> user \<Rightarrow> ('s, 'c) cached" where
  "setUser cops cd s u =
     s\<lparr>cache := cache_Set cops (cache s) (cacheKeyUser cd (ID u)) (enc_user cd u)\<rparr>"

definition delUser ::
  "'c cache_ops \<Rightarrow> codec \<Rightarrow> ('s, 'c) cached \<Rightarrow> uuid \<Rightarrow> ('s, 'c) cached" where
  "delUser cops cd s i = s\<lparr>cache := cache_Delete cops (cache s) (cacheKeyUser cd i)\<rparr>"

definition bump :: "('s, 'c) cached \<Rightarrow> ('s, 'c) cached" where
  "bump s = s\<lparr>listVer := listVer s + 1\<rparr>"

definition cached_Create ::
  "('s, 't) svc_ops \<Rightarrow> 'c cache_ops \<Rightarrow> codec \<Rightarrow>
   env \<Rightarrow> ('s, 'c) cached \<Rightarrow> string \<Rightarrow> string \<Rightarrow> ('s, 'c) cached \<times> user res" where
  "cached_Create svc cops cd e s name email =
     (case svc_Create svc e (base s) name email of
        (b, Ok u) \<Rightarrow> (setUser cops cd (bump (s\<lparr>base := b\<rparr>)) u, Ok u)
      | (b, Err f) \<Rightarrow> (s\<lparr>base := b\<rparr>, Err f)
      | (b, Panic q) \<Rightarrow> (s\<lparr>base := b\<rparr>, Panic q))"

definition cached_Get ::
  "('s, 't) svc_ops \<Rightarrow> 'c cache_ops \<Rightarrow> codec \<Rightarrow>
   env \<Rightarrow> ('s, 'c) cached \<Rightarrow> uuid \<Rightarrow> ('s, 'c) cached \<times> user res" where
  "cached_Get svc cops cd e s i =
     (case getUser cops cd s i of
        (s, Some u) \<Rightarrow> (s, Ok u)
      | (s, None) \<Rightarrow>
          (case svc_Get svc e (base s) i of
             (b, Ok u) \<Rightarrow> (setUser cops cd (s\<lparr>base := b\<rparr>) u, Ok u)
           | (b, Err f) \<Rightarrow> (s\<lparr>base := b\<rparr>, Err f)
           | (b, Panic q) \<Rightarrow> (s\<lparr>base := b\<rparr>, Panic q)))"

definition cached_Update ::
  "('s, 't) svc_ops \<Rightarrow> 'c cache_ops \<Rightarrow> codec \<Rightarrow>
   env \<Rightarrow> ('s, 'c) cached \<Rightarrow> uuid \<Rightarrow> string option \<Rightarrow> string option \<Rightarrow> ('s, 'c) cached \<times> user res" where
  "cached_Update svc cops cd e s i name email =
     (case svc_Update svc e (base s) i name email of
        (b, Ok u) \<Rightarrow> (setUser cops cd (bump (delUser cops cd (s\<lparr>base := b\<rparr>) i)) u, Ok u)
      | (b, Err f) \<Rightarrow> (s\<lparr>base := b\<rparr>, Err f)
      | (b, Panic q) \<Rightarrow> (s\<lparr>base := b\<rparr>, Panic q))"

definition cached_Delete ::
  "('s, 't) svc_ops \<Rightarrow> 'c cache_ops \<Rightarrow> codec \<Rightarrow>
   env \<Rightarrow> ('s, 'c) cached \<Rightarrow> uuid \<Rightarrow> ('s, 'c) cached \<times> unit res" where
  "cached_Delete svc cops cd e s i =
     (case svc_Delete svc e (base s) i of
        (b, Ok v) \<Rightarrow> (bump (delUser cops cd (s\<lparr>base := b\<rparr>) i), Ok ())
      | (b, Err f) \<Rightarrow> (s\<lparr>base := b\<rparr>, Err f)
      | (b, Panic q) \<Rightarrow> (s\<lparr>base := b\<rparr>, Panic q))"

text \<open>The key is computed once, before the base service is asked.\<close>

definition cached_List ::
  "('s, 't) svc_ops \<Rightarrow> 'c cache_ops \<Rightarrow> codec \<Rightarrow>
   env \<Rightarrow> ('s, 'c) cached \<Rightarrow> go_int \<Rightarrow> go_int \<Rightarrow> ('s, 'c) cached \<times> (user list \<times> go_int) res" where
  "cached_List svc cops cd e s page pageSize =
     (let key = cacheKeyList (listVer s) page pageSize;
          (c, v) = cache_Get cops (cache s) key;
          s = s\<lparr>cache := c\<rparr>
      in case Option.bind v (dec_list cd) of
           Some wrap \<Rightarrow> (s, Ok wrap)
         | None \<Rightarrow>
             (case svc_List svc e (base s) page pageSize of
                (b, Ok ut) \<Rightarrow>
                  (s\<lparr>base := b, cache := cache_Set cops (cache s) key (enc_list cd ut)\<rparr>, Ok ut)
              | (b, Err f) \<Rightarrow> (s\<lparr>base := b\<rparr>, Err f)
              | (b, Panic q) \<Rightarrow> (s\<lparr>base := b\<rparr>, Panic q)))"

definition cached_WithTx ::
  "('s, 't) svc_ops \<Rightarrow> env \<Rightarrow> ('s, 'c) cached \<Rightarrow> 't tx_fn \<Rightarrow> ('s, 'c) cached \<times> unit res" where
  "cached_WithTx svc e s fn = (case svc_WithTx svc e (base s) fn of (b, x) \<Rightarrow> (s\<lparr>base := b\<rparr>, x))"

definition cached_ops ::
  "('s, 't) svc_ops \<Rightarrow> 'c cache_ops \<Rightarrow> codec \<Rightarrow> (('s, 'c) cached, 't) svc_ops" where
  "cached_ops svc cops cd =
     \<lparr>svc_Create = cached_Create svc cops cd, svc_Get = cached_Get svc cops cd,
      svc_Update = cached_Update svc cops cd, svc_Delete = cached_Delete svc cops cd,
      svc_List = cached_List svc cops cd, svc_WithTx = cached_WithTx svc\<rparr>"

lemma cached_ops_simps [simp]:
  "svc_Create (cached_ops svc cops cd) = cached_Create svc cops cd"
  "svc_Get (cached_ops svc cops cd) = cached_Get svc cops cd"
  "svc_Update (cached_ops svc cops cd) = cached_Update svc cops cd"
  "svc_Delete (cached_ops svc cops cd) = cached_Delete svc cops cd"
  "svc_List (cached_ops svc cops cd) = cached_List svc cops cd"
  "svc_WithTx (cached_ops svc cops cd) = cached_WithTx svc"
  by (simp_all add: cached_ops_def)

text \<open>
  \<open>NewCachedUserService\<close> returns the base service itself when there is no cache, the decorator
  with version 0 otherwise: the initial state of either.
\<close>

definition NewCachedUserService :: "'s \<Rightarrow> 'c option \<Rightarrow> 's + ('s, 'c) cached" where
  "NewCachedUserService b c =
     (case c of None \<Rightarrow> Inl b | Some c \<Rightarrow> Inr \<lparr>base = b, cache = c, listVer = 0\<rparr>)"

subsection \<open>Keys\<close>

lemma cacheKeyUser_inject:
  "inj (id_string cd) \<Longrightarrow> cacheKeyUser cd i = cacheKeyUser cd j \<longleftrightarrow> i = j"
  by (simp add: cacheKeyUser_def inj_eq)

lemma cacheKeyList_not_User [simp]: "cacheKeyList v p z \<noteq> cacheKeyUser cd i"
  "cacheKeyUser cd i \<noteq> cacheKeyList v p z"
  by (simp_all add: cacheKeyList_def cacheKeyUser_def)

lemma cacheKeyList_inject [simp]:
  "cacheKeyList v p z = cacheKeyList v' p' z' \<longleftrightarrow> v = v' \<and> p = p' \<and> z = z'"
proof
  assume eq: "cacheKeyList v p z = cacheKeyList v' p' z'"
  have v: "show_nat (unat v) = show_nat (unat v') \<and>
      show_int (sint p) @ CHR '':'' # show_int (sint z) =
      show_int (sint p') @ CHR '':'' # show_int (sint z')"
    using eq by (intro sep_inject [of "CHR '':''"]) (simp_all add: cacheKeyList_def)
  moreover have "show_int (sint p) = show_int (sint p') \<and> show_int (sint z) = show_int (sint z')"
    using v by (intro sep_inject [of "CHR '':''"]) simp_all
  ultimately show "v = v' \<and> p = p' \<and> z = z'" by (auto intro: unsigned_word_eqI signed_word_eqI)
qed simp

subsection \<open>Transparency\<close>

text \<open>
  The setting: a base service that keeps its contract, a lossy cache, and a codec that returns the
  JSON image of what it encoded (\<open>jsoned\<close>: the same user but for bytes that are not UTF-8) and
  rejects the empty string a nil slice becomes.
\<close>

locale cached_service =
  user_service svc live inv stored norm repr room + cache_spec cops entries
  for svc :: "('s, 't) svc_ops" and live inv stored norm repr room
    and cops :: "'c cache_ops" and entries +
  fixes cd :: codec
    and jsoned :: "user \<Rightarrow> user"
  assumes dec_enc_user: "enc_user cd u = Some b \<Longrightarrow> dec_user cd b = Some (jsoned u)"
    and dec_enc_list: "enc_list cd (us, n) = Some b \<Longrightarrow> dec_list cd b = Some (map jsoned us, n)"
    and dec_empty: "dec_user cd [] = None" "dec_list cd [] = None"
    and inj_id_string: "inj (id_string cd)"
    and jsoned_ID: "ID (jsoned u) = ID u"

text \<open>What an answer of the decorator may be for a stored user.\<close>

definition cached_repr ::
  "(user \<Rightarrow> user) \<Rightarrow> (user \<Rightarrow> user \<Rightarrow> bool) \<Rightarrow> (user \<Rightarrow> user) \<Rightarrow> user \<Rightarrow> user \<Rightarrow> bool" where
  "cached_repr stored repr jsoned w u0 \<longleftrightarrow>
     repr w u0 \<or> (\<exists>u. (repr u u0 \<or> stored u = u0) \<and> w = jsoned u)"

definition users_coherent ::
  "codec \<Rightarrow> (user \<Rightarrow> user \<Rightarrow> bool) \<Rightarrow> users_map \<Rightarrow> (string \<Rightarrow> string set) \<Rightarrow> bool" where
  "users_coherent cd rp m E \<longleftrightarrow>
     (\<forall>i b w. b \<in> E (cacheKeyUser cd i) \<longrightarrow> dec_user cd b = Some w \<longrightarrow>
        (\<exists>u0. m i = Some u0 \<and> rp w u0))"

definition lists_coherent ::
  "codec \<Rightarrow> (user \<Rightarrow> user \<Rightarrow> bool) \<Rightarrow> (go_int \<Rightarrow> go_int \<Rightarrow> int \<times> int) \<Rightarrow> users_map \<Rightarrow> go_uint64 \<Rightarrow>
   (string \<Rightarrow> string set) \<Rightarrow> bool" where
  "lists_coherent cd rp norm m ver E \<longleftrightarrow>
     (\<forall>p z b us n. b \<in> E (cacheKeyList ver p z) \<longrightarrow> dec_list cd b = Some (us, n) \<longrightarrow>
        page_fits norm m p z \<longrightarrow>
        (\<exists>us0. list_all2 rp us us0 \<and> page_result norm m p z us0 n))"

definition versions_fresh :: "go_uint64 \<Rightarrow> (string \<Rightarrow> string set) \<Rightarrow> bool" where
  "versions_fresh ver E \<longleftrightarrow> (\<forall>v p z. unat ver < unat v \<longrightarrow> E (cacheKeyList v p z) = {})"

lemmas coherent_defs = users_coherent_def lists_coherent_def versions_fresh_def

lemma coherent_mono:
  assumes "\<And>k. E' k \<subseteq> E k"
  shows "users_coherent cd rp m E \<Longrightarrow> users_coherent cd rp m E'"
    "lists_coherent cd rp norm m ver E \<Longrightarrow> lists_coherent cd rp norm m ver E'"
    "versions_fresh ver E \<Longrightarrow> versions_fresh ver E'"
  using assms unfolding coherent_defs by blast+

lemma unat_inc:
  fixes ver :: go_uint64
  assumes "ver \<noteq> - 1"
  shows "unat (ver + 1) = Suc (unat ver)"
proof -
  have "1 + ver \<noteq> 0" using assms by (simp add: add_eq_0_iff)
  from unatSuc [OF this] show ?thesis by (simp add: add.commute)
qed

lemma fresh_bump:
  assumes "versions_fresh ver E" "ver \<noteq> - 1"
  shows "versions_fresh (ver + 1) E" "lists_coherent cd rp norm m (ver + 1) E"
proof -
  note ver = unat_inc [OF assms(2)]
  show "versions_fresh (ver + 1) E" using assms(1) by (simp add: versions_fresh_def ver)
  have "E (cacheKeyList (ver + 1) p z) = {}" for p z
    using assms(1) by (simp add: versions_fresh_def ver)
  then show "lists_coherent cd rp norm m (ver + 1) E" by (simp add: lists_coherent_def)
qed

text \<open>
  The invariant: what the cache may return for a user represents the live user, what it may return
  for a page under the current version is that page, and no later version has been used.
\<close>

definition coherent ::
  "('s \<Rightarrow> users_map) \<Rightarrow> ('s \<Rightarrow> bool) \<Rightarrow> (go_int \<Rightarrow> go_int \<Rightarrow> int \<times> int) \<Rightarrow> codec \<Rightarrow>
   (user \<Rightarrow> user \<Rightarrow> bool) \<Rightarrow> ('c \<Rightarrow> string \<Rightarrow> string set) \<Rightarrow> ('s, 'c) cached \<Rightarrow> bool" where
  "coherent live good norm cd rp entries s \<longleftrightarrow>
     good (base s) \<and>
     users_coherent cd rp (live (base s)) (entries (cache s)) \<and>
     lists_coherent cd rp norm (live (base s)) (listVer s) (entries (cache s)) \<and>
     versions_fresh (listVer s) (entries (cache s))"

abbreviation room_left :: "('s \<Rightarrow> bool) \<Rightarrow> ('s, 'c) cached \<Rightarrow> bool" where
  "room_left room s \<equiv> room (base s) \<and> listVer s \<noteq> - 1"

context cached_service
begin

abbreviation (input) rp where "rp \<equiv> cached_repr stored repr jsoned"
abbreviation (input) coh where "coh \<equiv> coherent live inv norm cd rp entries"

lemma dec_wire_user: "dec_user cd (wire (enc_user cd u)) = Some w \<Longrightarrow> w = jsoned u"
  by (cases "enc_user cd u") (auto simp: wire_def dec_empty dest: dec_enc_user)

lemma dec_wire_list: "dec_list cd (wire (enc_list cd (us, n))) = Some v \<Longrightarrow> v = (map jsoned us, n)"
  by (cases "enc_list cd (us, n)") (auto simp: wire_def dec_empty dest: dec_enc_list)

lemma coherent_less:
  "coh s \<Longrightarrow> (\<And>k. entries c k \<subseteq> entries (cache s) k) \<Longrightarrow> coh (s\<lparr>cache := c\<rparr>)"
  using coherent_mono [of "entries c" "entries (cache s)"] by (simp add: coherent_def)

lemma coherent_base:
  "coh s \<Longrightarrow> inv b \<Longrightarrow> live b = live (base s) \<Longrightarrow> coh (s\<lparr>base := b\<rparr>)"
  by (simp add: coherent_def)

lemma coherent_change:
  assumes "coh s" "listVer s \<noteq> - 1" "inv b"
    and "\<And>k. entries c k \<subseteq> entries (cache s) k"
    and "\<And>j a w. a \<in> entries c (cacheKeyUser cd j) \<Longrightarrow> dec_user cd a = Some w \<Longrightarrow>
      live (base s) j \<noteq> None \<Longrightarrow> live b j = live (base s) j"
  shows "coh (bump (s\<lparr>base := b, cache := c\<rparr>))"
proof -
  have "versions_fresh (listVer s) (entries c)"
    using assms(1,4) coherent_mono(3) unfolding coherent_def by blast
  note fresh_bump [OF this assms(2)]
  moreover have "users_coherent cd rp (live b) (entries c)"
    unfolding users_coherent_def
  proof (intro allI impI)
    fix j a w assume a: "a \<in> entries c (cacheKeyUser cd j)" "dec_user cd a = Some w"
    with assms(1,4) obtain u0 where u0: "live (base s) j = Some u0" "rp w u0"
      unfolding coherent_def users_coherent_def by blast
    moreover have "live b j = live (base s) j" by (rule assms(5) [OF a]) (simp add: u0)
    ultimately show "\<exists>u0. live b j = Some u0 \<and> rp w u0" by simp
  qed
  ultimately show ?thesis using assms(3) by (simp add: coherent_def bump_def)
qed

lemma coherent_setUser:
  assumes "coh s" "live (base s) (ID u) = Some u0" "repr u u0 \<or> stored u = u0"
  shows "coh (setUser cops cd s u)"
proof -
  let ?c = "cache_Set cops (cache s) (cacheKeyUser cd (ID u)) (enc_user cd u)"
  note set = cache_set [of "cache s" "cacheKeyUser cd (ID u)" "enc_user cd u"]
  have lists: "entries ?c (cacheKeyList v p z) \<subseteq> entries (cache s) (cacheKeyList v p z)" for v p z
    using set [of "cacheKeyList v p z"] by simp
  have "users_coherent cd rp (live (base s)) (entries ?c)"
    unfolding users_coherent_def
  proof (intro allI impI)
    fix j a w assume a: "a \<in> entries ?c (cacheKeyUser cd j)" "dec_user cd a = Some w"
    show "\<exists>u0. live (base s) j = Some u0 \<and> rp w u0"
    proof (cases "j = ID u")
      case True
      with a set [of "cacheKeyUser cd j"] have "a = wire (enc_user cd u)" by auto
      with a(2) have "w = jsoned u" by (simp add: dec_wire_user)
      with True assms(2,3) show ?thesis by (auto simp: cached_repr_def)
    next
      case False
      with a(1) set [of "cacheKeyUser cd j"] have "a \<in> entries (cache s) (cacheKeyUser cd j)"
        by (auto simp: cacheKeyUser_inject [OF inj_id_string])
      with a(2) assms(1) show ?thesis unfolding coherent_def users_coherent_def by blast
    qed
  qed
  moreover have "lists_coherent cd rp norm (live (base s)) (listVer s) (entries ?c)"
    using assms(1) lists unfolding coherent_def lists_coherent_def by blast
  moreover have "versions_fresh (listVer s) (entries ?c)"
    using assms(1) lists unfolding coherent_def versions_fresh_def by blast
  ultimately show ?thesis using assms(1) by (simp add: coherent_def setUser_def)
qed

lemma getUser_cases:
  assumes "coh s"
  obtains (hit) c w u0 where "getUser cops cd s i = (s\<lparr>cache := c\<rparr>, Some w)"
      "coh (s\<lparr>cache := c\<rparr>)" "live (base s) i = Some u0" "rp w u0"
  | (miss) c where "getUser cops cd s i = (s\<lparr>cache := c\<rparr>, None)" "coh (s\<lparr>cache := c\<rparr>)"
proof -
  obtain c v where c: "cache_Get cops (cache s) (cacheKeyUser cd i) = (c, v)" by fastforce
  note less = coherent_less [OF assms, of c] cache_get [OF c]
  show ?thesis
  proof (cases "Option.bind v (dec_user cd)")
    case None
    then have "getUser cops cd s i = (s\<lparr>cache := c\<rparr>, None)"
      by (simp add: getUser_def c split: option.splits Option.bind_splits)
    with less miss show ?thesis by blast
  next
    case (Some w)
    then obtain b where b: "v = Some b" "dec_user cd b = Some w"
      by (auto split: Option.bind_splits)
    then have "getUser cops cd s i = (s\<lparr>cache := c\<rparr>, Some w)" by (simp add: getUser_def c)
    moreover have "b \<in> entries (cache s) (cacheKeyUser cd i)" using less(2) b by blast
    with b(2) assms obtain u0 where "live (base s) i = Some u0" "rp w u0"
      unfolding coherent_def users_coherent_def by blast
    ultimately show ?thesis using less hit by blast
  qed
qed

lemma base_setUser [simp]: "base (setUser cops cd s u) = base s"
  by (simp add: setUser_def)

lemma base_bump [simp]: "base (bump s) = base s"
  by (simp add: bump_def)

lemma cached_create:
  assumes "wf_env e" "room (base s)" "listVer s \<noteq> - 1" "coh s"
    and "cached_Create svc cops cd e s name email = (s', x)"
  shows "case x of
          Ok u \<Rightarrow>
            create_input_ok e name email \<and> u = created_user e name email \<and>
            live (base s) (ID u) = None \<and> coh s' \<and>
            live (base s') = (live (base s))(ID u \<mapsto> stored u)
        | Err f \<Rightarrow>
            coh s' \<and> live (base s') = live (base s) \<and>
            (if create_input_ok e name email then opaque f else validation_error f)
        | Panic q \<Rightarrow> False"
proof -
  obtain b y where y: "svc_Create svc e (base s) name email = (b, y)" by fastforce
  have inv: "inv (base s)" using assms(4) by (simp add: coherent_def)
  note c = create [OF assms(1,2) inv y]
  show ?thesis
  proof (cases y)
    case (Ok u)
    from c [unfolded Ok res.case]
    have u: "create_input_ok e name email" "u = created_user e name email"
        "live (base s) (ID u) = None" "inv b" "live b = (live (base s))(ID u \<mapsto> stored u)"
      by blast+
    have "coh (bump (s\<lparr>base := b, cache := cache s\<rparr>))"
      using u(3,5) by (intro coherent_change [OF assms(4,3) u(4)]) auto
    then have "coh (setUser cops cd (bump (s\<lparr>base := b\<rparr>)) u)"
      using u(5) by (intro coherent_setUser [where ?u0.0 = "stored u"]) simp_all
    moreover have "x = Ok u" "s' = setUser cops cd (bump (s\<lparr>base := b\<rparr>)) u"
      using assms(5) y Ok by (simp_all add: cached_Create_def)
    ultimately show ?thesis using u by simp
  next
    case (Err f)
    then have "x = Err f" "s' = s\<lparr>base := b\<rparr>"
      using assms(5) y by (simp_all add: cached_Create_def)
    with c Err show ?thesis by (auto intro: coherent_base [OF assms(4)])
  next
    case (Panic q)
    with c show ?thesis by simp
  qed
qed

lemma cached_get:
  assumes "wf_env e" "coh s" "cached_Get svc cops cd e s i = (s', x)"
  shows "coh s' \<and> live (base s') = live (base s) \<and>
       (case x of
          Ok u \<Rightarrow> (\<exists>u0. live (base s) i = Some u0 \<and> rp u u0)
        | Err f \<Rightarrow> f = ErrNotFound \<and> live (base s) i = None \<or> opaque f
        | Panic q \<Rightarrow> False)"
  using assms(2)
proof (cases rule: getUser_cases [where i = i])
  case (hit c w u0)
  then have "s' = s\<lparr>cache := c\<rparr>" "x = Ok w" using assms(3) by (simp_all add: cached_Get_def)
  with hit show ?thesis by simp
next
  case (miss c)
  obtain b y where y: "svc_Get svc e (base s) i = (b, y)" by fastforce
  have inv: "inv (base s)" using assms(2) by (simp add: coherent_def)
  note g = get [OF assms(1) inv y]
  have coh: "coh (s\<lparr>cache := c, base := b\<rparr>)" using g coherent_base [OF miss(2)] by simp
  show ?thesis
  proof (cases y)
    case (Ok u)
    with g obtain u0 where u0: "live (base s) i = Some u0" "repr u u0" by auto
    have x: "s' = setUser cops cd (s\<lparr>cache := c, base := b\<rparr>) u" "x = Ok u"
      using assms(3) miss(1) y Ok by (simp_all add: cached_Get_def)
    have "ID u = i" using repr_ID [OF u0(2)] live_wf [OF inv u0(1)] by simp
    then have "coh s'"
      unfolding x(1) using g u0 by (intro coherent_setUser [OF coh, of u u0]) simp_all
    then show ?thesis using x g u0 by (auto simp: cached_repr_def)
  next
    case (Err f)
    then have "s' = s\<lparr>cache := c, base := b\<rparr>" "x = Err f"
      using assms(3) miss(1) y by (simp_all add: cached_Get_def)
    with coh g Err show ?thesis by simp
  next
    case (Panic q)
    with g show ?thesis by simp
  qed
qed

lemma coherent_delUser_bump:
  assumes "coh s" "listVer s \<noteq> - 1" "inv b" "\<And>j. j \<noteq> i \<Longrightarrow> live b j = live (base s) j"
  shows "coh (bump (delUser cops cd (s\<lparr>base := b\<rparr>) i))"
proof -
  let ?c = "cache_Delete cops (cache s) (cacheKeyUser cd i)"
  note del = cache_delete [of "cache s" "cacheKeyUser cd i"]
  have "coh (bump (s\<lparr>base := b, cache := ?c\<rparr>))"
  proof (rule coherent_change [OF assms(1,2,3)])
    show "entries ?c k \<subseteq> entries (cache s) k" for k using del [of k] by (auto split: if_splits)
  next
    fix j a w assume "a \<in> entries ?c (cacheKeyUser cd j)"
    with del [of "cacheKeyUser cd j"] have "j \<noteq> i" by auto
    then show "live b j = live (base s) j" by (rule assms(4))
  qed
  then show ?thesis by (simp add: delUser_def)
qed

lemma cached_update:
  assumes "wf_env e" "room (base s)" "listVer s \<noteq> - 1" "coh s"
    and "cached_Update svc cops cd e s i nm em = (s', x)"
  shows "case x of
          Ok u \<Rightarrow>
            (\<exists>u0. live (base s) i = Some u0 \<and> u = updated_user e u0 nm em) \<and>
            coh s' \<and> live (base s') = (live (base s))(i \<mapsto> stored u)
        | Err f \<Rightarrow>
            coh s' \<and> live (base s') = live (base s) \<and>
            (f = ErrNotFound \<and> live (base s) i = None \<or> validation_error f \<or> opaque f)
        | Panic q \<Rightarrow> False"
proof -
  obtain b y where y: "svc_Update svc e (base s) i nm em = (b, y)" by fastforce
  have inv: "inv (base s)" using assms(4) by (simp add: coherent_def)
  note c = update [OF assms(1,2) inv y]
  show ?thesis
  proof (cases y)
    case (Ok u)
    from c [unfolded Ok res.case]
    obtain u0 where u0: "live (base s) i = Some u0" "u = updated_user e u0 nm em"
        and b: "inv b" "live b = (live (base s))(i \<mapsto> stored u)" by blast
    have "ID u = i" using updated_ID [OF inv u0(1)] u0(2) by simp
    have "coh (bump (delUser cops cd (s\<lparr>base := b\<rparr>) i))"
      by (rule coherent_delUser_bump [OF assms(4,3) b(1)]) (simp add: b)
    then have "coh (setUser cops cd (bump (delUser cops cd (s\<lparr>base := b\<rparr>) i)) u)"
      using b(2) \<open>ID u = i\<close> by (intro coherent_setUser [where ?u0.0 = "stored u"]) (simp_all add: delUser_def)
    moreover have "x = Ok u" "s' = setUser cops cd (bump (delUser cops cd (s\<lparr>base := b\<rparr>) i)) u"
      using assms(5) y Ok by (simp_all add: cached_Update_def)
    ultimately show ?thesis using u0 b by (simp add: delUser_def)
  next
    case (Err f)
    then have "x = Err f" "s' = s\<lparr>base := b\<rparr>"
      using assms(5) y by (simp_all add: cached_Update_def)
    with c Err show ?thesis by (auto intro: coherent_base [OF assms(4)])
  next
    case (Panic q)
    with c show ?thesis by simp
  qed
qed

lemma cached_delete:
  assumes "wf_env e" "room (base s)" "listVer s \<noteq> - 1" "coh s"
    and "cached_Delete svc cops cd e s i = (s', x)"
  shows "case x of
          Ok v \<Rightarrow>
            live (base s) i \<noteq> None \<and> coh s' \<and> live (base s') = (live (base s))(i := None)
        | Err f \<Rightarrow>
            coh s' \<and> live (base s') = live (base s) \<and>
            (f = ErrNotFound \<and> live (base s) i = None \<or> opaque f)
        | Panic q \<Rightarrow> False"
proof -
  obtain b y where y: "svc_Delete svc e (base s) i = (b, y)" by fastforce
  have inv: "inv (base s)" using assms(4) by (simp add: coherent_def)
  note c = delete [OF assms(1,2) inv y]
  show ?thesis
  proof (cases y)
    case (Ok v)
    with c have b: "inv b" "live b = (live (base s))(i := None)" "live (base s) i \<noteq> None"
      by simp_all
    have "coh (bump (delUser cops cd (s\<lparr>base := b\<rparr>) i))"
      by (rule coherent_delUser_bump [OF assms(4,3) b(1)]) (simp add: b)
    moreover have "x = Ok ()" "s' = bump (delUser cops cd (s\<lparr>base := b\<rparr>) i)"
      using assms(5) y Ok by (simp_all add: cached_Delete_def)
    ultimately show ?thesis using b by (simp add: delUser_def)
  next
    case (Err f)
    then have "x = Err f" "s' = s\<lparr>base := b\<rparr>"
      using assms(5) y by (simp_all add: cached_Delete_def)
    with c Err show ?thesis by (auto intro: coherent_base [OF assms(4)])
  next
    case (Panic q)
    with c show ?thesis by simp
  qed
qed

lemma coherent_setList:
  assumes "coh s"
    and "page_fits norm (live (base s)) p z \<Longrightarrow>
      \<exists>us0. list_all2 repr us us0 \<and> page_result norm (live (base s)) p z us0 n"
  shows "coh (s\<lparr>cache :=
    cache_Set cops (cache s) (cacheKeyList (listVer s) p z) (enc_list cd (us, n))\<rparr>)"
proof -
  let ?k = "cacheKeyList (listVer s) p z"
  let ?c = "cache_Set cops (cache s) ?k (enc_list cd (us, n))"
  note set = cache_set [of "cache s" ?k "enc_list cd (us, n)"]
  have other: "entries ?c k \<subseteq> entries (cache s) k" if "k \<noteq> ?k" for k
    using set [of k] that by simp
  have "users_coherent cd rp (live (base s)) (entries ?c)"
    using assms(1) other unfolding coherent_def users_coherent_def
    by (meson cacheKeyList_not_User(2) subsetD)
  moreover have "versions_fresh (listVer s) (entries ?c)"
    using assms(1) other unfolding coherent_def versions_fresh_def
    by (metis cacheKeyList_inject nat_neq_iff subset_empty)
  moreover have "lists_coherent cd rp norm (live (base s)) (listVer s) (entries ?c)"
    unfolding lists_coherent_def
  proof (intro allI impI)
    fix p' z' a vs m
    assume a: "a \<in> entries ?c (cacheKeyList (listVer s) p' z')" "dec_list cd a = Some (vs, m)"
      and fits: "page_fits norm (live (base s)) p' z'"
    show "\<exists>us0. list_all2 rp vs us0 \<and> page_result norm (live (base s)) p' z' us0 m"
    proof (cases "p' = p \<and> z' = z")
      case True
      with a set [of ?k] have "a = wire (enc_list cd (us, n))" by auto
      with a(2) have vs: "vs = map jsoned us" "m = n" using dec_wire_list by blast+
      from assms(2) fits True obtain us0 where
          us0: "list_all2 repr us us0" "page_result norm (live (base s)) p z us0 n" by blast
      from us0(1) have "list_all2 rp vs us0"
        unfolding vs(1) list_all2_map1 by (rule list_all2_mono) (auto simp: cached_repr_def)
      with us0(2) vs(2) True show ?thesis by blast
    next
      case False
      then have "a \<in> entries (cache s) (cacheKeyList (listVer s) p' z')"
        using other a(1) by (meson cacheKeyList_inject subsetD)
      with assms(1) a(2) fits show ?thesis unfolding coherent_def lists_coherent_def by blast
    qed
  qed
  ultimately show ?thesis using assms(1) by (simp add: coherent_def)
qed

lemma cached_list:
  assumes "wf_env e" "coh s" "cached_List svc cops cd e s p z = (s', l)"
  shows "coh s' \<and> live (base s') = live (base s)"
    and "page_fits norm (live (base s)) p z \<Longrightarrow>
       (case l of
          Ok v \<Rightarrow> \<exists>us. list_all2 rp (fst v) us \<and> page_result norm (live (base s)) p z us (snd v)
        | Err f \<Rightarrow> opaque f
        | Panic q \<Rightarrow> False)"
proof -
  let ?k = "cacheKeyList (listVer s) p z"
  let ?fits = "page_fits norm (live (base s)) p z"
  have inv: "inv (base s)" using assms(2) by (simp add: coherent_def)
  obtain c v where c: "cache_Get cops (cache s) ?k = (c, v)" by fastforce
  note got = cache_get [OF c]
  have coh: "coh (s\<lparr>cache := c\<rparr>)" using coherent_less [OF assms(2), of c] got by blast
  have "(coh s' \<and> live (base s') = live (base s)) \<and>
    (?fits \<longrightarrow> (case l of
          Ok v \<Rightarrow> \<exists>us. list_all2 rp (fst v) us \<and> page_result norm (live (base s)) p z us (snd v)
        | Err f \<Rightarrow> opaque f
        | Panic q \<Rightarrow> False))"
  proof (cases "Option.bind v (dec_list cd)")
    case (Some w)
    then obtain b us n where b: "v = Some b" "dec_list cd b = Some (us, n)" "w = (us, n)"
      by (cases w) (auto split: Option.bind_splits)
    then have x: "s' = s\<lparr>cache := c\<rparr>" "l = Ok (us, n)"
      using assms(3) by (simp_all add: cached_List_def c)
    have "b \<in> entries (cache s) ?k" using got b by blast
    with assms(2) b(2) have "?fits \<longrightarrow>
        (\<exists>us0. list_all2 rp us us0 \<and> page_result norm (live (base s)) p z us0 n)"
      unfolding coherent_def lists_coherent_def by blast
    with x coh show ?thesis by simp
  next
    case None
    obtain b y where y: "svc_List svc e (base s) p z = (b, y)" by fastforce
    note st = list_state [OF assms(1) inv y]
    note res = listed [OF assms(1) inv _ y]
    have coh': "coh (s\<lparr>cache := c, base := b\<rparr>)" using coherent_base [OF coh] st by simp
    show ?thesis
    proof (cases y)
      case (Ok ut)
      obtain us n where ut: "ut = (us, n)" by fastforce
      have x: "s' = s\<lparr>cache := c, base := b\<rparr>\<lparr>cache := cache_Set cops c ?k (enc_list cd (us, n))\<rparr>"
          "l = Ok (us, n)"
        using assms(3) None y Ok ut by (simp_all add: cached_List_def c)
      have fits: "?fits \<Longrightarrow> \<exists>us0. list_all2 repr us us0 \<and> page_result norm (live (base s)) p z us0 n"
        using res Ok ut by simp
      have "coh s'"
        unfolding x(1) using coherent_setList [OF coh', of p z us n] fits st by simp
      moreover have "\<exists>us0. list_all2 rp us us0 \<and> page_result norm (live (base s)) p z us0 n" if ?fits
      proof -
        have "list_all2 rp us us0" if "list_all2 repr us us0" for us0
          using that by (rule list_all2_mono) (simp add: cached_repr_def)
        with fits [OF that] show ?thesis by blast
      qed
      ultimately show ?thesis using x st by simp
    next
      case (Err f)
      then have "s' = s\<lparr>cache := c, base := b\<rparr>" "l = Err f"
        using assms(3) None y by (simp_all add: cached_List_def c)
      with coh' st res Err show ?thesis by simp
    next
      case (Panic q)
      then have "s' = s\<lparr>cache := c, base := b\<rparr>" "l = Panic q"
        using assms(3) None y by (simp_all add: cached_List_def c)
      with coh' st res Panic show ?thesis by auto
    qed
  qed
  then show "coh s' \<and> live (base s') = live (base s)"
    and "?fits \<Longrightarrow> (case l of
          Ok v \<Rightarrow> \<exists>us. list_all2 rp (fst v) us \<and> page_result norm (live (base s)) p z us (snd v)
        | Err f \<Rightarrow> opaque f
        | Panic q \<Rightarrow> False)"
    by blast+
qed

lemma cached_get_calm:
  assumes "wf_env e" "calm e" "coh s"
  shows "case live (base s) i of
      None \<Rightarrow> snd (cached_Get svc cops cd e s i) = Err ErrNotFound
    | Some u \<Rightarrow> is_ok (snd (cached_Get svc cops cd e s i))"
  using assms(3)
proof (cases rule: getUser_cases [where i = i])
  case hit
  then show ?thesis by (simp add: cached_Get_def)
next
  case (miss c)
  obtain b y where y: "svc_Get svc e (base s) i = (b, y)" by fastforce
  have "inv (base s)" using assms(3) by (simp add: coherent_def)
  from get_calm [OF assms(1,2) this, of i] y miss(1) show ?thesis
    by (auto simp: cached_Get_def elim: is_okE split: option.splits)
qed

lemma cached_delete_calm:
  assumes "wf_env e" "calm e" "coh s"
  shows "snd (cached_Delete svc cops cd e s i) =
    (case live (base s) i of None \<Rightarrow> Err ErrNotFound | Some u \<Rightarrow> Ok ())"
proof -
  obtain b y where y: "svc_Delete svc e (base s) i = (b, y)" by fastforce
  have "inv (base s)" using assms(3) by (simp add: coherent_def)
  from delete_calm [OF assms(1,2) this, of i] y show ?thesis
    by (auto simp: cached_Delete_def split: option.splits)
qed

lemma cached_contract:
  "user_service (cached_ops svc cops cd) (\<lambda>s. live (base s)) coh stored norm rp (room_left room)"
proof (unfold_locales, goal_cases)
  case (6 e s name email s' x)
  then show ?case using cached_create [of e s name email s' x] by simp
next
  case (7 e s i s' x)
  then show ?case using cached_get [of e s i s' x] by simp
next
  case (8 e s i)
  then show ?case using cached_get_calm [of e s i] by (simp split: option.splits)
next
  case (9 e s i nm em s' x)
  then show ?case using cached_update [of e s i nm em s' x] by simp
next
  case (10 e s i s' y)
  then show ?case using cached_delete [of e s i s' y] by simp
next
  case (11 e s i)
  then show ?case using cached_delete_calm [of e s i] by simp
next
  case (12 e s p z s' l)
  then show ?case using cached_list(2) [of e s p z s' l] by simp
next
  case (13 e s p z s' l)
  then show ?case using cached_list(1) [of e s p z s' l] by simp
next
  case (14 w u)
  then show ?case using repr_ID jsoned_ID stored_fields(1) by (auto simp: cached_repr_def)
next
  case (5 s i u)
  then show ?case using live_wf [of "base s" i u] by (simp add: coherent_def)
qed (simp_all add: stored_fields)

text \<open>The decorator starts coherent when its cache starts empty.\<close>

lemma coherent_start:
  assumes "inv b" "\<And>k. entries c k = {}"
  shows "coh \<lparr>base = b, cache = c, listVer = 0\<rparr>"
  using assms by (simp add: coherent_def coherent_defs)

end

end
