(* ===== verification/Cached_Mem.thy ===== *)
theory Cached_Mem
  imports Mem_Service Cached_Service
begin

text \<open>
  The caching decorator over the in-memory service and the two-level cache, as
  \<open>cmd/server/main.go\<close> stacks them: a serialisation with the round trip the decorator relies on, the
  contract of the stack, and what a client sees through it, cache failures included.
\<close>

subsection \<open>A serialisation\<close>

text \<open>
  An instance of the codec parameter, for evaluating the model: self-delimiting encodings, each
  followed by the rest of the input, in place of JSON.
\<close>

fun put_nat :: "nat \<Rightarrow> string \<Rightarrow> string" where
  "put_nat n rest =
     (if n = 0 then CHR '';'' # rest
      else (if odd n then CHR ''1'' else CHR ''0'') # put_nat (n div 2) rest)"

declare put_nat.simps [simp del]

fun take_nat :: "string \<Rightarrow> (nat \<times> string) option" where
  "take_nat [] = None"
| "take_nat (c # cs) =
     (if c = CHR '';'' then Some (0, cs)
      else map_option (map_prod (\<lambda>n. 2 * n + of_bool (c = CHR ''1'')) (\<lambda>r. r)) (take_nat cs))"

lemma take_put_nat [simp]: "take_nat (put_nat n rest) = Some (n, rest)"
proof (induction n rest rule: put_nat.induct)
  case (1 n rest)
  show ?case
  proof (cases "n = 0")
    case True
    then show ?thesis by (subst put_nat.simps) simp
  next
    case False
    have "2 * (n div 2) + of_bool (odd n) = n" by (cases "odd n") (simp_all add: even_iff_mod_2_eq_zero odd_iff_mod_2_eq_one)
    with 1 [OF False] False show ?thesis by (subst put_nat.simps) simp
  qed
qed

definition put_int :: "int \<Rightarrow> string \<Rightarrow> string" where
  "put_int k rest = (if k < 0 then CHR ''-'' else CHR ''+'') # put_nat (nat \<bar>k\<bar>) rest"

fun take_int :: "string \<Rightarrow> (int \<times> string) option" where
  "take_int [] = None"
| "take_int (c # cs) =
     map_option (map_prod (\<lambda>n. if c = CHR ''-'' then - int n else int n) (\<lambda>r. r)) (take_nat cs)"

lemma take_put_int [simp]: "take_int (put_int k rest) = Some (k, rest)"
  by (simp add: put_int_def)

fun put_string :: "string \<Rightarrow> string \<Rightarrow> string" where
  "put_string [] rest = CHR '';'' # rest"
| "put_string (c # cs) rest = CHR ''.'' # c # put_string cs rest"

fun take_string :: "string \<Rightarrow> (string \<times> string) option" where
  "take_string (t # c # cs) =
     (if t = CHR ''.'' then map_option (map_prod ((#) c) (\<lambda>r. r)) (take_string cs)
      else Some ([], c # cs))"
| "take_string [t] = Some ([], [])"
| "take_string [] = None"

lemma take_put_string [simp]: "take_string (put_string s rest) = Some (s, rest)"
proof (induction s)
  case Nil
  then show ?case by (cases rest) simp_all
next
  case (Cons c s)
  then show ?case by simp
qed

definition put_user :: "user \<Rightarrow> string \<Rightarrow> string" where
  "put_user u rest =
     put_nat (unat (ID u)) (put_string (Name u) (put_string (Email u)
       (put_int (CreatedAt u) (put_int (UpdatedAt u)
         (case DeletedAt u of None \<Rightarrow> CHR ''n'' # rest | Some t \<Rightarrow> CHR ''t'' # put_int t rest)))))"

definition take_user :: "string \<Rightarrow> (user \<times> string) option" where
  "take_user s =
     Option.bind (take_nat s) (\<lambda>(i, s). Option.bind (take_string s) (\<lambda>(n, s).
     Option.bind (take_string s) (\<lambda>(m, s). Option.bind (take_int s) (\<lambda>(c, s).
     Option.bind (take_int s) (\<lambda>(u, s).
       let w = \<lambda>d. \<lparr>ID = of_nat i, Name = n, Email = m, CreatedAt = c, UpdatedAt = u, DeletedAt = d\<rparr>
       in case s of
            [] \<Rightarrow> None
          | f # s \<Rightarrow> if f = CHR ''n'' then Some (w None, s)
                      else map_option (map_prod (\<lambda>t. w (Some t)) (\<lambda>r. r)) (take_int s))))))"

lemma take_put_user [simp]: "take_user (put_user u rest) = Some (u, rest)"
  by (cases u) (simp add: take_user_def put_user_def split: option.split)

fun put_users :: "user list \<Rightarrow> string \<Rightarrow> string" where
  "put_users [] rest = rest"
| "put_users (u # us) rest = put_user u (put_users us rest)"

fun take_users :: "nat \<Rightarrow> string \<Rightarrow> (user list \<times> string) option" where
  "take_users 0 s = Some ([], s)"
| "take_users (Suc k) s =
     Option.bind (take_user s) (\<lambda>(u, s). map_option (map_prod ((#) u) (\<lambda>r. r)) (take_users k s))"

lemma take_put_users [simp]: "take_users (length us) (put_users us rest) = Some (us, rest)"
  by (induction us) simp_all

definition sample_codec :: codec where
  "sample_codec =
     \<lparr>enc_user = (\<lambda>u. Some (put_user u [])),
      dec_user = (\<lambda>b. map_option fst (take_user b)),
      enc_list = (\<lambda>(us, n). Some (put_int (sint n) (put_nat (length us) (put_users us [])))),
      dec_list = (\<lambda>b. Option.bind (take_int b) (\<lambda>(n, b). Option.bind (take_nat b) (\<lambda>(k, b).
        map_option (\<lambda>r. (fst r, word_of_int n)) (take_users k b)))),
      id_string = (\<lambda>i. show_nat (unat i))\<rparr>"

subsection \<open>The stack\<close>

abbreviation mem_cache_ops :: "(bounded, server) layered cache_ops" where
  "mem_cache_ops \<equiv> layered_ops bounded_ops server_ops"

abbreviation mem_entries :: "(bounded, server) layered \<Rightarrow> string \<Rightarrow> string set" where
  "mem_entries \<equiv> layered_entries (\<lambda>c. map_of (items c)) map_of"

interpretation cached_mem: cached_service mem_service mem_live mem_inv "\<lambda>u. u" mem_norm "(=)"
    "\<lambda>r. True" mem_cache_ops mem_entries sample_codec "\<lambda>u. u"
proof (unfold_locales, goal_cases)
  case (1 u b)
  then show ?case by (auto simp: sample_codec_def)
next
  case (2 us n b)
  then show ?case by (auto simp: sample_codec_def)
next
  case 3
  show ?case by (simp add: sample_codec_def take_user_def)
next
  case 4
  show ?case by (simp add: sample_codec_def)
next
  case 5
  show ?case by (auto simp: sample_codec_def inj_def intro: unsigned_word_eqI)
qed simp

abbreviation mem_cached_ops :: "((mem_repo, (bounded, server) layered) cached, unit) svc_ops" where
  "mem_cached_ops \<equiv> cached_ops mem_service mem_cache_ops sample_codec"

definition mem_coherent :: "(mem_repo, (bounded, server) layered) cached \<Rightarrow> bool" where
  "mem_coherent = coherent mem_live mem_inv mem_norm sample_codec (=) mem_entries"

lemma cached_repr_eq [simp]: "cached_repr (\<lambda>u. u) (=) (\<lambda>u. u) = (=)"
  by (auto simp: fun_eq_iff cached_repr_def)

interpretation cached_mem_svc: user_service mem_cached_ops "\<lambda>s. mem_live (base s)" mem_coherent
    "\<lambda>u. u" mem_norm "(=)" "room_left (\<lambda>r. True)"
  using cached_mem.cached_contract by (simp add: mem_coherent_def)

lemma mem_coherentD:
  "mem_coherent s \<Longrightarrow> coherent mem_live mem_inv mem_norm sample_codec
     (cached_repr (\<lambda>u. u) (=) (\<lambda>u. u)) mem_entries s"
  by (simp add: mem_coherent_def)

definition empty_cache :: "(bounded, server) layered" where
  "empty_cache = \<lparr>local = \<lparr>capacity = 2, items = []\<rparr>, redis = Some [], ttl = 300\<rparr>"

definition cached_start :: "(mem_repo, (bounded, server) layered) cached" where
  "cached_start = \<lparr>base = NewInMemoryUserRepo, cache = empty_cache, listVer = 0\<rparr>"

lemma NewCachedUserService_start:
  "NewCachedUserService NewInMemoryUserRepo (Some empty_cache) = Inr cached_start"
  by (simp add: NewCachedUserService_def cached_start_def)

lemma mem_coherent_start [simp]: "mem_coherent cached_start"
  unfolding mem_coherent_def cached_start_def
  using cached_mem.coherent_start [of NewInMemoryUserRepo empty_cache]
  by (simp add: layered_entries_def empty_cache_def)

subsection \<open>Histories of service calls\<close>

text \<open>
  The same answer; for pages, where users created at the same instant may be ordered either way,
  both are the asked page of the same users.
\<close>

definition same_answer :: "svc_call \<Rightarrow> mem_repo \<Rightarrow> svc_answer \<Rightarrow> svc_answer \<Rightarrow> bool" where
  "same_answer c r a a' \<longleftrightarrow>
     (case c of
        ListUsers p z \<Rightarrow> page_fits mem_norm (mem_live r) p z \<longrightarrow>
          (\<exists>us n us' n'. a = APage (Ok (us, n)) \<and> a' = APage (Ok (us', n')) \<and>
             page_result mem_norm (mem_live r) p z us n \<and>
             page_result mem_norm (mem_live r) p z us' n')
      | c \<Rightarrow> a = a')"

fun same_answers :: "(env \<times> svc_call) list \<Rightarrow> mem_repo \<Rightarrow> svc_answer list \<Rightarrow> svc_answer list \<Rightarrow> bool"
where
  "same_answers [] r as as' \<longleftrightarrow> as = [] \<and> as' = []"
| "same_answers ((e, c) # cs) r (a # as) (a' # as') \<longleftrightarrow>
     same_answer c r a a' \<and> same_answers cs (fst (svc_step mem_service e c r)) as as'"
| "same_answers ((e, c) # cs) r as as' \<longleftrightarrow> False"

lemma mem_service_List_state: "fst (service_List mem_ops e r p z) = r"
  using mem.list_state by (simp add: service_List_def)

lemma mem_page_answer:
  assumes "wf_env e" "mem_inv r" "page_fits mem_norm (mem_live r) p z"
  obtains us n where "service_List mem_ops e r p z = (r, Ok (us, n))"
    "page_result mem_norm (mem_live r) p z us n"
proof -
  obtain us n where l: "service_List mem_ops e r p z = (r, Ok (us, n))"
    using mem_List_fits [OF assms] by (simp add: service_List_def)
  with mem_svc.listed [of e r p z r "Ok (us, n)"] assms that show ?thesis
    by (auto simp: list.rel_eq)
qed

lemma cached_get_step:
  assumes "wf_env e" "mem_coherent s"
  shows "base (fst (cached_Get mem_service mem_cache_ops sample_codec e s i)) = base s \<and>
    snd (cached_Get mem_service mem_cache_ops sample_codec e s i) =
      snd (service_Get mem_ops e (base s) i) \<and>
    fst (service_Get mem_ops e (base s) i) = base s"
  using mem_coherentD [OF assms(2)]
proof (cases rule: cached_mem.getUser_cases [where i = i])
  case (hit c w u0)
  then show ?thesis by (simp add: cached_Get_def service_Get_def mem_Get_live)
next
  case (miss c)
  then show ?thesis
    by (simp add: cached_Get_def service_Get_def mem_Get_live setUser_def split: option.split)
qed

lemma listVer_setUser [simp]: "listVer (setUser cops cd s u) = listVer s"
  by (simp add: setUser_def)

lemma listVer_delUser [simp]: "listVer (delUser cops cd s i) = listVer s" "base (delUser cops cd s i) = base s"
  by (simp_all add: delUser_def)

lemma listVer_bump: "listVer s \<noteq> - 1 \<Longrightarrow> unat (listVer (bump s)) = Suc (unat (listVer s))"
  by (simp add: bump_def unat_inc)

lemma cached_List_frame:
  assumes "cached_List svc cops cd e s p z = (s', l)"
  shows "listVer s' = listVer s \<and> (base s' = base s \<or> base s' = fst (svc_List svc e (base s) p z)) \<and>
    (is_ok l \<or> l = snd (svc_List svc e (base s) p z))"
proof -
  obtain c v where "cache_Get cops (cache s) (cacheKeyList (listVer s) p z) = (c, v)" by fastforce
  moreover obtain b y where "svc_List svc e (base s) p z = (b, y)" by fastforce
  ultimately show ?thesis
    using assms by (cases "Option.bind v (dec_list cd)"; cases y) (auto simp: cached_List_def)
qed

text \<open>One call: the decorated and the plain service go to the same state and give the same answer.\<close>

lemma cached_step:
  assumes "wf_env e" "mem_coherent s" "listVer s \<noteq> - 1"
    and "svc_step mem_cached_ops e c s = (s', a)" "svc_step mem_service e c (base s) = (r', a')"
  shows "mem_coherent s' \<and> base s' = r' \<and> same_answer c (base s) a a' \<and>
    unat (listVer s') \<le> Suc (unat (listVer s))"
proof -
  have coh: "mem_coherent s'"
    using cached_mem_svc.step_inv [OF assms(1) _ assms(2,4)] assms(3) by simp
  show ?thesis
  proof (cases c)
  case (CreateUser n m)
  obtain b x where b: "service_Create mem_ops e (base s) n m = (b, x)" by fastforce
  note coh
  moreover have "base s' = r' \<and> a = a' \<and> unat (listVer s') \<le> Suc (unat (listVer s))"
    using assms(3-5) b
    by (auto simp: CreateUser cached_Create_def listVer_bump split: res.splits)
  ultimately show ?thesis by (simp add: same_answer_def CreateUser)
next
  case (GetUser i)
  note coh
  moreover have "base s' = r' \<and> a = a'"
    using cached_get_step [OF assms(1,2), of i] assms(4,5)
    by (cases "cached_Get mem_service mem_cache_ops sample_codec e s i";
        cases "service_Get mem_ops e (base s) i") (auto simp: GetUser)
  moreover have "listVer s' = listVer s"
    using assms(4) by (auto simp: GetUser cached_Get_def getUser_def split: prod.splits res.splits option.splits)
  ultimately show ?thesis by (simp add: same_answer_def GetUser)
next
  case (UpdateUser i n m)
  obtain b x where b: "service_Update mem_ops e (base s) i n m = (b, x)" by fastforce
  note coh
  moreover have "base s' = r' \<and> a = a' \<and> unat (listVer s') \<le> Suc (unat (listVer s))"
    using assms(3-5) b
    by (auto simp: UpdateUser cached_Update_def listVer_bump split: res.splits)
  ultimately show ?thesis by (simp add: same_answer_def UpdateUser)
next
  case (DeleteUser i)
  obtain b x where b: "service_Delete mem_ops e (base s) i = (b, x)" by fastforce
  note coh
  moreover have "base s' = r' \<and> a = a' \<and> unat (listVer s') \<le> Suc (unat (listVer s))"
    using assms(3-5) b
    by (auto simp: DeleteUser cached_Delete_def listVer_bump split: res.splits)
  ultimately show ?thesis by (simp add: same_answer_def DeleteUser)
next
  case (ListUsers p z)
  obtain l where l: "cached_List mem_service mem_cache_ops sample_codec e s p z = (s', l)" "a = APage l"
    using assms(4) by (cases "cached_List mem_service mem_cache_ops sample_codec e s p z") (auto simp: ListUsers)
  have inv: "mem_inv (base s)" using assms(2) by (simp add: mem_coherent_def coherent_def)
  note coh
  moreover have "base s' = r'" "listVer s' = listVer s"
    using l assms(5) mem_service_List_state [of e "base s" p z]
      cached_List_frame [OF l(1)]
    by (cases "service_List mem_ops e (base s) p z"; force simp: ListUsers)+
  moreover have "same_answer c (base s) a a'"
    unfolding same_answer_def ListUsers svc_call.case
  proof
    assume fits: "page_fits mem_norm (mem_live (base s)) p z"
    obtain us' n' where "service_List mem_ops e (base s) p z = (base s, Ok (us', n'))"
        and page: "page_result mem_norm (mem_live (base s)) p z us' n'"
      by (rule mem_page_answer [OF assms(1) inv fits])
    with assms(5) cached_List_frame [OF l(1)] have "a' = APage (Ok (us', n'))" "is_ok l"
      by (auto simp: ListUsers)
    note this page
    moreover have "\<exists>us n. l = Ok (us, n) \<and> page_result mem_norm (mem_live (base s)) p z us n"
      using cached_mem_svc.listed [OF assms(1,2) fits] l(1) \<open>is_ok l\<close>
      by (cases l) (auto simp: list.rel_eq)
    ultimately show "\<exists>us n us' n'. a = APage (Ok (us, n)) \<and> a' = APage (Ok (us', n')) \<and>
             page_result mem_norm (mem_live (base s)) p z us n \<and>
             page_result mem_norm (mem_live (base s)) p z us' n'"
      using l(2) by blast
  qed
  ultimately show ?thesis by simp
qed
qed

lemma svc_run_same:
  assumes "list_all (\<lambda>(e, c). wf_env e) cs" "mem_coherent s"
    and "unat (listVer s) + length cs < 2 ^ 64"
  shows "case svc_run mem_cached_ops s cs of (s', as) \<Rightarrow>
      case svc_run mem_service (base s) cs of (r', as') \<Rightarrow>
        mem_coherent s' \<and> base s' = r' \<and> same_answers cs (base s) as as'"
  using assms
proof (induction cs arbitrary: s)
  case Nil
  then show ?case by simp
next
  case (Cons ec cs)
  obtain e c where ec: "ec = (e, c)" by fastforce
  obtain s1 a where s1: "svc_step mem_cached_ops e c s = (s1, a)" by fastforce
  obtain r1 a' where r1: "svc_step mem_service e c (base s) = (r1, a')" by fastforce
  have "unat (listVer s) \<noteq> unat (- 1 :: go_uint64)"
    using Cons.prems(3) by (simp add: unsigned_minus_1_eq_mask mask_eq_exp_minus_1)
  then have ver: "listVer s \<noteq> - 1" by metis
  have "wf_env e" using Cons.prems(1) ec by simp
  note step = cached_step [OF this Cons.prems(2) ver s1 r1]
  have "case svc_run mem_cached_ops s1 cs of (s', as) \<Rightarrow>
      case svc_run mem_service (base s1) cs of (r', as') \<Rightarrow>
        mem_coherent s' \<and> base s' = r' \<and> same_answers cs (base s1) as as'"
    using Cons.prems step ec by (intro Cons.IH) auto
  with step show ?case by (auto simp: ec s1 r1 split: prod.splits)
qed

subsection \<open>Properties\<close>

text \<open>
  C3: The caching decorator, over any service that keeps the service contract, any lossy cache and a
  codec that decodes what it encoded, keeps the service contract of what it wraps: lookups, pages
  and errors are those of the wrapped service's live users up to the JSON image, as long as the
  64-bit page version does not wrap.
\<close>

theorem cached_refines:
  assumes "cached_service svc live good stored norm repr room cops entries cd jsoned"
  shows "user_service (cached_ops svc cops cd) (\<lambda>s. live (base s))
    (coherent live good norm cd (cached_repr stored repr jsoned) entries) stored norm
    (cached_repr stored repr jsoned) (room_left room)"
  using assms by (rule cached_service.cached_contract)

theorem cached_refines_witness:
  "user_service mem_cached_ops (\<lambda>s. mem_live (base s))
    (coherent mem_live mem_inv mem_norm sample_codec (cached_repr (\<lambda>u. u) (=) (\<lambda>u. u)) mem_entries)
    (\<lambda>u. u) mem_norm (cached_repr (\<lambda>u. u) (=) (\<lambda>u. u)) (room_left (\<lambda>r. True))"
  by (rule cached_refines [OF cached_mem.cached_service_axioms])



end
