(* ===== verification/Cached_Faults.thy ===== *)
theory Cached_Faults
  imports Cached_Mem
begin

text \<open>
  A Redis write that fails, whose error \<open>internal/cache/cache.go\<close> drops.
\<close>

text \<open>A server that answers reads and refuses writes, as a read-only replica does.\<close>

definition readonly_ops :: "server redis_ops" where
  "readonly_ops =
     server_ops\<lparr>redis_Set := (\<lambda>d k b t. (d, Some (ErrorNew ''READONLY''))),
       redis_Del := (\<lambda>d k. (d, Some (ErrorNew ''READONLY'')))\<rparr>"

text \<open>
  When Redis holds a user and refuses the deletion of its key, a deletion still answers
  success, and once the local level has dropped its entry every lookup goes on returning the
  deleted user from Redis.
\<close>

theorem deleted_user_served:
  assumes "svc_Delete svc e (base s) i = (b, Ok v)"
    and "redis (cache s) = Some d" "redis_Del rops d (cacheKeyUser cd i) = (d, Some f)"
    and "redis_Get rops d (cacheKeyUser cd i) = (d, Inr x)" "dec_user cd x = Some w"
    and "local_Get lops (local_Del lops (local (cache s)) (cacheKeyUser cd i)) (cacheKeyUser cd i) =
      (l, None)"
  shows "snd (cached_Delete svc (layered_ops lops rops) cd e s i) = Ok () \<and>
    snd (cached_Get svc (layered_ops lops rops) cd e'
      (fst (cached_Delete svc (layered_ops lops rops) cd e s i)) i) = Ok w"
  using assms
  by (simp add: cached_Delete_def cached_Get_def getUser_def delUser_def bump_def
      layered_Delete_def layered_Get_def)

theorem deleted_user_served_witness:
  "snd (cached_Get mem_service (layered_ops bounded_ops readonly_ops) sample_codec sample_env
      (fst (cached_Delete mem_service (layered_ops bounded_ops readonly_ops) sample_codec sample_env
        \<lparr>base = \<lparr>users = [(1, alice)]\<rparr>,
         cache = \<lparr>local = \<lparr>capacity = 2, items = []\<rparr>,
                  redis = Some [(cacheKeyUser sample_codec 1, put_user alice [])], ttl = 300\<rparr>,
         listVer = 0\<rparr> 1)) 1) = Ok alice"
  by (rule conjunct2 [OF deleted_user_served [where d = "[(cacheKeyUser sample_codec 1, put_user alice [])]"
          and x = "put_user alice []" and f = "ErrorNew ''READONLY''"
          and l = "\<lparr>capacity = 2, items = []\<rparr>" and v = "()"
          and b = "\<lparr>users = [(1, alice\<lparr>DeletedAt := Some 1000\<rparr>)]\<rparr>"]])
    (simp_all add: service_Delete_def mem_Delete_def readonly_ops_def server_ops_def bounded_ops_def
      bounded_Del_def sample_codec_def)

end
