(* ===== verification/Cached_Steps.thy ===== *)
theory Cached_Steps
  imports Cached_Mem
begin

text \<open>
  The calls of \<open>internal/core/cached_usersvc.go\<close> as requests run them at the same time. A running call
  is the rest of it, and a step takes it to its next access of what requests share: one operation of
  the cache, one method of the repository (which holds its mutex), one access of \<open>listVer\<close>. So
  \<open>Update\<close> of \<open>internal/core/usersvc.go\<close>, which reads and then writes, is two steps.
\<close>

subsection \<open>Running calls\<close>

datatype running =
    Pending svc_call
  | GetBase uuid
  | UpdateRepo uuid "string option" "string option" user
  | UpdateDel uuid user
  | BumpThenSet user
  | SetThenReturn user
  | DeleteDel uuid
  | DeleteBump
  | ListLookup go_int go_int string
  | ListBase go_int go_int string
  | ListSet string "user list \<times> go_int"
  | Finished svc_answer

fun advance ::
  "'r repo_ops \<Rightarrow> 'c cache_ops \<Rightarrow> codec \<Rightarrow> env \<Rightarrow> running \<Rightarrow> ('r, 'c) cached \<Rightarrow>
   ('r, 'c) cached \<times> running"
where
  "advance repo cops cd e (Pending (CreateUser name email)) s =
     (case service_Create repo e (base s) name email of
        (b, Ok u) \<Rightarrow> (s\<lparr>base := b\<rparr>, BumpThenSet u)
      | (b, Err f) \<Rightarrow> (s\<lparr>base := b\<rparr>, Finished (AnUser (Err f)))
      | (b, Panic q) \<Rightarrow> (s\<lparr>base := b\<rparr>, Finished (AnUser (Panic q))))"
| "advance repo cops cd e (Pending (GetUser i)) s =
     (case getUser cops cd s i of
        (s, Some u) \<Rightarrow> (s, Finished (AnUser (Ok u)))
      | (s, None) \<Rightarrow> (s, GetBase i))"
| "advance repo cops cd e (GetBase i) s =
     (case service_Get repo e (base s) i of
        (b, Ok u) \<Rightarrow> (s\<lparr>base := b\<rparr>, SetThenReturn u)
      | (b, Err f) \<Rightarrow> (s\<lparr>base := b\<rparr>, Finished (AnUser (Err f)))
      | (b, Panic q) \<Rightarrow> (s\<lparr>base := b\<rparr>, Finished (AnUser (Panic q))))"
| "advance repo cops cd e (Pending (UpdateUser i name email)) s =
     (case repo_Get repo e (base s) i of
        (b, Ok u) \<Rightarrow> (s\<lparr>base := b\<rparr>, UpdateRepo i name email u)
      | (b, Err f) \<Rightarrow> (s\<lparr>base := b\<rparr>, Finished (AnUser (Err f)))
      | (b, Panic q) \<Rightarrow> (s\<lparr>base := b\<rparr>, Finished (AnUser (Panic q))))"
| "advance repo cops cd e (UpdateRepo i name email u) s =
     (case apply_patch e u name email of
        Err f \<Rightarrow> (s, Finished (AnUser (Err f)))
      | Panic q \<Rightarrow> (s, Finished (AnUser (Panic q)))
      | Ok u \<Rightarrow>
          let u = u\<lparr>UpdatedAt := now e\<rparr>
          in case repo_Update repo e (base s) u of
               (b, Ok v) \<Rightarrow> (s\<lparr>base := b\<rparr>, UpdateDel i u)
             | (b, Err f) \<Rightarrow> (s\<lparr>base := b\<rparr>, Finished (AnUser (Err f)))
             | (b, Panic q) \<Rightarrow> (s\<lparr>base := b\<rparr>, Finished (AnUser (Panic q))))"
| "advance repo cops cd e (UpdateDel i u) s = (delUser cops cd s i, BumpThenSet u)"
| "advance repo cops cd e (BumpThenSet u) s = (bump s, SetThenReturn u)"
| "advance repo cops cd e (SetThenReturn u) s = (setUser cops cd s u, Finished (AnUser (Ok u)))"
| "advance repo cops cd e (Pending (DeleteUser i)) s =
     (case service_Delete repo e (base s) i of
        (b, Ok v) \<Rightarrow> (s\<lparr>base := b\<rparr>, DeleteDel i)
      | (b, Err f) \<Rightarrow> (s\<lparr>base := b\<rparr>, Finished (Done (Err f)))
      | (b, Panic q) \<Rightarrow> (s\<lparr>base := b\<rparr>, Finished (Done (Panic q))))"
| "advance repo cops cd e (DeleteDel i) s = (delUser cops cd s i, DeleteBump)"
| "advance repo cops cd e DeleteBump s = (bump s, Finished (Done (Ok ())))"
| "advance repo cops cd e (Pending (ListUsers page pageSize)) s =
     (s, ListLookup page pageSize (cacheKeyList (listVer s) page pageSize))"
| "advance repo cops cd e (ListLookup page pageSize key) s =
     (case cache_Get cops (cache s) key of
        (c, v) \<Rightarrow>
          (s\<lparr>cache := c\<rparr>,
           case Option.bind v (dec_list cd) of
             Some wrap \<Rightarrow> Finished (APage (Ok wrap))
           | None \<Rightarrow> ListBase page pageSize key))"
| "advance repo cops cd e (ListBase page pageSize key) s =
     (case service_List repo e (base s) page pageSize of
        (b, Ok ut) \<Rightarrow> (s\<lparr>base := b\<rparr>, ListSet key ut)
      | (b, Err f) \<Rightarrow> (s\<lparr>base := b\<rparr>, Finished (APage (Err f)))
      | (b, Panic q) \<Rightarrow> (s\<lparr>base := b\<rparr>, Finished (APage (Panic q))))"
| "advance repo cops cd e (ListSet key ut) s =
     (s\<lparr>cache := cache_Set cops (cache s) key (enc_list cd ut)\<rparr>, Finished (APage (Ok ut)))"
| "advance repo cops cd e (Finished a) s = (s, Finished a)"

lemma five: "((\<lambda>(s, r). advance repo cops cd e r s) ^^ 5) (s, r0) =
    (let (s, r) = advance repo cops cd e r0 s; (s, r) = advance repo cops cd e r s;
         (s, r) = advance repo cops cd e r s; (s, r) = advance repo cops cd e r s
     in advance repo cops cd e r s)"
  by (simp add: numeral_eq_Suc funpow_swap1 case_prod_beta Let_def)


subsection \<open>Requests at the same time\<close>

text \<open>
  A process: the decorator's state that all calls share, the calls that have arrived, and, as history
  variables, how often the list version has been bumped and which states of the store there have
  been after how many bumps.
\<close>

record ('r, 'c) process =
  shared :: "('r, 'c) cached"
  calls :: "running list"
  bumps :: nat
  past :: "(nat \<times> 'r) set"

fun bumps_now :: "running \<Rightarrow> bool" where
  "bumps_now (BumpThenSet u) = True"
| "bumps_now DeleteBump = True"
| "bumps_now r = False"

inductive proc_step ::
  "'r repo_ops \<Rightarrow> 'c cache_ops \<Rightarrow> codec \<Rightarrow> ('r, 'c) process \<Rightarrow> ('r, 'c) process \<Rightarrow> bool"
  for repo cops cd
where
  arrives: "proc_step repo cops cd g (g\<lparr>calls := calls g @ [Pending c]\<rparr>)"
| runs:
    "k < length (calls g) \<Longrightarrow> wf_env e \<Longrightarrow>
     advance repo cops cd e (calls g ! k) (shared g) = (s, r) \<Longrightarrow>
     n = bumps g + of_bool (bumps_now (calls g ! k)) \<Longrightarrow>
     proc_step repo cops cd g
       \<lparr>shared = s, calls = (calls g)[k := r], bumps = n, past = insert (n, base s) (past g)\<rparr>"

inductive_cases proc_stepE: "proc_step repo cops cd g g'"

definition proc_start :: "('r, 'c) cached \<Rightarrow> ('r, 'c) process" where
  "proc_start s = \<lparr>shared = s, calls = [], bumps = 0, past = {(0, base s)}\<rparr>"

text \<open>A schedule: the calls that move, in order, each in the same environment.\<close>

fun proc_run ::
  "'r repo_ops \<Rightarrow> 'c cache_ops \<Rightarrow> codec \<Rightarrow> env \<Rightarrow> ('r, 'c) process \<Rightarrow> nat list \<Rightarrow> ('r, 'c) process"
where
  "proc_run repo cops cd e g [] = g"
| "proc_run repo cops cd e g (k # ks) =
     (let (s, r) = advance repo cops cd e (calls g ! k) (shared g);
          n = bumps g + of_bool (bumps_now (calls g ! k))
      in proc_run repo cops cd e
           \<lparr>shared = s, calls = (calls g)[k := r], bumps = n, past = insert (n, base s) (past g)\<rparr> ks)"

lemma proc_run_steps:
  assumes "wf_env e" "\<forall>k \<in> set ks. k < length (calls g)"
  shows "(proc_step repo cops cd)\<^sup>*\<^sup>* g (proc_run repo cops cd e g ks)"
  using assms(2)
proof (induction ks arbitrary: g)
  case (Cons k ks)
  obtain s r where a: "advance repo cops cd e (calls g ! k) (shared g) = (s, r)" by fastforce
  let ?n = "bumps g + of_bool (bumps_now (calls g ! k))"
  let ?g = "\<lparr>shared = s, calls = (calls g)[k := r], bumps = ?n, past = insert (?n, base s) (past g)\<rparr>"
  have "proc_step repo cops cd g ?g"
    by (rule proc_step.runs [OF _ assms(1) a refl]) (use Cons.prems in simp)
  moreover have "(proc_step repo cops cd)\<^sup>*\<^sup>* ?g (proc_run repo cops cd e ?g ks)"
    by (rule Cons.IH) (use Cons.prems in simp)
  moreover have "proc_run repo cops cd e g (k # ks) = proc_run repo cops cd e ?g ks"
    by (simp add: a Let_def)
  ultimately show ?case by (metis converse_rtranclp_into_rtranclp)
qed simp

lemma proc_run_length: "length (calls (proc_run repo cops cd e g ks)) = length (calls g)"
  by (induction ks arbitrary: g) (simp_all add: Let_def case_prod_beta)

lemma proc_arrivals:
  "(proc_step repo cops cd)\<^sup>*\<^sup>* g (g\<lparr>calls := calls g @ map Pending cs\<rparr>)"
proof (induction cs rule: rev_induct)
  case (snoc c cs)
  from rtranclp.rtrancl_into_rtrancl [OF snoc proc_step.arrives [of repo cops cd _ c]]
  show ?case by simp
qed simp

end
