(* ===== verification/Cached_Lists.thy ===== *)
theory Cached_Lists
  imports Cached_Steps
begin

text \<open>
  What \<open>List\<close> of the caching decorator answers when requests run at the same time over the in-memory
  store: the version number in the key keeps a listing from being older than a change that was
  complete when the call began, for every lossy cache and every serialisation.
\<close>

locale concurrent_cache =
  cached_service mem_service mem_live mem_inv "\<lambda>u. u" mem_norm "(=)" "\<lambda>r. True" cops entries cd jsoned
  for cops :: "'c cache_ops" and entries and cd and jsoned

interpretation mem_concurrent: concurrent_cache mem_cache_ops mem_entries sample_codec "\<lambda>u. u"
  by (rule concurrent_cache.intro) (rule cached_mem.cached_service_axioms)

text \<open>
  \<open>us\<close>, \<open>t\<close> are the page that the store shows; \<open>listed_since\<close>: they were so after at least \<open>m\<close> bumps.
\<close>

definition shows_page :: "mem_repo \<Rightarrow> go_int \<Rightarrow> go_int \<Rightarrow> user list \<Rightarrow> go_int \<Rightarrow> bool" where
  "shows_page r p z us t \<longleftrightarrow>
     (page_fits mem_norm (mem_live r) p z \<longrightarrow> page_result mem_norm (mem_live r) p z us t)"

definition listed_since ::
  "nat \<Rightarrow> (mem_repo, 'c) process \<Rightarrow> go_int \<Rightarrow> go_int \<Rightarrow> user list \<Rightarrow> go_int \<Rightarrow> bool" where
  "listed_since m g p z us t \<longleftrightarrow> (\<exists>(k, r) \<in> past g. m \<le> k \<and> shows_page r p z us t)"

lemma listed_since_mono:
  "listed_since m g p z us t \<Longrightarrow> past g \<subseteq> past g' \<Longrightarrow> m' \<le> m \<Longrightarrow> listed_since m' g' p z us t"
  unfolding listed_since_def by (blast intro: order_trans)

text \<open>
  A call of \<open>List\<close> for page \<open>p\<close> of size \<open>z\<close> that began after \<open>m\<close> bumps: its key carries a version that
  had been reached, the page it has read is not older than that version, nor is its answer.
\<close>

fun listing_from ::
  "(user \<Rightarrow> user) \<Rightarrow> nat \<Rightarrow> (mem_repo, 'c) process \<Rightarrow> go_int \<Rightarrow> go_int \<Rightarrow> running \<Rightarrow> bool" where
  "listing_from jsoned m g p z (Pending c) \<longleftrightarrow> c = ListUsers p z"
| "listing_from jsoned m g p z (ListLookup p' z' key) \<longleftrightarrow>
     (\<exists>v. p' = p \<and> z' = z \<and> key = cacheKeyList v p z \<and> m \<le> unat v \<and> unat v \<le> bumps g)"
| "listing_from jsoned m g p z (ListBase p' z' key) \<longleftrightarrow>
     (\<exists>v. p' = p \<and> z' = z \<and> key = cacheKeyList v p z \<and> m \<le> unat v \<and> unat v \<le> bumps g)"
| "listing_from jsoned m g p z (ListSet key ut) \<longleftrightarrow>
     (\<exists>v. key = cacheKeyList v p z \<and> m \<le> unat v \<and> listed_since (unat v) g p z (fst ut) (snd ut))"
| "listing_from jsoned m g p z (Finished a) \<longleftrightarrow>
     (\<forall>us t. a = APage (Ok (us, t)) \<longrightarrow>
        (\<exists>us0. (us = us0 \<or> us = map jsoned us0) \<and> listed_since m g p z us0 t))"
| "listing_from jsoned m g p z r \<longleftrightarrow> False"

fun lists :: "running \<Rightarrow> bool" where
  "lists (ListLookup p z key) = True"
| "lists (ListBase p z key) = True"
| "lists (ListSet key ut) = True"
| "lists r = False"

definition pages_dated ::
  "('c \<Rightarrow> string \<Rightarrow> string set) \<Rightarrow> codec \<Rightarrow> (user \<Rightarrow> user) \<Rightarrow> 'c \<Rightarrow> (mem_repo, 'c) process \<Rightarrow> bool" where
  "pages_dated entries cd jsoned c g \<longleftrightarrow>
     (\<forall>v p z b us t. b \<in> entries c (cacheKeyList v p z) \<longrightarrow> dec_list cd b = Some (us, t) \<longrightarrow>
        (\<exists>us0. us = map jsoned us0 \<and> listed_since (unat v) g p z us0 t))"

definition process_inv ::
  "('c \<Rightarrow> string \<Rightarrow> string set) \<Rightarrow> codec \<Rightarrow> (user \<Rightarrow> user) \<Rightarrow> (mem_repo, 'c) process \<Rightarrow> bool" where
  "process_inv entries cd jsoned g \<longleftrightarrow>
     mem_inv (base (shared g)) \<and> listVer (shared g) = of_nat (bumps g) \<and>
     (bumps g, base (shared g)) \<in> past g \<and> (\<forall>(k, r) \<in> past g. k \<le> bumps g) \<and>
     pages_dated entries cd jsoned (cache (shared g)) g \<and>
     (\<forall>r \<in> set (calls g). lists r \<longrightarrow> (\<exists>p z. listing_from jsoned 0 g p z r))"

lemma listing_from_mono:
  assumes "listing_from jsoned m g p z r" "past g \<subseteq> past g'" "bumps g \<le> bumps g'"
  shows "listing_from jsoned m g' p z r"
  using assms(1,3) listed_since_mono [OF _ assms(2) order_refl]
  by (cases "(jsoned, m, g, p, z, r)" rule: listing_from.cases) (simp; fastforce)+

lemma pages_datedD:
  assumes "pages_dated entries cd jsoned c g" "b \<in> entries c (cacheKeyList v p z)"
    and "dec_list cd b = Some (us, t)"
  obtains us0 where "us = map jsoned us0" "listed_since (unat v) g p z us0 t"
  using assms unfolding pages_dated_def by blast

lemma pages_dated_mono:
  assumes "pages_dated entries cd jsoned c g" "past g \<subseteq> past g'" "\<And>v p z.
    entries c' (cacheKeyList v p z) \<subseteq> entries c (cacheKeyList v p z)"
  shows "pages_dated entries cd jsoned c' g'"
  using assms(1,3) listed_since_mono [OF _ assms(2) order_refl]
  unfolding pages_dated_def by (meson subsetD)

lemma mem_ops_inv:
  "mem_Create e r u = (r', x) \<Longrightarrow> mem_inv r \<Longrightarrow> mem_inv r'"
  "mem_Get e r i = (r', y) \<Longrightarrow> mem_inv r \<Longrightarrow> mem_inv r'"
  "mem_Update e r u = (r', x) \<Longrightarrow> mem_inv r \<Longrightarrow> mem_inv r'"
  "mem_Delete e r i = (r', x) \<Longrightarrow> mem_inv r \<Longrightarrow> mem_inv r'"
  "mem_List e r p z = (r', w) \<Longrightarrow> mem_inv r \<Longrightarrow> mem_inv r'"
  using mem_call_inv [of r e "CreateCall u"] mem_call_inv [of r e "GetCall i"]
    mem_call_inv [of r e "UpdateCall u"] mem_call_inv [of r e "DeleteCall i"]
    mem_call_inv [of r e "ListCall p z"]
  by simp_all

lemma advance_store:
  assumes "mem_inv (base s)" "advance mem_ops cops cd e r s = (s', r')"
  shows "mem_inv (base s') \<and> listVer s' = listVer s + of_bool (bumps_now r)"
  using assms
  by (cases "(mem_ops, cops, cd, e, r, s)" rule: advance.cases)
    (auto simp: service_Create_def service_Get_def service_Delete_def service_List_def Let_def
      getUser_def setUser_def delUser_def bump_def dest: mem_ops_inv
      split: res.splits option.splits prod.splits if_splits)

context concurrent_cache
begin

abbreviation (input) step where "step \<equiv> proc_step mem_ops cops cd"
abbreviation (input) ok where "ok \<equiv> process_inv entries cd jsoned"
abbreviation (input) dated where "dated \<equiv> pages_dated entries cd jsoned"

text \<open>No step but the last one of a listing puts anything under the key of a list.\<close>

lemma advance_pages:
  assumes "advance mem_ops cops cd e r s = (s', r')"
  shows "(\<exists>key ut. r = ListSet key ut \<and> cache s' = cache_Set cops (cache s) key (enc_list cd ut)) \<or>
    entries (cache s') (cacheKeyList v p z) \<subseteq> entries (cache s) (cacheKeyList v p z)"
proof -
  have get: "b \<in> entries (cache s) (cacheKeyList v p z)"
    if "cache_Get cops (cache s) k = (c, x)" "b \<in> entries c (cacheKeyList v p z)" for b c k x
    using cache_get [OF that(1)] that(2) by blast
  have set_user: "b \<in> entries (cache s) (cacheKeyList v p z)"
    if "b \<in> entries (cache_Set cops (cache s) (cacheKeyUser cd i) x) (cacheKeyList v p z)" for b i x
    using cache_setD [OF that] by simp
  have del: "b \<in> entries (cache s) (cacheKeyList v p z)"
    if "b \<in> entries (cache_Delete cops (cache s) (cacheKeyUser cd i)) (cacheKeyList v p z)" for b i
    using cache_deleteD [OF that] by simp
  show ?thesis
    using assms
    by (cases "(mem_ops, cops, cd, e, r, s)" rule: advance.cases)
      (auto simp: Let_def getUser_def setUser_def delUser_def bump_def
        dest: get set_user del split: res.splits option.splits prod.splits)
qed

text \<open>A step of a listing keeps its date, a step of another call starts none.\<close>

lemma advance_listing:
  assumes "ok g" "bumps g < 2 ^ 64" "m \<le> bumps g" "wf_env e"
    and "advance mem_ops cops cd e r (shared g) = (s', r')" "listing_from jsoned m g p z r"
    and "past g \<subseteq> past g'" "(bumps g', base s') \<in> past g'" "bumps g \<le> bumps g'"
  shows "listing_from jsoned m g' p z r'"
proof -
  have ver: "unat (listVer (shared g)) = bumps g"
    using assms(1,2) by (simp add: process_inv_def unsigned_of_nat take_bit_nat_eq_self)
  note mono = listing_from_mono [OF assms(6,7,9)]
  show ?thesis
  proof (cases r)
    case (ListLookup p' z' key)
    obtain c v where c: "cache_Get cops (cache (shared g)) key = (c, v)" by fastforce
    show ?thesis
    proof (cases "Option.bind v (dec_list cd)")
      case None
      then show ?thesis using assms(5) mono c by (auto simp: ListLookup)
    next
      case (Some wrap)
      then obtain b where b: "v = Some b" "dec_list cd b = Some wrap" by (cases v) auto
      from assms(6) obtain w where key: "key = cacheKeyList w p z" "m \<le> unat w"
        by (auto simp: ListLookup)
      have "b \<in> entries (cache (shared g)) (cacheKeyList w p z)"
        using cache_get [OF c] b key by blast
      then obtain us0 where "fst wrap = map jsoned us0" "listed_since (unat w) g p z us0 (snd wrap)"
        using pages_datedD [of entries cd jsoned "cache (shared g)" g b w p z] assms(1) b(2)
        by (cases wrap) (auto simp: process_inv_def)
      then show ?thesis
        using assms(5) c Some listed_since_mono [OF _ assms(7) key(2)]
        by (cases wrap) (auto simp: ListLookup intro!: exI [of _ us0])
    qed
  next
    case (ListBase p' z' key)
    have inv: "mem_inv (base (shared g))" using assms(1) by (simp add: process_inv_def)
    obtain b x where x: "service_List mem_ops e (base (shared g)) p z = (b, x)" by fastforce
    have b: "b = base (shared g)" using mem_service_List_state [of e "base (shared g)" p z] x by simp
    have page: "shows_page (base (shared g)) p z us t" if "x = Ok (us, t)" for us t
      unfolding shows_page_def
    proof
      assume fits: "page_fits mem_norm (mem_live (base (shared g))) p z"
      from mem_page_answer [OF assms(4) inv this] x that
      show "page_result mem_norm (mem_live (base (shared g))) p z us t" by auto
    qed
    show ?thesis
    proof (cases x)
      case (Ok ut)
      with assms(5,6) x b have r': "r' = ListSet key ut" "base s' = base (shared g)"
        by (auto simp: ListBase)
      from assms(6) obtain w where key: "key = cacheKeyList w p z" "m \<le> unat w" "unat w \<le> bumps g"
        by (auto simp: ListBase)
      have "listed_since (unat w) g' p z (fst ut) (snd ut)"
        using page [of "fst ut" "snd ut"] Ok assms(8,9) key(3) r'(2)
        unfolding listed_since_def by (auto intro!: bexI [of _ "(bumps g', base s')"])
      with key r' show ?thesis by auto
    qed (use assms(5,6) x in \<open>auto simp: ListBase\<close>)
  next
    case (ListSet key ut)
    obtain us t where ut: "ut = (us, t)" by fastforce
    from ListSet assms(6) have "listed_since m g' p z us t"
      using listed_since_mono [OF _ assms(7)] by (auto simp: ut)
    with assms(5) show ?thesis by (auto simp: ListSet ut intro!: exI [of _ us])
  qed (use assms(3,5,6,9) mono ver in \<open>auto\<close>)
qed

lemma advance_other:
  assumes "advance mem_ops cops cd e r s = (s', r')" "lists r'"
  shows "lists r \<or> (\<exists>p z. r = Pending (ListUsers p z))"
  using assms
  by (cases "(mem_ops, cops, cd, e, r, s)" rule: advance.cases)
    (auto simp: Let_def split: res.splits option.splits prod.splits)

lemma process_step:
  assumes "step g g'"
  shows "past g \<subseteq> past g' \<and> bumps g \<le> bumps g' \<and> length (calls g) \<le> length (calls g')"
  using assms by (elim proc_stepE) auto

lemma process_steps:
  assumes "step\<^sup>*\<^sup>* g g'"
  shows "past g \<subseteq> past g' \<and> bumps g \<le> bumps g' \<and> length (calls g) \<le> length (calls g')"
  using assms
proof (induction rule: rtranclp_induct)
  case (step g1 g2)
  then show ?case using process_step [OF step(2)] by auto
qed simp

lemma process_inv_step:
  assumes "step g g'" "ok g" "bumps g < 2 ^ 64"
  shows "ok g'"
  using assms(1)
proof (cases rule: proc_step.cases)
  case (arrives c)
  have "past g' = past g" by (simp add: arrives)
  then have "dated (cache (shared g)) g'" "listing_from jsoned 0 g p z r \<Longrightarrow> listing_from jsoned 0 g' p z r"
    for p z r
    using assms(2) pages_dated_mono [of entries cd jsoned "cache (shared g)" g g' "cache (shared g)"]
      listing_from_mono [of jsoned 0 g p z r g']
    by (auto simp: process_inv_def arrives)
  then show ?thesis using assms(2) by (fastforce simp: process_inv_def arrives)
next
  case (runs k e s r n)
  let ?r = "calls g ! k"
  have inv: "mem_inv (base (shared g))" "listVer (shared g) = of_nat (bumps g)"
      "\<forall>(k, r) \<in> past g. k \<le> bumps g" "dated (cache (shared g)) g"
      "\<And>r. r \<in> set (calls g) \<Longrightarrow> lists r \<Longrightarrow> \<exists>p z. listing_from jsoned 0 g p z r"
    using assms(2) by (simp_all add: process_inv_def)
  have more: "past g \<subseteq> past g'" "bumps g \<le> bumps g'" using process_step [OF assms(1)] by auto
  note store = advance_store [OF inv(1) runs(4)]
  have new: "listing_from jsoned 0 g' p z r" if "listing_from jsoned 0 g p z ?r" for p z
    using advance_listing [OF assms(2,3) le0 runs(3,4) that more(1) _ more(2)] by (simp add: runs(1))
  have "\<exists>p z. listing_from jsoned 0 g' p z r" if "lists r"
    using advance_other [OF runs(4) that] new inv(5) nth_mem [OF runs(2)] by fastforce
  moreover have "\<exists>p z. listing_from jsoned 0 g' p z r" if "r \<in> set (calls g)" "lists r" for r
    using inv(5) [OF that] listing_from_mono [OF _ more] by blast
  ultimately have calls: "\<forall>r \<in> set (calls g'). lists r \<longrightarrow> (\<exists>p z. listing_from jsoned 0 g' p z r)"
    using set_update_subset_insert [of "calls g" k r] by (auto simp: runs(1))
  have "dated (cache s) g'"
    unfolding pages_dated_def
  proof (intro allI impI)
    fix v p z b us t
    assume b: "b \<in> entries (cache s) (cacheKeyList v p z)" "dec_list cd b = Some (us, t)"
    have old: "\<exists>us0. us = map jsoned us0 \<and> listed_since (unat v) g' p z us0 t"
      if "b \<in> entries (cache (shared g)) (cacheKeyList v p z)"
    proof -
      from pages_datedD [OF inv(4) that b(2)] obtain us0 where
        "us = map jsoned us0" "listed_since (unat v) g p z us0 t" .
      with listed_since_mono [OF this(2) more(1) order_refl] show ?thesis by blast
    qed
    consider key ut where "?r = ListSet key ut" "cache s = cache_Set cops (cache (shared g)) key (enc_list cd ut)"
      | "b \<in> entries (cache (shared g)) (cacheKeyList v p z)"
      using advance_pages [OF runs(4), of v p z] b(1) by blast
    then show "\<exists>us0. us = map jsoned us0 \<and> listed_since (unat v) g' p z us0 t"
    proof cases
      case (1 key ut)
      with b(1) cache_setD [of b "cache (shared g)" key "enc_list cd ut" "cacheKeyList v p z"]
      consider "key = cacheKeyList v p z" "b = wire (enc_list cd ut)"
        | "b \<in> entries (cache (shared g)) (cacheKeyList v p z)" by auto
      then show ?thesis
      proof cases
        case 1
        have "lists ?r" by (simp add: \<open>?r = ListSet key ut\<close>)
        with inv(5) [OF nth_mem [OF runs(2)]] obtain p' z' where
          "listing_from jsoned 0 g p' z' (ListSet key ut)" unfolding \<open>?r = ListSet key ut\<close> by blast
        then have "listed_since (unat v) g p z (fst ut) (snd ut)" by (auto simp: 1(1))
        moreover have "(us, t) = (map jsoned (fst ut), snd ut)"
          by (rule dec_wire_list) (use b(2) in \<open>simp add: 1(2)\<close>)
        ultimately show ?thesis using listed_since_mono [OF _ more(1)] by auto
      next
        case 2
        then show ?thesis by (rule old)
      qed
    next
      case 2
      then show ?thesis by (rule old)
    qed
  qed
  moreover have "listVer s = of_nat n" using store inv(2) by (simp add: runs(5))
  moreover have "\<forall>(k, r) \<in> past g'. k \<le> n" using inv(3) by (auto simp: runs(1,5))
  ultimately show ?thesis using calls store by (simp add: process_inv_def runs(1))
qed

lemma process_inv_start:
  assumes "mem_inv (base s)" "listVer s = 0" "\<And>k. entries (cache s) k = {}"
  shows "ok (proc_start s)"
  using assms by (simp add: process_inv_def proc_start_def pages_dated_def)

lemma process_inv_steps:
  assumes "step\<^sup>*\<^sup>* g g'" "ok g" "bumps g' < 2 ^ 64"
  shows "ok g'"
  using assms
proof (induction rule: rtranclp_induct)
  case (step g1 g2)
  then have "bumps g1 < 2 ^ 64" using process_step [OF step(2)] by linarith
  with step process_inv_step show ?case by blast
qed

text \<open>A listing that begins after \<open>m\<close> bumps stays that recent while other calls run.\<close>

lemma listing_steps:
  assumes "step\<^sup>*\<^sup>* g g'" "ok g" "bumps g' < 2 ^ 64" "l < length (calls g)" "m \<le> bumps g"
    and "listing_from jsoned m g p z (calls g ! l)"
  shows "listing_from jsoned m g' p z (calls g' ! l)"
  using assms
proof (induction rule: rtranclp_induct)
  case (step g1 g2)
  note grows = process_step [OF step(2)]
  have small: "bumps g1 < 2 ^ 64" using step.prems(2) grows by linarith
  have ok: "ok g1" by (rule process_inv_steps [OF step(1) step.prems(1) small])
  have l: "l < length (calls g1)" and m: "m \<le> bumps g1"
    using process_steps [OF step(1)] step.prems(3,4) by auto
  have from1: "listing_from jsoned m g1 p z (calls g1 ! l)" using step.IH step.prems small by blast
  from step(2) show ?case
  proof (cases rule: proc_step.cases)
    case (arrives c)
    with from1 l listing_from_mono [OF from1, of g2] show ?thesis by (simp add: nth_append)
  next
    case (runs k e s r n)
    note moved = advance_listing [OF ok small m runs(3,4), of p z g2]
      and others = listing_from_mono [OF from1, of g2]
    from from1 moved others grows l show ?thesis by (cases "k = l") (simp_all add: runs(1))
  qed
qed simp

end

subsection \<open>Changes and listings\<close>

text \<open>A call whose change of the store is done and not yet announced by a new version.\<close>

fun unannounced :: "running \<Rightarrow> bool" where
  "unannounced (UpdateDel i u) = True"
| "unannounced (BumpThenSet u) = True"
| "unannounced (DeleteDel i) = True"
| "unannounced DeleteBump = True"
| "unannounced r = False"

lemma unannounced_advance:
  "unannounced r \<Longrightarrow> advance repo cops cd e r s = (s', r') \<Longrightarrow> unannounced r' \<or> bumps_now r"
  by (cases r rule: unannounced.cases) auto

lemma announced_bumps:
  assumes "(proc_step repo cops cd)\<^sup>*\<^sup>* g g'" "w < length (calls g)" "unannounced (calls g ! w)"
  shows "w < length (calls g') \<and> bumps g \<le> bumps g' \<and> (unannounced (calls g' ! w) \<or> bumps g < bumps g')"
  using assms
proof (induction rule: rtranclp_induct)
  case (step g1 g2)
  then have IH: "w < length (calls g1)" "bumps g \<le> bumps g1"
      "unannounced (calls g1 ! w) \<or> bumps g < bumps g1"
    by blast+
  from step(2) show ?case
  proof (cases rule: proc_step.cases)
    case (arrives c)
    with IH show ?thesis by (auto simp: nth_append)
  next
    case (runs k e s r n)
    with IH unannounced_advance [OF _ runs(4)] show ?thesis by (cases "k = w") auto
  qed
qed simp

text \<open>The history variable is the truth.\<close>

lemma past_between:
  assumes "(proc_step repo cops cd)\<^sup>*\<^sup>* g g'" "(k, r) \<in> past g'"
  shows "(k, r) \<in> past g \<or>
    (\<exists>g0. (proc_step repo cops cd)\<^sup>*\<^sup>* g g0 \<and> (proc_step repo cops cd)\<^sup>*\<^sup>* g0 g' \<and>
       base (shared g0) = r)"
  using assms
proof (induction rule: rtranclp_induct)
  case (step g1 g2)
  show ?case
  proof (cases "(k, r) \<in> past g1")
    case True
    with step.IH step(2) show ?thesis by (meson rtranclp.rtrancl_into_rtrancl)
  next
    case False
    with step(2) step.prems have "base (shared g2) = r" by (elim proc_stepE) auto
    moreover have "(proc_step repo cops cd)\<^sup>*\<^sup>* g g2" using step(1,2) by simp
    ultimately show ?thesis by blast
  qed
qed simp

text \<open>
  C6: Requests may interleave as they like: a listing that begins when a change of a user is complete
  never answers with an older state. If a creation, an update or a deletion has changed the store
  in \<open>g1\<close> and has gone on past its bump in \<open>g2\<close>, a \<open>List\<close> that has not begun in \<open>g2\<close> answers with the page
  of a state that the store had between \<open>g1\<close> and the answer (or its JSON image), whatever other requests
  do and whatever the cache keeps or drops.
\<close>

theorem complete_changes_listed:
  assumes "concurrent_cache cops entries cd jsoned"
    and "mem_inv (base s)" "listVer s = 0" "\<And>k. entries (cache s) k = {}"
    and "(proc_step mem_ops cops cd)\<^sup>*\<^sup>* (proc_start s) g1"
    and "w < length (calls g1)" "unannounced (calls g1 ! w)"
    and "(proc_step mem_ops cops cd)\<^sup>*\<^sup>* g1 g2" "\<not> unannounced (calls g2 ! w)"
    and "l < length (calls g2)" "calls g2 ! l = Pending (ListUsers p z)"
    and "(proc_step mem_ops cops cd)\<^sup>*\<^sup>* g2 g3" "calls g3 ! l = Finished (APage (Ok (us, t)))"
    and "bumps g3 < 2 ^ 64"
  shows "\<exists>g us0. (proc_step mem_ops cops cd)\<^sup>*\<^sup>* g1 g \<and> (proc_step mem_ops cops cd)\<^sup>*\<^sup>* g g3 \<and>
    (us = us0 \<or> us = map jsoned us0) \<and> shows_page (base (shared g)) p z us0 t"
proof -
  let ?ok = "process_inv entries cd jsoned"
  note steps = concurrent_cache.process_steps [OF assms(1)]
  have "bumps g1 \<le> bumps g2" "bumps g2 \<le> bumps g3" using steps [OF assms(8)] steps [OF assms(12)] by auto
  with assms(14) have small: "bumps g1 < 2 ^ 64" "bumps g2 < 2 ^ 64" by linarith+
  have ok1: "?ok g1"
    by (rule concurrent_cache.process_inv_steps [OF assms(1,5) _ small(1)])
      (rule concurrent_cache.process_inv_start [OF assms(1-4)])
  have ok2: "?ok g2"
    by (rule concurrent_cache.process_inv_steps [OF assms(1,8) ok1 small(2)])
  have "bumps g1 < bumps g2" using announced_bumps [OF assms(8,6,7)] assms(9) by blast
  have "listing_from jsoned (bumps g2) g3 p z (calls g3 ! l)"
    by (rule concurrent_cache.listing_steps [OF assms(1,12) ok2 assms(14,10)]) (simp_all add: assms(11))
  then obtain us0 k r where us0: "us = us0 \<or> us = map jsoned us0" "shows_page r p z us0 t"
      and r: "(k, r) \<in> past g3" "bumps g2 \<le> k"
    unfolding assms(13) by (auto simp: listed_since_def)
  have "(k, r) \<notin> past g1" using ok1 r(2) \<open>bumps g1 < bumps g2\<close> by (auto simp: process_inv_def)
  moreover have "(proc_step mem_ops cops cd)\<^sup>*\<^sup>* g1 g3" using assms(8,12) by simp
  ultimately obtain g where "(proc_step mem_ops cops cd)\<^sup>*\<^sup>* g1 g" "(proc_step mem_ops cops cd)\<^sup>*\<^sup>* g g3"
      "base (shared g) = r"
    using past_between [OF _ r(1)] by blast
  with us0 show ?thesis by blast
qed

text \<open>One request creates a user while another lists them.\<close>

definition create_and_list :: "(mem_repo, (bounded, server) layered) process" where
  "create_and_list = (proc_start cached_start)\<lparr>calls :=
     [Pending (CreateUser ''Bob'' ''bob@x.org''), Pending (ListUsers 1 10)]\<rparr>"

abbreviation sample_run where
  "sample_run \<equiv> proc_run mem_ops mem_cache_ops sample_codec sample_env"

theorem complete_changes_listed_witness:
  "\<exists>g. (proc_step mem_ops mem_cache_ops sample_codec)\<^sup>*\<^sup>* (sample_run create_and_list [0]) g \<and>
    shows_page (base (shared g)) 1 10 [created_user sample_env ''Bob'' ''bob@x.org''] 1"
proof -
  let ?step = "proc_step mem_ops mem_cache_ops sample_codec"
  let ?g1 = "sample_run create_and_list [0]"
  let ?g2 = "sample_run ?g1 [0]"
  let ?g3 = "sample_run ?g2 [1, 1, 1, 1]"
  have arrive: "?step\<^sup>*\<^sup>* (proc_start cached_start) create_and_list"
    using proc_arrivals [of mem_ops mem_cache_ops sample_codec "proc_start cached_start"
      "[CreateUser ''Bob'' ''bob@x.org'', ListUsers 1 10]"]
    by (simp add: create_and_list_def proc_start_def)
  have len: "length (calls create_and_list) = 2" "length (calls ?g1) = 2" "length (calls ?g2) = 2"
    unfolding proc_run_length by (simp_all add: create_and_list_def)
  have steps: "?step\<^sup>*\<^sup>* create_and_list ?g1" "?step\<^sup>*\<^sup>* ?g1 ?g2" "?step\<^sup>*\<^sup>* ?g2 ?g3"
    by (rule proc_run_steps [OF wf_sample_env]; simp only: len; simp)+
  have runs: "unannounced (calls ?g1 ! 0)" "\<not> unannounced (calls ?g2 ! 0)"
      "calls ?g2 ! 1 = Pending (ListUsers 1 10)"
    by code_simp+
  have "let g = ?g3 in bumps g = 1 \<and>
      calls g ! 1 = Finished (APage (Ok ([created_user sample_env ''Bob'' ''bob@x.org''], 1)))"
    by code_simp
  then have runs3: "bumps ?g3 = 1"
      "calls ?g3 ! 1 = Finished (APage (Ok ([created_user sample_env ''Bob'' ''bob@x.org''], 1)))"
    by (simp_all only: Let_def)
  have start: "mem_inv (base cached_start)" "listVer cached_start = 0"
      "\<And>k. mem_entries (cache cached_start) k = {}"
    by (simp_all add: cached_start_def layered_entries_def empty_cache_def)
  have lt: "0 < length (calls ?g1)" "1 < length (calls ?g2)" unfolding len by simp_all
  have small: "bumps ?g3 < 2 ^ 64" by (simp only: runs3(1), simp)
  from complete_changes_listed [OF mem_concurrent.concurrent_cache_axioms start
      rtranclp_trans [OF arrive steps(1)] lt(1) runs(1) steps(2) runs(2) lt(2) runs(3) steps(3) runs3(2) small]
  show ?thesis by (simp only: list.map_ident) blast
qed

end
