(* ===== verification/Cached_Races.thy ===== *)
theory Cached_Races
  imports Cached_Lists
begin

text \<open>
  What lookups and updates of the caching decorator answer when requests run at the same time: a
  lookup never mixes users up, and the two ways in which a change gets lost.
\<close>

subsection \<open>Lookups\<close>

definition was_live :: "(mem_repo, 'c) process \<Rightarrow> uuid \<Rightarrow> user \<Rightarrow> bool" where
  "was_live g i u \<longleftrightarrow> (\<exists>(k, r) \<in> past g. mem_live r i = Some u)"

lemma was_live_mono: "was_live g i u \<Longrightarrow> past g \<subseteq> past g' \<Longrightarrow> was_live g' i u"
  unfolding was_live_def by blast

text \<open>
  The user that a running call is about to put into the cache or to change has been live, and a
  listing has the key of a list.
\<close>

fun carries :: "(mem_repo, 'c) process \<Rightarrow> running \<Rightarrow> bool" where
  "carries g (SetThenReturn u) = was_live g (ID u) u"
| "carries g (BumpThenSet u) = was_live g (ID u) u"
| "carries g (UpdateDel i u) = was_live g (ID u) u"
| "carries g (UpdateRepo i name email u) = (DeletedAt u = None)"
| "carries g (ListLookup p z key) = (\<exists>v. key = cacheKeyList v p z)"
| "carries g (ListBase p z key) = (\<exists>v. key = cacheKeyList v p z)"
| "carries g (ListSet key ut) = (\<exists>v p z. key = cacheKeyList v p z)"
| "carries g r = True"

fun getting :: "(user \<Rightarrow> user) \<Rightarrow> (mem_repo, 'c) process \<Rightarrow> uuid \<Rightarrow> running \<Rightarrow> bool" where
  "getting jsoned g i (Pending c) \<longleftrightarrow> c = GetUser i"
| "getting jsoned g i (GetBase j) \<longleftrightarrow> j = i"
| "getting jsoned g i (SetThenReturn u) \<longleftrightarrow> was_live g i u"
| "getting jsoned g i (Finished a) \<longleftrightarrow>
     (\<forall>w. a = AnUser (Ok w) \<longrightarrow> (\<exists>u. (w = u \<or> w = jsoned u) \<and> was_live g i u))"
| "getting jsoned g i r \<longleftrightarrow> False"

definition users_dated ::
  "('c \<Rightarrow> string \<Rightarrow> string set) \<Rightarrow> codec \<Rightarrow> (user \<Rightarrow> user) \<Rightarrow> 'c \<Rightarrow> (mem_repo, 'c) process \<Rightarrow> bool" where
  "users_dated entries cd jsoned c g \<longleftrightarrow>
     (\<forall>i b w. b \<in> entries c (cacheKeyUser cd i) \<longrightarrow> dec_user cd b = Some w \<longrightarrow>
        (\<exists>u. w = jsoned u \<and> was_live g i u))"

definition users_inv ::
  "('c \<Rightarrow> string \<Rightarrow> string set) \<Rightarrow> codec \<Rightarrow> (user \<Rightarrow> user) \<Rightarrow> (mem_repo, 'c) process \<Rightarrow> bool" where
  "users_inv entries cd jsoned g \<longleftrightarrow>
     mem_inv (base (shared g)) \<and> base (shared g) \<in> snd ` past g \<and>
     users_dated entries cd jsoned (cache (shared g)) g \<and> (\<forall>r \<in> set (calls g). carries g r)"

lemma carries_mono: "carries g r \<Longrightarrow> past g \<subseteq> past g' \<Longrightarrow> carries g' r"
  using was_live_mono by (cases "(g, r)" rule: carries.cases) auto

lemma getting_mono: "getting jsoned g i r \<Longrightarrow> past g \<subseteq> past g' \<Longrightarrow> getting jsoned g' i r"
  using was_live_mono by (cases "(jsoned, g, i, r)" rule: getting.cases) (simp; blast)+

lemma users_datedD:
  assumes "users_dated entries cd jsoned c g" "b \<in> entries c (cacheKeyUser cd i)"
    and "dec_user cd b = Some w"
  obtains u where "w = jsoned u" "was_live g i u"
  using assms unfolding users_dated_def by blast

lemma was_live_now: "(n, r) \<in> past g \<Longrightarrow> mem_live r i = Some u \<Longrightarrow> was_live g i u"
  unfolding was_live_def by blast

lemma created_live:
  assumes "service_Create mem_ops e r name email = (r', Ok u)" "(n, r') \<in> past g"
  shows "was_live g (ID u) u"
  using assms
  by (auto simp: service_Create_def mem_Create_def Let_def mem_live_update
      split: if_splits res.splits prod.splits option.splits intro!: was_live_now)

lemma updated_live:
  assumes "mem_Update e r u = (r', Ok v)" "(n, r') \<in> past g" "DeletedAt u = None" "ID u = i"
  shows "was_live g i u"
  using assms by (auto simp: mem_Update_def mem_live_update split: if_splits option.splits intro!: was_live_now)

lemma got_live:
  assumes "mem_Get e r i = (r', Ok u)" "mem_inv r"
  shows "(n, r') \<in> past g \<Longrightarrow> was_live g (ID u) u \<and> was_live g i u" "DeletedAt u = None"
  using assms mem_svc.live_wf [of r i u] was_live_now [of n r' g i u]
  by (auto simp: mem_Get_live split: option.splits)

context concurrent_cache
begin

text \<open>No step but \<open>setUser\<close> puts anything under the key of a user.\<close>

lemma advance_entries:
  assumes "advance mem_ops cops cd e r s = (s', r')" "carries g r"
  shows "(\<exists>u. r = SetThenReturn u \<and> s' = setUser cops cd s u) \<or>
    entries (cache s') (cacheKeyUser cd i) \<subseteq> entries (cache s) (cacheKeyUser cd i)"
proof -
  have get: "b \<in> entries (cache s) (cacheKeyUser cd i)"
    if "cache_Get cops (cache s) k = (c, x)" "b \<in> entries c (cacheKeyUser cd i)" for b c k x
    using cache_get [OF that(1)] that(2) by blast
  have del: "b \<in> entries (cache s) (cacheKeyUser cd i)"
    if "b \<in> entries (cache_Delete cops (cache s) k) (cacheKeyUser cd i)" for b k
    using cache_deleteD [OF that] by simp
  have set_list: "b \<in> entries (cache s) (cacheKeyUser cd i)"
    if "b \<in> entries (cache_Set cops (cache s) (cacheKeyList v p z) x) (cacheKeyUser cd i)" for b v p z x
    using cache_setD [OF that] by simp
  show ?thesis
    using assms
    by (cases "(mem_ops, cops, cd, e, r, s)" rule: advance.cases)
      (auto simp: Let_def getUser_def delUser_def bump_def
        dest: get set_list del split: res.splits option.splits prod.splits)
qed

text \<open>What a step leaves a call with has been live, given that the store's new state is recorded.\<close>

lemma advance_carries:
  assumes "mem_inv (base s)" "advance mem_ops cops cd e r s = (s', r')" "carries g r"
    and "past g \<subseteq> past g'" "(n, base s') \<in> past g'"
  shows "carries g' r'"
proof -
  show ?thesis
    using assms(1,2,3,5) was_live_mono [OF _ assms(4)]
    by (cases "(mem_ops, cops, cd, e, r, s)" rule: advance.cases)
      (auto simp: service_Get_def service_Delete_def service_List_def Let_def apply_patch_Ok
        intro: got_live(2) got_live(1) [THEN conjunct1] created_live updated_live
        split: res.splits option.splits prod.splits,
        rule updated_live, assumption+, simp_all add: apply_patch_Ok)
qed

lemma getUser_dated:
  assumes "users_dated entries cd jsoned (cache s) g" "getUser cops cd s i = (s', Some w)"
  shows "\<exists>u. w = jsoned u \<and> was_live g i u"
proof -
  obtain c v where c: "cache_Get cops (cache s) (cacheKeyUser cd i) = (c, v)" by fastforce
  with assms(2) obtain b where b: "v = Some b" "dec_user cd b = Some w"
    by (auto simp: getUser_def split: option.splits)
  with cache_get [OF c] users_datedD [OF assms(1) _ b(2)] show ?thesis by metis
qed

lemma advance_getting:
  assumes "users_inv entries cd jsoned g" "advance mem_ops cops cd e r (shared g) = (s', r')"
    and "getting jsoned g i r" "past g \<subseteq> past g'"
  shows "getting jsoned g' i r'"
proof -
  have dated: "users_dated entries cd jsoned (cache (shared g)) g" and inv: "mem_inv (base (shared g))"
    and now: "base (shared g) \<in> snd ` past g"
    using assms(1) by (simp_all add: users_inv_def)
  note keep = was_live_mono [OF _ assms(4)] and mono = getting_mono [OF _ assms(4), of jsoned i]
  show ?thesis
  proof (cases r)
    case (Pending c)
    then have c: "r = Pending (GetUser i)" using assms(3) by simp
    obtain s1 v where v: "getUser cops cd (shared g) i = (s1, v)" by fastforce
    show ?thesis
      using getUser_dated [OF dated, of i s1] v assms(2) keep by (cases v) (auto simp: c, blast)
  next
    case (GetBase j)
    with assms(3) have r: "r = GetBase i" by simp
    obtain r1 x where x: "mem_Get e (base (shared g)) i = (r1, x)" by fastforce
    have "was_live g i u" if "x = Ok u" for u
      using x that now by (auto simp: mem_Get_live was_live_def split: option.splits)
    with assms(2) x keep show ?thesis by (cases x) (auto simp: r service_Get_def)
  next
    case (SetThenReturn u)
    with assms(2,3) keep [of i u] show ?thesis by (auto intro!: exI [of _ u])
  qed (use assms(2,3) mono in auto)
qed

lemma users_inv_step:
  assumes "step g g'" "users_inv entries cd jsoned g"
  shows "users_inv entries cd jsoned g'"
  using assms(1)
proof (cases rule: proc_step.cases)
  case (arrives c)
  then show ?thesis
    using assms(2) carries_mono [of g _ g']
    by (auto simp: users_inv_def users_dated_def was_live_def)
next
  case (runs k e s r n)
  let ?r = "calls g ! k"
  have inv: "mem_inv (base (shared g))" "base (shared g) \<in> snd ` past g"
      "users_dated entries cd jsoned (cache (shared g)) g" "\<And>r. r \<in> set (calls g) \<Longrightarrow> carries g r"
    using assms(2) by (simp_all add: users_inv_def)
  note more = process_step [OF assms(1), THEN conjunct1]
  note r = inv(4) [OF nth_mem [OF runs(2)]]
  have new: "(n, base s) \<in> past g'" by (simp add: runs(1))
  have "carries g' r" by (rule advance_carries [OF inv(1) runs(4) r more new])
  moreover have "\<And>r. r \<in> set (calls g) \<Longrightarrow> carries g' r" using carries_mono [OF inv(4) more] .
  ultimately have calls: "\<forall>r \<in> set (calls g'). carries g' r"
    using set_update_subset_insert [of "calls g" k r] by (auto simp: runs(1))
  have "users_dated entries cd jsoned (cache s) g'"
    unfolding users_dated_def
  proof (intro allI impI)
    fix i b w
    assume b: "b \<in> entries (cache s) (cacheKeyUser cd i)" "dec_user cd b = Some w"
    have old: "\<exists>u. w = jsoned u \<and> was_live g' i u"
      if "b \<in> entries (cache (shared g)) (cacheKeyUser cd i)"
      using users_datedD [OF inv(3) that b(2)] was_live_mono [OF _ more] by metis
    consider u where "?r = SetThenReturn u" "s = setUser cops cd (shared g) u"
      | "b \<in> entries (cache (shared g)) (cacheKeyUser cd i)"
      using advance_entries [OF runs(4) r, of i] b(1) by blast
    then show "\<exists>u. w = jsoned u \<and> was_live g' i u"
    proof cases
      case (1 u)
      with cache_setD [of b "cache (shared g)" "cacheKeyUser cd (ID u)" "enc_user cd u" "cacheKeyUser cd i"] b(1)
      consider "i = ID u" "b = wire (enc_user cd u)" | "b \<in> entries (cache (shared g)) (cacheKeyUser cd i)"
        by (auto simp: setUser_def cacheKeyUser_inject [OF inj_id_string])
      then show ?thesis
      proof cases
        case 1
        with b(2) have "w = jsoned u" by (simp add: dec_wire_user)
        moreover have "was_live g (ID u) u" using r by (simp add: \<open>?r = SetThenReturn u\<close>)
        ultimately show ?thesis using was_live_mono [OF _ more] by (auto simp: 1(1))
      qed (rule old)
    qed (rule old)
  qed
  with calls advance_store [OF inv(1) runs(4)] show ?thesis
    by (simp add: users_inv_def runs(1))
qed

lemma users_inv_start:
  assumes "mem_inv (base s)" "\<And>k. entries (cache s) k = {}"
  shows "users_inv entries cd jsoned (proc_start s)"
  using assms by (simp add: users_inv_def proc_start_def users_dated_def)

lemma users_inv_steps:
  "step\<^sup>*\<^sup>* g g' \<Longrightarrow> users_inv entries cd jsoned g \<Longrightarrow> users_inv entries cd jsoned g'"
  by (induction rule: rtranclp_induct) (auto dest: users_inv_step)

lemma getting_steps:
  assumes "step\<^sup>*\<^sup>* g g'" "users_inv entries cd jsoned g" "l < length (calls g)"
    and "getting jsoned g i (calls g ! l)"
  shows "getting jsoned g' i (calls g' ! l)"
  using assms
proof (induction rule: rtranclp_induct)
  case (step g1 g2)
  have inv: "users_inv entries cd jsoned g1" using users_inv_steps [OF step(1)] step.prems by blast
  have l: "l < length (calls g1)" using process_steps [OF step(1)] step.prems(2) by auto
  have from1: "getting jsoned g1 i (calls g1 ! l)" using step.IH step.prems by blast
  note grows = process_step [OF step(2), THEN conjunct1]
  from step(2) show ?case
  proof (cases rule: proc_step.cases)
    case (arrives c)
    with getting_mono [OF from1 grows] l show ?thesis by (simp add: nth_append)
  next
    case (runs k e s r n)
    with advance_getting [OF inv runs(4), of i g2] from1 grows getting_mono [OF from1 grows] l
    show ?thesis by (cases "k = l") (simp_all add: runs(1))
  qed
qed simp

end

text \<open>
  C10: Under any interleaving of requests, a lookup through the cache answers with nothing but a user
  that was live under the asked id, in exactly this version, at some earlier moment of the same run
  (or its JSON image): the cache may lag behind, and never mixes users up or invents a value.
\<close>

theorem concurrent_get_was_live:
  assumes "concurrent_cache cops entries cd jsoned"
    and "mem_inv (base s)" "\<And>k. entries (cache s) k = {}"
    and "(proc_step mem_ops cops cd)\<^sup>*\<^sup>* (proc_start s) g"
    and "l < length (calls g)" "calls g ! l = Pending (GetUser i)"
    and "(proc_step mem_ops cops cd)\<^sup>*\<^sup>* g g'" "calls g' ! l = Finished (AnUser (Ok w))"
  shows "\<exists>g0 u. (proc_step mem_ops cops cd)\<^sup>*\<^sup>* (proc_start s) g0 \<and>
    (proc_step mem_ops cops cd)\<^sup>*\<^sup>* g0 g' \<and> mem_live (base (shared g0)) i = Some u \<and>
    (w = u \<or> w = jsoned u)"
proof -
  let ?step = "proc_step mem_ops cops cd"
  have inv: "users_inv entries cd jsoned g"
    by (rule concurrent_cache.users_inv_steps [OF assms(1,4)])
      (rule concurrent_cache.users_inv_start [OF assms(1-3)])
  have "getting jsoned g' i (calls g' ! l)"
    by (rule concurrent_cache.getting_steps [OF assms(1,7) inv assms(5)]) (simp add: assms(6))
  then obtain u k r where u: "w = u \<or> w = jsoned u" "mem_live r i = Some u" "(k, r) \<in> past g'"
    by (auto simp: assms(8) was_live_def)
  have all: "?step\<^sup>*\<^sup>* (proc_start s) g'" using assms(4,7) by simp
  then have "\<exists>g0. ?step\<^sup>*\<^sup>* (proc_start s) g0 \<and> ?step\<^sup>*\<^sup>* g0 g' \<and> base (shared g0) = r"
    using past_between [OF all u(3)] by (auto simp: proc_start_def)
  with u show ?thesis by blast
qed

definition create_and_get :: "(mem_repo, (bounded, server) layered) process" where
  "create_and_get = (proc_start cached_start)\<lparr>calls :=
     [Pending (CreateUser ''Bob'' ''bob@x.org''), Pending (GetUser 7)]\<rparr>"

theorem concurrent_get_was_live_witness:
  "\<exists>g. (proc_step mem_ops mem_cache_ops sample_codec)\<^sup>*\<^sup>* (proc_start cached_start) g \<and>
    mem_live (base (shared g)) 7 = Some (created_user sample_env ''Bob'' ''bob@x.org'')"
proof -
  let ?step = "proc_step mem_ops mem_cache_ops sample_codec"
  let ?g = "sample_run create_and_get [0, 1, 1, 1]"
  have arrive: "?step\<^sup>*\<^sup>* (proc_start cached_start) create_and_get"
    using proc_arrivals [of mem_ops mem_cache_ops sample_codec "proc_start cached_start"
      "[CreateUser ''Bob'' ''bob@x.org'', GetUser 7]"]
    by (simp add: create_and_get_def proc_start_def)
  have steps: "?step\<^sup>*\<^sup>* create_and_get ?g"
    by (rule proc_run_steps [OF wf_sample_env]) (simp add: create_and_get_def)
  have start: "mem_inv (base cached_start)" "\<And>k. mem_entries (cache cached_start) k = {}"
    by (simp_all add: cached_start_def layered_entries_def empty_cache_def)
  have call: "1 < length (calls create_and_get)" "calls create_and_get ! 1 = Pending (GetUser 7)"
    by (simp_all add: create_and_get_def)
  have answer: "calls ?g ! 1 = Finished (AnUser (Ok (created_user sample_env ''Bob'' ''bob@x.org'')))"
    by code_simp
  from concurrent_get_was_live [OF mem_concurrent.concurrent_cache_axioms start arrive call steps answer]
  show ?thesis by auto
qed

subsection \<open>Changes that get lost\<close>

lemma patched:
  assumes "patch_ok e name email" "ID u = i"
  obtains v where "apply_patch e u name email = Ok v" "v\<lparr>UpdatedAt := now e\<rparr> = updated_user e u name email"
    "ID v = i" "DeletedAt v = DeletedAt u"
proof -
  from assms(1) obtain v where v: "apply_patch e u name email = Ok v"
    using apply_patch_ok_iff [of e u name email] by (cases "apply_patch e u name email") auto
  moreover have "v\<lparr>UpdatedAt := now e\<rparr> = updated_user e u name email"
    using apply_patch_Ok [OF v] by (simp add: updated_user_def split: option.splits)
  ultimately show ?thesis using that apply_patch_Ok [OF v] assms(2) by simp
qed

lemma mem_Update_live:
  assumes "mem_live r i = Some u" "ID w = i"
  shows "mem_Update e r w = (r\<lparr>users := AList.update i w (users r)\<rparr>, Ok ())"
  using assms by (auto simp: mem_Update_def mem_live_Some)

lemma service_Update_live:
  assumes "mem_live r i = Some u" "ID u = i" "patch_ok e name email"
  shows "service_Update mem_ops e r i name email =
     (r\<lparr>users := AList.update i (updated_user e u name email) (users r)\<rparr>,
      Ok (updated_user e u name email))"
proof -
  obtain v where v: "apply_patch e u name email = Ok v"
      "v\<lparr>UpdatedAt := now e\<rparr> = updated_user e u name email" "ID v = i" "DeletedAt v = DeletedAt u"
    by (rule patched [OF assms(3,2)])
  have "ID (updated_user e u name email) = i" using assms(2) by (simp add: updated_user_def)
  with assms(1) v show ?thesis
    by (simp add: service_Update_def mem_Get_live mem_Update_live [OF assms(1)] Let_def)
qed

text \<open>
  C12: Two updates of different fields of a user, at the same time, lose one of the changes although
  both answer success: each reads the user, changes its copy and writes the copy back. The one that
  writes last puts back the name that it had read. One after the other, in either order, the same two
  updates leave both changes in the store.
\<close>

theorem concurrent_updates_lose_one:
  assumes "wf_env e" "mem_inv (base s)" "mem_live (base s) i = Some u"
    and "patch_ok e (Some n) None" "patch_ok e None (Some m)"
  shows "(\<exists>g. (proc_step mem_ops cops cd)\<^sup>*\<^sup>* (proc_start s) g \<and>
      calls g =
        [Finished (AnUser (Ok (updated_user e u (Some n) None))),
         Finished (AnUser (Ok (updated_user e u None (Some m))))] \<and>
      mem_live (base (shared g)) i = Some (updated_user e u None (Some m)) \<and>
      Name (updated_user e u None (Some m)) = Name u) \<and>
    (let r1 = fst (service_Update mem_ops e (base s) i (Some n) None);
         r2 = fst (service_Update mem_ops e (base s) i None (Some m))
     in mem_live (fst (service_Update mem_ops e r1 i None (Some m))) i =
          Some (updated_user e u (Some n) (Some m)) \<and>
        mem_live (fst (service_Update mem_ops e r2 i (Some n) None)) i =
          Some (updated_user e u (Some n) (Some m)))"
proof
  let ?n = "updated_user e u (Some n) None" and ?m = "updated_user e u None (Some m)"
  let ?calls = "[UpdateUser i (Some n) None, UpdateUser i None (Some m)]"
  let ?g = "(proc_start s)\<lparr>calls := map Pending ?calls\<rparr>"
  let ?run = "proc_run mem_ops cops cd e ?g [0, 1, 0, 1, 0, 0, 0, 1, 1, 1]"
  have u: "ID u = i" "DeletedAt u = None" using mem_svc.live_wf [OF assms(2,3)] by auto
  obtain v where v: "apply_patch e u (Some n) None = Ok v" "v\<lparr>UpdatedAt := now e\<rparr> = ?n" "ID v = i"
    "DeletedAt v = DeletedAt u"
    by (rule patched [OF assms(4) u(1)])
  obtain w where w: "apply_patch e u None (Some m) = Ok w" "w\<lparr>UpdatedAt := now e\<rparr> = ?m" "ID w = i"
    "DeletedAt w = DeletedAt u"
    by (rule patched [OF assms(5) u(1)])
  have ids: "ID ?n = i" "ID ?m = i" "DeletedAt ?n = None" "DeletedAt ?m = None" "Name ?m = Name u"
    using u by (simp_all add: updated_user_def)
  have put: "mem_Update e (base s) ?n =
      ((base s)\<lparr>users := AList.update i ?n (users (base s))\<rparr>, Ok ())"
    by (rule mem_Update_live [OF assms(3) ids(1)])
  have put': "mem_Update e ((base s)\<lparr>users := AList.update i ?n (users (base s))\<rparr>) ?m =
      ((base s)\<lparr>users := AList.update i ?m (AList.update i ?n (users (base s)))\<rparr>, Ok ())"
    by (subst mem_Update_live [of _ i ?n]) (simp_all add: mem_live_update ids)
  have steps: "(proc_step mem_ops cops cd)\<^sup>*\<^sup>* (proc_start s) ?run"
  proof (rule rtranclp_trans)
    show "(proc_step mem_ops cops cd)\<^sup>*\<^sup>* (proc_start s) ?g"
      using proc_arrivals [of mem_ops cops cd "proc_start s" ?calls] by (simp add: proc_start_def)
    show "(proc_step mem_ops cops cd)\<^sup>*\<^sup>* ?g ?run"
      by (rule proc_run_steps [OF assms(1)]) simp
  qed
  have run: "calls ?run = [Finished (AnUser (Ok ?n)), Finished (AnUser (Ok ?m))] \<and>
      mem_live (base (shared ?run)) i = Some ?m"
    using assms(3) v w ids
    by (simp add: mem_Get_live put put' mem_live_update proc_start_def Let_def delUser_def bump_def setUser_def)
  show "\<exists>g. (proc_step mem_ops cops cd)\<^sup>*\<^sup>* (proc_start s) g \<and>
      calls g = [Finished (AnUser (Ok ?n)), Finished (AnUser (Ok ?m))] \<and>
      mem_live (base (shared g)) i = Some ?m \<and> Name ?m = Name u"
    using steps run ids(5) by blast
  show "let r1 = fst (service_Update mem_ops e (base s) i (Some n) None);
         r2 = fst (service_Update mem_ops e (base s) i None (Some m))
     in mem_live (fst (service_Update mem_ops e r1 i None (Some m))) i =
          Some (updated_user e u (Some n) (Some m)) \<and>
        mem_live (fst (service_Update mem_ops e r2 i (Some n) None)) i =
          Some (updated_user e u (Some n) (Some m))"
    using assms(3-5) u ids
    by (simp add: Let_def service_Update_live [where u = u] service_Update_live [where u = ?n]
        service_Update_live [where u = ?m] mem_live_update) (simp add: updated_user_def)
qed

definition cold_cache :: "(mem_repo, (bounded, server) layered) cached" where
  "cold_cache = \<lparr>base = \<lparr>users = [(1, alice)]\<rparr>, cache = empty_cache, listVer = 0\<rparr>"

theorem concurrent_updates_lose_one_witness:
  "\<exists>g. (proc_step mem_ops mem_cache_ops sample_codec)\<^sup>*\<^sup>* (proc_start cold_cache) g \<and>
    mem_live (base (shared g)) 1 = Some (alice\<lparr>Email := ''al@x.org'', UpdatedAt := 1000\<rparr>)"
proof -
  have inv: "mem_inv (base cold_cache)" by (simp add: cold_cache_def mem_inv_def)
  have live: "mem_live (base cold_cache) 1 = Some alice" by (simp add: cold_cache_def mem_live_def)
  have ok: "patch_ok sample_env (Some ''Al'') None" "patch_ok sample_env None (Some ''al@x.org'')"
    by code_simp+
  have "updated_user sample_env alice None (Some ''al@x.org'') =
      alice\<lparr>Email := ''al@x.org'', UpdatedAt := 1000\<rparr>"
    by code_simp
  with concurrent_updates_lose_one [OF wf_sample_env inv live ok] show ?thesis by metis
qed

lemma bounded_hit:
  assumes "0 < capacity (local c)"
  shows "layered_Get bounded_ops rops (layered_Set bounded_ops rops c k (Some b)) k =
    (layered_Set bounded_ops rops c k (Some b), Some b)"
proof -
  obtain m where m: "capacity (local c) = Suc m" using assms by (cases "capacity (local c)") auto
  show ?thesis
    by (cases "redis c")
      (simp_all add: layered_Get_def layered_Set_def bounded_ops_def bounded_Set_def m)
qed

lemma setUser_hit:
  assumes "\<And>k b. layered_Get bounded_ops server_ops (layered_Set bounded_ops server_ops (cache s) k (Some b)) k =
      (layered_Set bounded_ops server_ops (cache s) k (Some b), Some b)" "ID u = i"
  shows "getUser mem_cache_ops sample_codec (setUser mem_cache_ops sample_codec s u) i =
    (setUser mem_cache_ops sample_codec s u, Some u)"
  using assms by (simp add: getUser_def setUser_def) (simp add: sample_codec_def)

lemma mem_cache_capacity:
  "capacity (local (layered_Set bounded_ops server_ops c k x)) = capacity (local c)"
  "capacity (local (layered_Delete bounded_ops server_ops c k)) = capacity (local c)"
  by (cases "redis c"; simp add: layered_Set_def layered_Delete_def bounded_ops_def bounded_Set_def
      bounded_Del_def)+

lemma mem_cache_Get_capacity:
  "cache_Get mem_cache_ops c k = (c', v) \<Longrightarrow> capacity (local c') = capacity (local c)"
  by (auto simp: layered_Get_def bounded_ops_def bounded_Set_def split: option.splits prod.splits sum.splits)



end
