(* ===== verification/Pg_Repo.thy ===== *)
theory Pg_Repo
  imports User_Service
begin

text \<open>
  \<open>internal/storage/postgres\<close>: the user repository and the unit of work over \<open>database/sql\<close>. The
  database is third-party: a handle (a \<open>*sql.DB\<close> or a \<open>*sql.Tx\<close>) is a record of operations that run
  one of the code's statements, and what the code relies on, namely the meaning of its SQL over the table of
  \<open>migrations\<close>, is the locale \<open>sql_users\<close>. An executable table that keeps these laws, with a
  transaction that is aborted by a failed statement, closes the theory.
\<close>

subsection \<open>Statements\<close>

text \<open>The statements the code sends, with their arguments.\<close>

datatype stmt =
    InsertUser uuid string string time time
  | SelectUser uuid
  | UpdateRow uuid string string time
  | SoftDelete uuid time
  | SelectPage go_int go_int
  | CountUsers

primrec stmt_text :: "stmt \<Rightarrow> string" where
  "stmt_text (InsertUser i n m c u) =
     ''INSERT INTO users (id, name, email, created_at, updated_at) VALUES ($1,$2,$3,$4,$5)''"
| "stmt_text (SelectUser i) =
     ''SELECT id, name, email, created_at, updated_at, deleted_at FROM users WHERE id=$1 AND deleted_at IS NULL''"
| "stmt_text (UpdateRow i n m u) =
     ''UPDATE users SET name=$2, email=$3, updated_at=$4 WHERE id=$1 AND deleted_at IS NULL''"
| "stmt_text (SoftDelete i t) =
     ''UPDATE users SET deleted_at=$2 WHERE id=$1 AND deleted_at IS NULL''"
| "stmt_text (SelectPage l off) =
     ''SELECT id, name, email, created_at, updated_at, deleted_at FROM users WHERE deleted_at IS NULL ORDER BY created_at DESC LIMIT $1 OFFSET $2''"
| "stmt_text CountUsers = ''SELECT count(*) FROM users WHERE deleted_at IS NULL''"

text \<open>
  \<open>ExecContext\<close> with the number of rows it affected; \<open>QueryRowContext\<close> scanned into a user or a
  number; \<open>QueryContext\<close> with the rows as \<open>Scan\<close> reads them, and what \<open>rows.Err\<close> reports at the end.
\<close>

record 'h handle =
  db_Exec :: "env \<Rightarrow> 'h \<Rightarrow> stmt \<Rightarrow> 'h \<times> (gerr + int)"
  db_QueryUser :: "env \<Rightarrow> 'h \<Rightarrow> stmt \<Rightarrow> 'h \<times> (gerr + user)"
  db_QueryInt :: "env \<Rightarrow> 'h \<Rightarrow> stmt \<Rightarrow> 'h \<times> (gerr + go_int)"
  db_Query :: "env \<Rightarrow> 'h \<Rightarrow> stmt \<Rightarrow> 'h \<times> (gerr + (gerr + user) list \<times> gerr option)"

subsection \<open>The repository\<close>

definition pg_Create :: "'h handle \<Rightarrow> env \<Rightarrow> 'h \<Rightarrow> user \<Rightarrow> 'h \<times> unit res" where
  "pg_Create db e h u =
     (case db_Exec db e h (InsertUser (ID u) (Name u) (Email u) (CreatedAt u) (UpdatedAt u)) of
        (h, Inl f) \<Rightarrow> (h, Err (Wrapf ''insert user'' f))
      | (h, Inr n) \<Rightarrow> (h, Ok ()))"

definition pg_Get :: "'h handle \<Rightarrow> env \<Rightarrow> 'h \<Rightarrow> uuid \<Rightarrow> 'h \<times> user res" where
  "pg_Get db e h i =
     (case db_QueryUser db e h (SelectUser i) of
        (h, Inl f) \<Rightarrow>
          (h, if errors_is f ErrNoRows then Err ErrNotFound else Err (Wrapf ''get user'' f))
      | (h, Inr u) \<Rightarrow> (h, Ok u))"

definition pg_Update :: "'h handle \<Rightarrow> env \<Rightarrow> 'h \<Rightarrow> user \<Rightarrow> 'h \<times> unit res" where
  "pg_Update db e h u =
     (case db_Exec db e h (UpdateRow (ID u) (Name u) (Email u) (UpdatedAt u)) of
        (h, Inl f) \<Rightarrow> (h, Err (Wrapf ''update user'' f))
      | (h, Inr n) \<Rightarrow> (h, if n = 0 then Err ErrNotFound else Ok ()))"

definition pg_Delete :: "'h handle \<Rightarrow> env \<Rightarrow> 'h \<Rightarrow> uuid \<Rightarrow> 'h \<times> unit res" where
  "pg_Delete db e h i =
     (case db_Exec db e h (SoftDelete i (now e)) of
        (h, Inl f) \<Rightarrow> (h, Err (Wrapf ''soft delete user'' f))
      | (h, Inr n) \<Rightarrow> (h, if n = 0 then Err ErrNotFound else Ok ()))"

text \<open>The loop \<open>for rows.Next()\<close>: it stops at the first row that does not scan.\<close>

fun scan_rows :: "(gerr + user) list \<Rightarrow> user list \<Rightarrow> gerr + user list" where
  "scan_rows [] out = Inr out"
| "scan_rows (Inl f # rs) out = Inl (Wrapf ''scan user'' f)"
| "scan_rows (Inr u # rs) out = scan_rows rs (out @ [u])"

definition pg_List ::
  "'h handle \<Rightarrow> env \<Rightarrow> 'h \<Rightarrow> go_int \<Rightarrow> go_int \<Rightarrow> 'h \<times> (user list \<times> go_int) res" where
  "pg_List db e h page pageSize =
     (let page = (if sint page < 1 then 1 else page);
          pageSize = (if sint pageSize \<le> 0 \<or> 100 < sint pageSize then 20 else pageSize);
          offset = (page - 1) * pageSize
      in case db_Query db e h (SelectPage pageSize offset) of
           (h, Inl f) \<Rightarrow> (h, Err (Wrapf ''list users'' f))
         | (h, Inr (rs, err)) \<Rightarrow>
             (case scan_rows rs [] of
                Inl f \<Rightarrow> (h, Err f)
              | Inr out \<Rightarrow>
                  (case err of
                     Some f \<Rightarrow> (h, Err f)
                   | None \<Rightarrow>
                       (case db_QueryInt db e h CountUsers of
                          (h, Inl f) \<Rightarrow> (h, Err f)
                        | (h, Inr n) \<Rightarrow> (h, Ok (out, n))))))"

definition NewUserRepo :: "'h handle \<Rightarrow> 'h repo_ops" where
  "NewUserRepo db =
     \<lparr>repo_Create = pg_Create db, repo_Get = pg_Get db, repo_Update = pg_Update db,
      repo_Delete = pg_Delete db, repo_List = pg_List db\<rparr>"

lemma NewUserRepo_simps [simp]:
  "repo_Create (NewUserRepo db) = pg_Create db" "repo_Get (NewUserRepo db) = pg_Get db"
  "repo_Update (NewUserRepo db) = pg_Update db" "repo_Delete (NewUserRepo db) = pg_Delete db"
  "repo_List (NewUserRepo db) = pg_List db"
  by (simp_all add: NewUserRepo_def)

subsection \<open>The unit of work\<close>

record ('h, 't) database =
  on_db :: "'h handle"
  on_tx :: "'t handle"
  db_Begin :: "env \<Rightarrow> 'h \<Rightarrow> 'h \<times> (gerr + 't)"
  db_Commit :: "env \<Rightarrow> 'h \<Rightarrow> 't \<Rightarrow> 'h \<times> gerr option"
  db_Rollback :: "env \<Rightarrow> 'h \<Rightarrow> 't \<Rightarrow> 'h \<times> gerr option"

definition pg_BeginTx :: "('h, 't) database \<Rightarrow> env \<Rightarrow> 'h \<Rightarrow> 'h \<times> 't res" where
  "pg_BeginTx d e h =
     (case db_Begin d e h of
        (h, Inl f) \<Rightarrow> (h, Err (Wrapf ''begin tx'' f))
      | (h, Inr t) \<Rightarrow> (h, Ok t))"

text \<open>
  \<open>txUserRepo\<close> is the text of \<open>UserRepo\<close> once more with the transaction in place of the database.
\<close>

definition txUserRepo_Create :: "('h, 't) database \<Rightarrow> env \<Rightarrow> 't \<Rightarrow> user \<Rightarrow> 't \<times> unit res" where
  "txUserRepo_Create d = pg_Create (on_tx d)"

definition txUserRepo_Get :: "('h, 't) database \<Rightarrow> env \<Rightarrow> 't \<Rightarrow> uuid \<Rightarrow> 't \<times> user res" where
  "txUserRepo_Get d = pg_Get (on_tx d)"

definition txUserRepo_Update :: "('h, 't) database \<Rightarrow> env \<Rightarrow> 't \<Rightarrow> user \<Rightarrow> 't \<times> unit res" where
  "txUserRepo_Update d = pg_Update (on_tx d)"

definition txUserRepo_Delete :: "('h, 't) database \<Rightarrow> env \<Rightarrow> 't \<Rightarrow> uuid \<Rightarrow> 't \<times> unit res" where
  "txUserRepo_Delete d = pg_Delete (on_tx d)"

definition txUserRepo_List ::
  "('h, 't) database \<Rightarrow> env \<Rightarrow> 't \<Rightarrow> go_int \<Rightarrow> go_int \<Rightarrow> 't \<times> (user list \<times> go_int) res" where
  "txUserRepo_List d = pg_List (on_tx d)"

lemmas txUserRepo_defs =
  txUserRepo_Create_def txUserRepo_Get_def txUserRepo_Update_def txUserRepo_Delete_def
  txUserRepo_List_def

definition of_error :: "'h \<times> gerr option \<Rightarrow> 'h \<times> unit res" where
  "of_error x = (case x of (h, None) \<Rightarrow> (h, Ok ()) | (h, Some f) \<Rightarrow> (h, Err f))"

lemma of_error_simps [simp]: "of_error (h, None) = (h, Ok ())" "of_error (h, Some f) = (h, Err f)"
  by (simp_all add: of_error_def)

definition userTxRepo :: "('h, 't) database \<Rightarrow> ('h, 't) tx_ops" where
  "userTxRepo d =
     \<lparr>tx_Begin = pg_BeginTx d,
      tx_UserRepo =
        \<lparr>repo_Create = txUserRepo_Create d, repo_Get = txUserRepo_Get d,
         repo_Update = txUserRepo_Update d, repo_Delete = txUserRepo_Delete d,
         repo_List = txUserRepo_List d\<rparr>,
      tx_Commit = (\<lambda>e h t. of_error (db_Commit d e h t)),
      tx_Rollback = (\<lambda>e h t. of_error (db_Rollback d e h t))\<rparr>"

lemma userTxRepo_simps [simp]:
  "tx_Begin (userTxRepo d) = pg_BeginTx d"
  "tx_Commit (userTxRepo d) e h t = of_error (db_Commit d e h t)"
  "tx_Rollback (userTxRepo d) e h t = of_error (db_Rollback d e h t)"
  by (simp_all add: userTxRepo_def)

abbreviation pg_service :: "('h, 't) database \<Rightarrow> ('h, 't) svc_ops" where
  "pg_service d \<equiv> NewUserService (NewUserRepo (on_db d)) (Some (userTxRepo d))"

subsection \<open>The meaning of the statements\<close>

text \<open>
  \<open>rows h\<close> is the table of \<open>migrations/0001_init.sql\<close> and \<open>0002_soft_delete.sql\<close>: the rows by their
  primary key, deleted ones included. E-mail addresses are unique over all rows. \<open>pr\<close> is the
  precision a \<open>TIMESTAMPTZ\<close> keeps. A statement that fails changes nothing.
\<close>

definition live_rows :: "users_map \<Rightarrow> users_map" where
  "live_rows m i = (case m i of None \<Rightarrow> None | Some u \<Rightarrow> if DeletedAt u = None then Some u else None)"

lemma live_rows_Some: "live_rows m i = Some u \<longleftrightarrow> m i = Some u \<and> DeletedAt u = None"
  by (auto simp: live_rows_def split: option.splits)

lemma live_rows_upd:
  "live_rows (m(i \<mapsto> u)) = (live_rows m)(i := if DeletedAt u = None then Some u else None)"
  by (auto simp: live_rows_def fun_eq_iff)

locale sql_users =
  fixes db :: "'h handle"
    and rows :: "'h \<Rightarrow> users_map"
    and good :: "'h \<Rightarrow> bool"
    and pr :: "time \<Rightarrow> time"
  assumes pr_idem: "pr (pr t) = pr t"
    and row_wf:
      "good h \<Longrightarrow> rows h i = Some u \<Longrightarrow>
       ID u = i \<and> pr (CreatedAt u) = CreatedAt u \<and> pr (UpdatedAt u) = UpdatedAt u"
    and email_unique:
      "good h \<Longrightarrow> rows h i = Some u \<Longrightarrow> rows h j = Some v \<Longrightarrow> Email u = Email v \<Longrightarrow> i = j"
    and insert_row:
      "wf_env e \<Longrightarrow> good h \<Longrightarrow> db_Exec db e h (InsertUser i n m c t) = (h', x) \<Longrightarrow>
       (case x of
          Inr k \<Rightarrow>
            rows h i = None \<and> m \<notin> Email ` ran (rows h) \<and> good h' \<and>
            rows h' = (rows h)(i \<mapsto> \<lparr>ID = i, Name = n, Email = m, CreatedAt = pr c,
                                   UpdatedAt = pr t, DeletedAt = None\<rparr>)
        | Inl f \<Rightarrow> h' = h \<and> opaque f)"
    and update_row:
      "wf_env e \<Longrightarrow> good h \<Longrightarrow> db_Exec db e h (UpdateRow i n m t) = (h', x) \<Longrightarrow>
       (case x of
          Inr k \<Rightarrow>
            good h' \<and>
            (case live_rows (rows h) i of
               None \<Rightarrow> k = 0 \<and> h' = h
             | Some u \<Rightarrow> k = 1 \<and> rows h' = (rows h)(i \<mapsto> u\<lparr>Name := n, Email := m, UpdatedAt := pr t\<rparr>))
        | Inl f \<Rightarrow> h' = h \<and> opaque f)"
    and delete_row:
      "wf_env e \<Longrightarrow> good h \<Longrightarrow> db_Exec db e h (SoftDelete i t) = (h', x) \<Longrightarrow>
       (case x of
          Inr k \<Rightarrow>
            good h' \<and>
            (case live_rows (rows h) i of
               None \<Rightarrow> k = 0 \<and> h' = h
             | Some u \<Rightarrow> k = 1 \<and> rows h' = (rows h)(i \<mapsto> u\<lparr>DeletedAt := Some (pr t)\<rparr>))
        | Inl f \<Rightarrow> h' = h \<and> opaque f \<and> \<not> calm e)"
    and select_row:
      "wf_env e \<Longrightarrow> good h \<Longrightarrow> db_QueryUser db e h (SelectUser i) = (h', y) \<Longrightarrow>
       h' = h \<and>
       (case y of
          Inr u \<Rightarrow> live_rows (rows h) i = Some u
        | Inl f \<Rightarrow> f = ErrNoRows \<and> live_rows (rows h) i = None \<or> opaque f \<and> \<not> calm e)"
    and select_page:
      "wf_env e \<Longrightarrow> good h \<Longrightarrow> db_Query db e h (SelectPage l off) = (h', z) \<Longrightarrow>
       (case z of
          Inl f \<Rightarrow> opaque f
        | Inr (rs, err) \<Rightarrow>
            (\<forall>f. Inl f \<in> set rs \<longrightarrow> opaque f) \<and> (\<forall>f. err = Some f \<longrightarrow> opaque f) \<and>
            (err = None \<longrightarrow> (\<forall>r \<in> set rs. \<not> isl r) \<longrightarrow>
               0 \<le> sint l \<and> 0 \<le> sint off \<and>
               (\<exists>full. listing (live_rows (rows h)) full \<and>
                  map projr rs = take (nat (sint l)) (drop (nat (sint off)) full))))"
    and count_rows:
      "wf_env e \<Longrightarrow> good h \<Longrightarrow> db_QueryInt db e h CountUsers = (h', w) \<Longrightarrow>
       (case w of Inl f \<Rightarrow> opaque f | Inr n \<Rightarrow> n = of_nat (card (ran (live_rows (rows h)))))"
    and query_state:
      "fst (db_Query db e h s) = h" "fst (db_QueryInt db e h s) = h" "fst (db_QueryUser db e h s) = h"

definition stored_row :: "(time \<Rightarrow> time) \<Rightarrow> user \<Rightarrow> user" where
  "stored_row pr u = u\<lparr>CreatedAt := pr (CreatedAt u), UpdatedAt := pr (UpdatedAt u)\<rparr>"

text \<open>The page arguments as \<open>List\<close> normalises them.\<close>

definition pg_norm :: "go_int \<Rightarrow> go_int \<Rightarrow> int \<times> int" where
  "pg_norm p z =
     (if sint p < 1 then 1 else sint p, if sint z \<le> 0 \<or> 100 < sint z then 20 else sint z)"

lemma scan_rows_ok:
  "(\<forall>r \<in> set rs. \<not> isl r) \<Longrightarrow> scan_rows rs out = Inr (out @ map projr rs)"
  by (induction rs out rule: scan_rows.induct) auto

lemma scan_rows_error:
  "scan_rows rs out = Inl f \<Longrightarrow> \<exists>g. Inl g \<in> set rs \<and> f = Wrapf ''scan user'' g"
  by (induction rs out rule: scan_rows.induct) auto

lemma scan_rows_Inr:
  "scan_rows rs out = Inr us \<Longrightarrow> (\<forall>r \<in> set rs. \<not> isl r) \<and> us = out @ map projr rs"
  by (induction rs out rule: scan_rows.induct) auto

context sql_users
begin

abbreviation (input) pg_live :: "'h \<Rightarrow> users_map" where "pg_live h \<equiv> live_rows (rows h)"

lemma live_row_wf:
  assumes "good h" "pg_live h i = Some u"
  shows "ID u = i \<and> DeletedAt u = None \<and> stored_row pr u = u"
  using assms row_wf [of h i u] by (auto simp: live_rows_Some stored_row_def)

lemma pg_create:
  assumes "wf_env e" "good h" "DeletedAt u = None" "pg_Create db e h u = (h', x)"
  shows "case x of
      Ok v \<Rightarrow> pg_live h (ID u) = None \<and> good h' \<and> pg_live h' = (pg_live h)(ID u \<mapsto> stored_row pr u)
    | Err f \<Rightarrow> h' = h \<and> opaque f
    | Panic q \<Rightarrow> False"
proof -
  let ?st = "InsertUser (ID u) (Name u) (Email u) (CreatedAt u) (UpdatedAt u)"
  obtain h1 y where y: "db_Exec db e h ?st = (h1, y)" by fastforce
  have st: "\<lparr>ID = ID u, Name = Name u, Email = Email u, CreatedAt = pr (CreatedAt u),
      UpdatedAt = pr (UpdatedAt u), DeletedAt = None\<rparr> = stored_row pr u"
    using assms(3) by (cases u) (simp add: stored_row_def)
  have del: "DeletedAt (stored_row pr u) = None" using assms(3) by (simp add: stored_row_def)
  from insert_row [OF assms(1,2) y] assms(4) y show ?thesis
    by (cases y)
      (auto simp: pg_Create_def st live_rows_upd del opaque_Wrapf live_rows_def)
qed

lemma pg_get:
  assumes "wf_env e" "good h"
  shows "fst (pg_Get db e h i) = h"
    "case snd (pg_Get db e h i) of
       Ok u \<Rightarrow> pg_live h i = Some u
     | Err f \<Rightarrow> f = ErrNotFound \<and> pg_live h i = None \<or> opaque f \<and> \<not> calm e
     | Panic q \<Rightarrow> False"
proof -
  obtain h1 y where y: "db_QueryUser db e h (SelectUser i) = (h1, y)" by fastforce
  note sel = select_row [OF assms y]
  show "fst (pg_Get db e h i) = h"
    using y sel by (cases y) (auto simp: pg_Get_def)
  show "case snd (pg_Get db e h i) of
       Ok u \<Rightarrow> pg_live h i = Some u
     | Err f \<Rightarrow> f = ErrNotFound \<and> pg_live h i = None \<or> opaque f \<and> \<not> calm e
     | Panic q \<Rightarrow> False"
    using y sel by (cases y) (auto simp: pg_Get_def opaque_def)
qed

lemma pg_update:
  assumes "wf_env e" "good h" "pg_live h (ID u) = Some u0" "CreatedAt u = CreatedAt u0"
    and "DeletedAt u = None" "pg_Update db e h u = (h', x)"
  shows "case x of
      Ok v \<Rightarrow> good h' \<and> pg_live h' = (pg_live h)(ID u \<mapsto> stored_row pr u)
    | Err f \<Rightarrow> h' = h \<and> opaque f
    | Panic q \<Rightarrow> False"
proof -
  obtain h1 y where y: "db_Exec db e h (UpdateRow (ID u) (Name u) (Email u) (UpdatedAt u)) = (h1, y)"
    by fastforce
  have u0: "ID u0 = ID u" "pr (CreatedAt u0) = CreatedAt u0" "DeletedAt u0 = None"
    using row_wf [OF assms(2), of "ID u" u0] assms(3) by (auto simp: live_rows_Some)
  have st: "u0\<lparr>Name := Name u, Email := Email u, UpdatedAt := pr (UpdatedAt u)\<rparr> = stored_row pr u"
    using u0 assms(4,5) by (cases u; cases u0) (simp add: stored_row_def)
  have del: "DeletedAt (stored_row pr u) = None" using assms(5) by (simp add: stored_row_def)
  from update_row [OF assms(1,2) y] assms(3,6) y show ?thesis
    by (cases y) (auto simp: pg_Update_def st live_rows_upd del opaque_Wrapf)
qed

lemma pg_update_missing:
  assumes "wf_env e" "good h" "pg_live h (ID u) = None" "pg_Update db e h u = (h', x)"
  shows "h' = h \<and> (\<exists>f. x = Err f \<and> (f = ErrNotFound \<or> opaque f))"
proof -
  obtain h1 y where y: "db_Exec db e h (UpdateRow (ID u) (Name u) (Email u) (UpdatedAt u)) = (h1, y)"
    by fastforce
  from update_row [OF assms(1,2) y] assms(3,4) y show ?thesis
    by (cases y) (auto simp: pg_Update_def opaque_Wrapf)
qed

lemma pg_delete:
  assumes "wf_env e" "good h" "pg_Delete db e h i = (h', x)"
  shows "case x of
      Ok v \<Rightarrow> pg_live h i \<noteq> None \<and> good h' \<and> pg_live h' = (pg_live h)(i := None)
    | Err f \<Rightarrow> h' = h \<and> (f = ErrNotFound \<and> pg_live h i = None \<or> opaque f \<and> \<not> calm e)
    | Panic q \<Rightarrow> False"
proof -
  obtain h1 y where y: "db_Exec db e h (SoftDelete i (now e)) = (h1, y)" by fastforce
  from delete_row [OF assms(1,2) y] assms(3) y show ?thesis
    by (cases y)
      (auto simp: pg_Delete_def live_rows_upd opaque_Wrapf split: option.splits)
qed

lemma pg_list_state: "fst (pg_List db e h p z) = h"
proof -
  let ?P = "if sint p < 1 then 1 else p" and ?Z = "if sint z \<le> 0 \<or> 100 < sint z then 20 else z"
  obtain y where y: "db_Query db e h (SelectPage ?Z ((?P - 1) * ?Z)) = (h, y)"
    using query_state(1) [of e h "SelectPage ?Z ((?P - 1) * ?Z)"] by (metis prod.collapse)
  obtain w where w: "db_QueryInt db e h CountUsers = (h, w)"
    using query_state(2) [of e h CountUsers] by (metis prod.collapse)
  show ?thesis by (auto simp: pg_List_def Let_def y w split: sum.split prod.split option.split)
qed

lemma pg_page_args:
  assumes "page_fits pg_norm m p z" "P = (if sint p < 1 then 1 else p)"
    and "Z = (if sint z \<le> 0 \<or> 100 < sint z then 20 else z)"
  shows "pg_norm p z = (sint P, sint Z)" "0 < sint Z" "0 < sint P"
    "sint ((P - 1) * Z) = (sint P - 1) * sint Z"
proof -
  show n: "pg_norm p z = (sint P, sint Z)" and Z: "0 < sint Z" and P: "0 < sint P"
    using assms(2,3) by (auto simp: pg_norm_def)
  have "sint P * sint Z \<le> max_int" using assms(1) n by (simp add: page_fits_def)
  moreover have "(sint P - 1) * sint Z \<le> sint P * sint Z" using Z by (simp add: mult_right_mono)
  moreover have "0 \<le> (sint P - 1) * sint Z" using P Z by simp
  ultimately have "min_int \<le> (sint P - 1) * sint Z" "(sint P - 1) * sint Z \<le> max_int" by linarith+
  then show "sint ((P - 1) * Z) = (sint P - 1) * sint Z"
    using sint_mult_small [of "P - 1" Z] by (simp add: sint_diff1 [OF P])
qed

lemma pg_list:
  assumes "wf_env e" "good h" "page_fits pg_norm (pg_live h) p z"
  shows "case snd (pg_List db e h p z) of
      Ok v \<Rightarrow> page_result pg_norm (pg_live h) p z (fst v) (snd v)
    | Err f \<Rightarrow> opaque f
    | Panic q \<Rightarrow> False"
proof -
  let ?P = "if sint p < 1 then 1 else p" and ?Z = "if sint z \<le> 0 \<or> 100 < sint z then 20 else z"
  let ?st = "SelectPage ?Z ((?P - 1) * ?Z)"
  note args = pg_page_args [OF assms(3) refl refl]
  obtain y where y: "db_Query db e h ?st = (h, y)"
    using query_state(1) [of e h ?st] by (metis prod.collapse)
  obtain w where w: "db_QueryInt db e h CountUsers = (h, w)"
    using query_state(2) [of e h CountUsers] by (metis prod.collapse)
  note page = select_page [OF assms(1,2) y] and count = count_rows [OF assms(1,2) w]
  show ?thesis
  proof (cases y)
    case (Inl f)
    then show ?thesis using page by (simp add: pg_List_def y opaque_Wrapf Let_def)
  next
    case (Inr re)
    obtain rs err where re: "re = (rs, err)" by fastforce
    show ?thesis
    proof (cases "scan_rows rs []")
      case (Inl f)
      with scan_rows_error page \<open>y = Inr re\<close> re have "opaque f"
        by (fastforce intro: opaque_Wrapf)
      then show ?thesis by (simp add: pg_List_def y \<open>y = Inr re\<close> re Inl Let_def)
    next
      case (Inr us)
      note us = scan_rows_Inr [OF Inr]
      show ?thesis
      proof (cases "err = None \<and> \<not> isl w")
        case False
        then show ?thesis
          using page count
          by (cases w; cases err) (auto simp: pg_List_def y w \<open>y = Inr re\<close> re Inr Let_def)
      next
        case True
        then obtain n where n: "w = Inr n" by (cases w) auto
        from page \<open>y = Inr re\<close> re us True obtain full where
          full: "listing (pg_live h) full"
            "us = take (nat (sint ?Z)) (drop (nat (sint ((?P - 1) * ?Z))) full)" by auto
        then have "page_result pg_norm (pg_live h) p z us n"
          using args count n listing_length [OF full(1)] by (auto simp: page_result_def)
        then show ?thesis
          using True by (simp add: pg_List_def y w \<open>y = Inr re\<close> re Inr n Let_def)
      qed
    qed
  qed
qed

lemma negative_offset:
  assumes "wf_env e" "good h" "0 < sint p" "0 < sint z" "sint z \<le> 100" "sint ((p - 1) * z) < 0"
  shows "\<exists>f. pg_List db e h p z = (h, Err f) \<and> opaque f"
proof -
  let ?st = "SelectPage z ((p - 1) * z)"
  obtain y where y: "db_Query db e h ?st = (h, y)"
    using query_state(1) [of e h ?st] by (metis prod.collapse)
  obtain w where w: "db_QueryInt db e h CountUsers = (h, w)"
    using query_state(2) [of e h CountUsers] by (metis prod.collapse)
  note page = select_page [OF assms(1,2) y]
  have args: "\<not> sint p < 1" "\<not> (sint z \<le> 0 \<or> 100 < sint z)" using assms(3-5) by auto
  show ?thesis
  proof (cases y)
    case (Inl f)
    then show ?thesis using page args by (auto simp: pg_List_def y opaque_Wrapf Let_def)
  next
    case (Inr re)
    obtain rs err where re: "re = (rs, err)" by fastforce
    show ?thesis
    proof (cases "scan_rows rs []")
      case (Inl f)
      with scan_rows_error page \<open>y = Inr re\<close> re have "opaque f" by (fastforce intro: opaque_Wrapf)
      then show ?thesis using args by (simp add: pg_List_def y \<open>y = Inr re\<close> re Inl Let_def)
    next
      case (Inr us)
      with scan_rows_Inr [OF Inr] page \<open>y = Inr re\<close> re assms(6) obtain f where
        "err = Some f" "opaque f" by (cases err) auto
      then show ?thesis using args by (simp add: pg_List_def y \<open>y = Inr re\<close> re Inr Let_def)
    qed
  qed
qed

lemma repo_contract:
  "user_repo (NewUserRepo db) pg_live good (stored_row pr) pg_norm"
proof (unfold_locales, goal_cases)
  case (6 e r i)
  then show ?case using pg_get [of e r i] by (auto split: res.splits)
next
  case (7 e r i)
  then show ?case
    using pg_get(2) [of e r i] by (auto simp: opaque_def split: res.splits option.splits)
next
  case (8 e r u r' x)
  then show ?case using pg_create [of e r u r' x] by simp
next
  case (9 e r u u0 r' x)
  then show ?case using pg_update [of e r u u0 r' x] by simp
next
  case (10 e r i r' x)
  then show ?case using pg_delete [of e r i r' x] by (auto split: res.splits)
next
  case (11 e r i)
  then show ?case
    using pg_delete [of e r i] by (cases "pg_Delete db e r i") (auto split: res.splits option.splits)
next
  case (12 e r p z)
  then show ?case using pg_list [of e r p z] pg_list_state by simp
next
  case (13 e r p z)
  then show ?case by (simp add: pg_list_state)
next
  case (14 e r u r' x)
  then show ?case using pg_update_missing [of e r u r' x] by simp
qed (simp_all add: stored_row_def live_row_wf [unfolded stored_row_def])

end

subsection \<open>The contract of a unit of work\<close>

text \<open>
  What \<open>WithTx\<close> relies on: a transaction starts on the committed rows and is invisible until its
  commit, a commit that succeeds makes the rows of the transaction the database's, and one that
  fails, like a rollback, leaves the database alone.
\<close>

locale unit_of_work =
  fixes d :: "('h, 't) database"
    and rows :: "'h \<Rightarrow> users_map"
    and tx_rows :: "'t \<Rightarrow> users_map"
  assumes tx_begin:
      "db_Begin d e h = (h', x) \<Longrightarrow> rows h' = rows h \<and> (\<forall>t. x = Inr t \<longrightarrow> tx_rows t = rows h)"
    and tx_commit:
      "db_Commit d e h t = (h', c) \<Longrightarrow> rows h' = (if c = None then tx_rows t else rows h)"
    and tx_rollback: "rows (fst (db_Rollback d e h t)) = rows h"

definition tx_outcome ::
  "('h, 't) database \<Rightarrow> ('h \<Rightarrow> users_map) \<Rightarrow> ('t \<Rightarrow> users_map) \<Rightarrow> env \<Rightarrow> 'h \<Rightarrow> 't tx_fn \<Rightarrow>
   'h \<Rightarrow> unit res \<Rightarrow> bool" where
  "tx_outcome d rows tx_rows e h fn h' x \<longleftrightarrow>
     (case x of
        Ok v \<Rightarrow>
          (\<exists>t t'. tx_rows t = rows h \<and> fn e (tx_UserRepo (userTxRepo d)) t = (t', Ok ()) \<and>
             rows h' = tx_rows t')
      | _ \<Rightarrow> rows h' = rows h)"

context unit_of_work
begin

lemma rollback_rows [simp]: "rows (fst (of_error (db_Rollback d e h t))) = rows h"
  using tx_rollback [of e h t] by (auto simp: of_error_def split: prod.split option.split)

lemma with_tx_outcome:
  assumes "service_WithTx (Some (userTxRepo d)) e h fn = (h', x)"
  shows "tx_outcome d rows tx_rows e h fn h' x"
proof -
  obtain h1 b where b: "db_Begin d e h = (h1, b)" by fastforce
  note start = tx_begin [OF b]
  show ?thesis
  proof (cases b)
    case (Inl f)
    then have "h' = h1" "x = Err (Wrapf ''begin tx'' f)"
      using assms b by (simp_all add: service_WithTx_def pg_BeginTx_def)
    then show ?thesis using start by (simp add: tx_outcome_def)
  next
    case (Inr t)
    obtain t' y where y: "fn e (tx_UserRepo (userTxRepo d)) t = (t', y)" by fastforce
    have begun: "pg_BeginTx d e h = (h1, Ok t)" by (simp add: pg_BeginTx_def b Inr)
    note run = assms [unfolded service_WithTx_def, simplified, unfolded begun prod.case res.case y]
    obtain h2 c where c: "db_Commit d e h1 t' = (h2, c)" by fastforce
    note commit = tx_commit [OF c]
    show ?thesis
    proof (cases "y = Ok () \<and> c = None")
      case True
      then have "h' = h2" "x = Ok ()"
        using run c by simp_all
      then show ?thesis using start commit y Inr True by (auto simp: tx_outcome_def)
    next
      case False
      have "\<not> is_ok x \<and> rows h' = rows h"
      proof (cases y)
        case (Ok v)
        with False obtain f where "c = Some f" by (cases c) auto
        then show ?thesis
          using run c Ok start commit by auto
      next
        case (Err f)
        then show ?thesis using run start by auto
      next
        case (Panic q)
        then show ?thesis using run start by auto
      qed
      then show ?thesis by (cases x) (auto simp: tx_outcome_def)
    qed
  qed
qed

end

end
