(* ===== verification/Pg_Table.thy ===== *)
theory Pg_Table
  imports Pg_Repo
begin

text \<open>
  An executable table that keeps the laws of \<open>sql_users\<close>, with transactions that work on a snapshot and
  are aborted by the first statement that fails, as in Postgres; the contracts of the repository and of the unit of
  work for it; and the properties of the Postgres storage.
\<close>

subsection \<open>The table\<close>

record table =
  tuples :: "(uuid \<times> user) list"

text \<open>A \<open>TIMESTAMPTZ\<close> keeps microseconds.\<close>

definition micro :: "time \<Rightarrow> time" where
  "micro t = (t div 1000) * 1000"

lemma micro_idem [simp]: "micro (micro t) = micro t"
  by (simp add: micro_def)

definition duplicate_key :: gerr where
  "duplicate_key = ErrorNew ''ERROR: duplicate key value violates unique constraint (SQLSTATE 23505)''"

lemma opaque_duplicate_key [simp]: "opaque duplicate_key"
  by (simp add: duplicate_key_def opaque_def)

abbreviation live_row :: "table \<Rightarrow> uuid \<Rightarrow> user option" where
  "live_row h \<equiv> live_rows (map_of (tuples h))"

definition table_run :: "table \<Rightarrow> stmt \<Rightarrow> table \<times> (gerr + int)" where
  "table_run h s =
     (case s of
        InsertUser i n m c t \<Rightarrow>
          if i \<in> set (map fst (tuples h)) \<or> m \<in> set (map (Email \<circ> snd) (tuples h))
          then (h, Inl duplicate_key)
          else (\<lparr>tuples = tuples h @ [(i, \<lparr>ID = i, Name = n, Email = m, CreatedAt = micro c,
                   UpdatedAt = micro t, DeletedAt = None\<rparr>)]\<rparr>, Inr 1)
      | UpdateRow i n m t \<Rightarrow>
          (case live_row h i of
             None \<Rightarrow> (h, Inr 0)
           | Some u \<Rightarrow>
               if \<exists>(j, v) \<in> set (tuples h). j \<noteq> i \<and> Email v = m then (h, Inl duplicate_key)
               else (\<lparr>tuples = AList.update i (u\<lparr>Name := n, Email := m, UpdatedAt := micro t\<rparr>) (tuples h)\<rparr>,
                     Inr 1))
      | SoftDelete i t \<Rightarrow>
          (case live_row h i of
             None \<Rightarrow> (h, Inr 0)
           | Some u \<Rightarrow> (\<lparr>tuples = AList.update i (u\<lparr>DeletedAt := Some (micro t)\<rparr>) (tuples h)\<rparr>, Inr 1))
      | s \<Rightarrow> (h, Inr 0))"

definition table_live :: "table \<Rightarrow> user list" where
  "table_live h = filter (\<lambda>u. DeletedAt u = None) (map snd (tuples h))"

definition table_page :: "table \<Rightarrow> stmt \<Rightarrow> gerr + (gerr + user) list \<times> gerr option" where
  "table_page h s =
     (case s of
        SelectPage l off \<Rightarrow>
          if sint l < 0 \<or> sint off < 0
          then Inl (ErrorNew ''ERROR: OFFSET must not be negative (SQLSTATE 2201X)'')
          else Inr (map Inr (take (nat (sint l)) (drop (nat (sint off))
                 (insertion_sort (\<lambda>a b. CreatedAt b < CreatedAt a) (table_live h)))), None)
      | s \<Rightarrow> Inl (ErrorNew ''not a query''))"

definition failing :: "env \<Rightarrow> stmt \<Rightarrow> 'h \<Rightarrow> ('h \<times> (gerr + 'a)) \<Rightarrow> 'h \<times> (gerr + 'a)" where
  "failing e s h x = (case db_error e (stmt_text s) of Some f \<Rightarrow> (h, Inl f) | None \<Rightarrow> x)"

definition table_handle :: "table handle" where
  "table_handle =
     \<lparr>db_Exec = (\<lambda>e h s. failing e s h (table_run h s)),
      db_QueryUser = (\<lambda>e h s. failing e s h
        (h, case s of SelectUser i \<Rightarrow> (case live_row h i of None \<Rightarrow> Inl ErrNoRows | Some u \<Rightarrow> Inr u)
            | s \<Rightarrow> Inl (ErrorNew ''not a query''))),
      db_QueryInt = (\<lambda>e h s. failing e s h (h, Inr (of_nat (length (table_live h))))),
      db_Query = (\<lambda>e h s. failing e s h (h, table_page h s))\<rparr>"

definition table_good :: "table \<Rightarrow> bool" where
  "table_good h \<longleftrightarrow>
     distinct (map fst (tuples h)) \<and> distinct (map (Email \<circ> snd) (tuples h)) \<and>
     (\<forall>(i, u) \<in> set (tuples h).
        ID u = i \<and> micro (CreatedAt u) = CreatedAt u \<and> micro (UpdatedAt u) = UpdatedAt u)"

lemma table_good_row:
  assumes "table_good h" "map_of (tuples h) i = Some u"
  shows "ID u = i" "micro (CreatedAt u) = CreatedAt u" "micro (UpdatedAt u) = UpdatedAt u"
  using assms map_of_SomeD [OF assms(2)] by (auto simp: table_good_def)

lemma table_good_email:
  assumes "table_good h" "map_of (tuples h) i = Some u" "map_of (tuples h) j = Some v" "Email u = Email v"
  shows "i = j"
proof -
  have "inj_on (Email \<circ> snd) (set (tuples h))"
    using assms(1) by (simp add: table_good_def distinct_map)
  from inj_onD [OF this _ map_of_SomeD [OF assms(2)] map_of_SomeD [OF assms(3)]] assms(4)
  show ?thesis by simp
qed

lemma table_good_update:
  assumes "table_good h" "ID w = i" "micro (CreatedAt w) = CreatedAt w" "micro (UpdatedAt w) = UpdatedAt w"
    and "\<forall>(j, v) \<in> set (tuples h). j \<noteq> i \<longrightarrow> Email v \<noteq> Email w"
  shows "table_good \<lparr>tuples = AList.update i w (tuples h)\<rparr>"
  using assms set_update_subset [of i w "tuples h"]
  by (auto simp: table_good_def distinct_update_by AList.distinct_update)

lemma table_live_listing:
  assumes "table_good h"
  shows "distinct (table_live h)" "set (table_live h) = ran (live_row h)"
proof -
  have dist: "distinct (map snd (tuples h))"
    using assms by (metis distinct_map map_map table_good_def)
  then show "distinct (table_live h)" by (simp add: table_live_def)
  have "u \<in> set (table_live h) \<longleftrightarrow> u \<in> ran (live_row h)" for u
    using assms by (force simp: table_live_def ran_def live_rows_Some table_good_def)
  then show "set (table_live h) = ran (live_row h)" by blast
qed

lemma strict_weak_created: "strict_weak (\<lambda>a b. CreatedAt b < CreatedAt a)"
  by (simp add: strict_weak_def)

lemma listing_table:
  assumes "table_good h"
  shows "listing (live_row h) (insertion_sort (\<lambda>a b. CreatedAt b < CreatedAt a) (table_live h))"
proof -
  let ?us = "insertion_sort (\<lambda>a b. CreatedAt b < CreatedAt a) (table_live h)"
  have m: "mset ?us = mset (table_live h)" by (rule mset_insertion_sort)
  have "distinct ?us" using mset_eq_imp_distinct_iff [OF m] table_live_listing(1) [OF assms] by simp
  moreover have "set ?us = set (table_live h)" by (rule mset_eq_setD [OF m])
  moreover have "sorted_wrt (\<lambda>a b. CreatedAt b \<le> CreatedAt a) ?us"
    using sorted_insertion_sort [OF strict_weak_created, of "table_live h"] by (simp add: not_less)
  ultimately show ?thesis using table_live_listing(2) [OF assms] by (simp add: listing_def)
qed

lemma failing_cases:
  assumes "failing e s h x = (h', y)"
  obtains (fault) f where "db_error e (stmt_text s) = Some f" "h' = h" "y = Inl f"
  | (fine) "x = (h', y)"
proof (cases "db_error e (stmt_text s)")
  case None
  then show ?thesis using assms fine by (simp add: failing_def)
next
  case (Some f)
  then show ?thesis using assms fault by (simp add: failing_def)
qed

lemma calm_no_fault: "calm e \<Longrightarrow> db_error e q \<noteq> Some f"
  by (simp add: calm_def)

lemma table_insert:
  assumes "table_good h" "table_run h (InsertUser i n m c t) = (h', x)"
  shows "case x of
      Inr k \<Rightarrow>
        map_of (tuples h) i = None \<and> m \<notin> Email ` ran (map_of (tuples h)) \<and> table_good h' \<and>
        map_of (tuples h') = (map_of (tuples h))(i \<mapsto> \<lparr>ID = i, Name = n, Email = m, CreatedAt = micro c,
                               UpdatedAt = micro t, DeletedAt = None\<rparr>)
    | Inl f \<Rightarrow> h' = h \<and> opaque f"
proof (cases "i \<in> set (map fst (tuples h)) \<or> m \<in> set (map (Email \<circ> snd) (tuples h))")
  case True
  then show ?thesis using assms(2) by (auto simp: table_run_def)
next
  case False
  then have none: "map_of (tuples h) i = None" by (simp add: map_of_eq_None_iff)
  moreover have "m \<notin> Email ` ran (map_of (tuples h))"
    using False by (force simp: ran_def dest: map_of_SomeD)
  moreover have "map_of (tuples h @ [(i, w)]) = (map_of (tuples h))(i \<mapsto> w)" for w
    using none by (auto simp: fun_eq_iff map_add_def split: option.splits)
  ultimately show ?thesis
    using assms False by (auto simp: table_run_def table_good_def simp del: map_of_append)
qed

lemma table_update:
  assumes "table_good h" "table_run h (UpdateRow i n m t) = (h', x)"
  shows "case x of
      Inr k \<Rightarrow>
        table_good h' \<and>
        (case live_row h i of
           None \<Rightarrow> k = 0 \<and> h' = h
         | Some u \<Rightarrow> k = 1 \<and>
             map_of (tuples h') = (map_of (tuples h))(i \<mapsto> u\<lparr>Name := n, Email := m, UpdatedAt := micro t\<rparr>))
    | Inl f \<Rightarrow> h' = h \<and> opaque f"
proof (cases "live_row h i")
  case None
  then show ?thesis using assms by (auto simp: table_run_def)
next
  case (Some u)
  then have u: "map_of (tuples h) i = Some u" by (simp add: live_rows_Some)
  show ?thesis
  proof (cases "\<exists>(j, v) \<in> set (tuples h). j \<noteq> i \<and> Email v = m")
    case True
    then show ?thesis using assms(2) Some by (auto simp: table_run_def)
  next
    case False
    have "table_good \<lparr>tuples = AList.update i (u\<lparr>Name := n, Email := m, UpdatedAt := micro t\<rparr>) (tuples h)\<rparr>"
      using table_good_row [OF assms(1) u] False by (intro table_good_update [OF assms(1)]) auto
    then show ?thesis using assms(2) Some False by (auto simp: table_run_def update_conv')
  qed
qed

lemma table_delete:
  assumes "table_good h" "table_run h (SoftDelete i t) = (h', x)"
  shows "\<exists>k. x = Inr k \<and> table_good h' \<and>
    (case live_row h i of
       None \<Rightarrow> k = 0 \<and> h' = h
     | Some u \<Rightarrow> k = 1 \<and> map_of (tuples h') = (map_of (tuples h))(i \<mapsto> u\<lparr>DeletedAt := Some (micro t)\<rparr>))"
proof (cases "live_row h i")
  case None
  then show ?thesis using assms by (simp add: table_run_def)
next
  case (Some u)
  then have u: "map_of (tuples h) i = Some u" by (simp add: live_rows_Some)
  have "Email v \<noteq> Email u" if "(j, v) \<in> set (tuples h)" "j \<noteq> i" for j v
    using table_good_email [OF assms(1) u, of j v] assms(1) that
    by (auto simp: table_good_def)
  then have "table_good \<lparr>tuples = AList.update i (u\<lparr>DeletedAt := Some (micro t)\<rparr>) (tuples h)\<rparr>"
    using table_good_row [OF assms(1) u] by (intro table_good_update [OF assms(1)]) auto
  then show ?thesis using assms(2) Some by (auto simp: table_run_def update_conv')
qed

interpretation pg_table: sql_users table_handle "\<lambda>h. map_of (tuples h)" table_good micro
proof (unfold_locales, goal_cases)
  case (2 h i u)
  then show ?case using table_good_row by blast
next
  case (3 h i u j v)
  then show ?case using table_good_email by blast
next
  case (4 e h i n m c t h' x)
  from 4(3) [unfolded table_handle_def, simplified] show ?case
    using table_insert [OF 4(2), of i n m c t h' x] wf_env_db [OF 4(1)]
    by (cases rule: failing_cases) auto
next
  case (5 e h i n m t h' x)
  from 5(3) [unfolded table_handle_def, simplified] show ?case
    using table_update [OF 5(2), of i n m t h' x] wf_env_db [OF 5(1)]
    by (cases rule: failing_cases) auto
next
  case (6 e h i t h' x)
  from 6(3) [unfolded table_handle_def, simplified] show ?case
    using table_delete [OF 6(2), of i t h' x] wf_env_db [OF 6(1)] calm_no_fault
    by (cases rule: failing_cases) auto
next
  case (7 e h i h' y)
  from 7(3) [unfolded table_handle_def, simplified] show ?case
    using wf_env_db [OF 7(1)] calm_no_fault
    by (cases rule: failing_cases) (auto split: option.splits)
next
  case (8 e h l off h' z)
  from 8(3) [unfolded table_handle_def, simplified] show ?case
    using wf_env_db [OF 8(1)] listing_table [OF 8(2)]
    by (cases rule: failing_cases)
      (auto simp: table_page_def opaque_def not_less comp_def split: if_splits)
next
  case (9 e h h' w)
  have "length (table_live h) = card (ran (live_row h))"
    using table_live_listing [OF 9(2)] by (metis distinct_card)
  with 9(3) [unfolded table_handle_def, simplified] show ?case
    using wf_env_db [OF 9(1)] by (cases rule: failing_cases) auto
qed (simp_all add: table_handle_def failing_def split: option.split)

interpretation pg: user_repo "NewUserRepo table_handle" "\<lambda>h. live_rows (map_of (tuples h))" table_good
    "stored_row micro" pg_norm
  by (rule pg_table.repo_contract)

subsection \<open>Transactions on the table\<close>

record txn =
  snapshot :: table
  aborted :: bool

definition aborted_tx :: gerr where
  "aborted_tx = ErrorNew ''ERROR: current transaction is aborted (SQLSTATE 25P02)''"

text \<open>A statement inside a transaction: refused once one has failed.\<close>

definition in_tx ::
  "(table \<Rightarrow> table \<times> (gerr + 'a)) \<Rightarrow> txn \<Rightarrow> txn \<times> (gerr + 'a)" where
  "in_tx f t =
     (if aborted t then (t, Inl aborted_tx)
      else case f (snapshot t) of
        (h, Inl g) \<Rightarrow> (t\<lparr>aborted := \<not> errors_is g ErrNoRows\<rparr>, Inl g)
      | (h, Inr x) \<Rightarrow> (t\<lparr>snapshot := h\<rparr>, Inr x))"

definition txn_handle :: "txn handle" where
  "txn_handle =
     \<lparr>db_Exec = (\<lambda>e t s. in_tx (\<lambda>h. db_Exec table_handle e h s) t),
      db_QueryUser = (\<lambda>e t s. in_tx (\<lambda>h. db_QueryUser table_handle e h s) t),
      db_QueryInt = (\<lambda>e t s. in_tx (\<lambda>h. db_QueryInt table_handle e h s) t),
      db_Query = (\<lambda>e t s. in_tx (\<lambda>h. db_Query table_handle e h s) t)\<rparr>"

definition table_db :: "(table, txn) database" where
  "table_db =
     \<lparr>on_db = table_handle, on_tx = txn_handle,
      db_Begin = (\<lambda>e h. (h, case db_error e ''BEGIN'' of Some f \<Rightarrow> Inl f
                            | None \<Rightarrow> Inr \<lparr>snapshot = h, aborted = False\<rparr>)),
      db_Commit = (\<lambda>e h t. case db_error e ''COMMIT'' of Some f \<Rightarrow> (h, Some f)
                    | None \<Rightarrow> if aborted t then (h, Some aborted_tx) else (snapshot t, None)),
      db_Rollback = (\<lambda>e h t. (h, db_error e ''ROLLBACK''))\<rparr>"

interpretation pg_tx: unit_of_work table_db "\<lambda>h. map_of (tuples h)" "\<lambda>t. map_of (tuples (snapshot t))"
  by unfold_locales (auto simp: table_db_def split: option.splits if_splits)

subsection \<open>Properties\<close>

text \<open>
  C5: The Postgres repository implements the repository contract over any database that gives the
  code's SQL its meaning: every method is its counterpart on the map of rows that are not deleted,
  at the database's time precision, and every failure is an error that maps to 404 (no live row) or
  500, with the rows unchanged.
\<close>

theorem pg_refines:
  assumes "sql_users db rows good pr"
  shows "user_repo (NewUserRepo db) (\<lambda>h. live_rows (rows h)) good (stored_row pr) pg_norm"
  using assms by (rule sql_users.repo_contract)

theorem pg_refines_witness:
  "user_repo (NewUserRepo table_handle) (\<lambda>h. live_rows (map_of (tuples h))) table_good
     (stored_row micro) pg_norm"
  by (rule pg_refines [OF pg_table.sql_users_axioms])


definition bob :: user where
  "bob = \<lparr>ID = 2, Name = ''Bob'', Email = ''bob@x'', CreatedAt = 1000, UpdatedAt = 1000,
    DeletedAt = None\<rparr>"

definition create_then_fail :: "'t tx_fn" where
  "create_then_fail e repo t =
     (case repo_Create repo e t bob of (t, x) \<Rightarrow> (t, Err (ErrorNew ''changed my mind'')))"


text \<open>
  C33: An e-mail address that a row holds, even the row of a deleted user, cannot be used for a new
  user, nothing is changed, and the answer is 500, not the 409 \<open>HTTPStatus\<close> has for a conflict.
\<close>

theorem pg_email_taken:
  assumes "sql_users db rows good pr" "wf_env e" "good h"
    and "rows h j = Some v" "create_input_ok e name email" "normalizeEmail e email = Ok (Email v)"
  shows "\<exists>f. service_Create (NewUserRepo db) e h name email = (h, Err f) \<and> HTTPStatus f = 500"
proof -
  let ?st = "InsertUser (fresh_id e) (trim_space name) (Email v) (now e) (now e)"
  obtain h' x where x: "db_Exec db e h ?st = (h', x)" by fastforce
  from sql_users.insert_row [OF assms(1-3) x] assms(4) obtain f where f: "x = Inl f" "h' = h" "opaque f"
    by (cases x) (auto simp: ran_def)
  then have "service_Create (NewUserRepo db) e h name email = (h, Err (Wrapf ''insert user'' f))"
    using assms(5,6) x by (simp add: service_Create_def create_input_ok_def pg_Create_def)
  then show ?thesis using f(3) by (simp add: HTTPStatus_opaque opaque_Wrapf)
qed

theorem pg_email_taken_witness:
  "\<exists>f. service_Create (NewUserRepo table_handle) sample_env \<lparr>tuples = [(2, bob\<lparr>DeletedAt := Some 2000\<rparr>)]\<rparr>
     ''Rob'' ''bob@x'' = (\<lparr>tuples = [(2, bob\<lparr>DeletedAt := Some 2000\<rparr>)]\<rparr>, Err f) \<and> HTTPStatus f = 500"
proof -
  let ?h = "\<lparr>tuples = [(2, bob\<lparr>DeletedAt := Some 2000\<rparr>)]\<rparr>"
  have good: "table_good ?h" by (simp add: table_good_def bob_def micro_def)
  have row: "map_of (tuples ?h) 2 = Some (bob\<lparr>DeletedAt := Some 2000\<rparr>)" by simp
  have "normalizeEmail sample_env ''bob@x'' = Ok ''bob@x''" by code_simp
  then have norm: "normalizeEmail sample_env ''bob@x'' = Ok (Email (bob\<lparr>DeletedAt := Some 2000\<rparr>))"
    by (simp add: bob_def)
  have input: "create_input_ok sample_env ''Rob'' ''bob@x''" by code_simp
  show ?thesis
    by (rule pg_email_taken [OF pg_table.sql_users_axioms wf_sample_env good row input norm])
qed

end
