(* ===== verification/Cached_Pg.thy ===== *)
theory Cached_Pg
  imports Cached_Mem Pg_Table
begin

text \<open>
  The stack of the default configuration: the caching decorator over the service over Postgres. It
  keeps the service contract, but for units of work: \<open>WithTx\<close> goes past the cache.
\<close>

abbreviation table_service :: "(table, txn) svc_ops" where
  "table_service \<equiv> pg_service table_db"

lemma on_table_db [simp]: "on_db table_db = table_handle" "on_tx table_db = txn_handle"
  by (simp_all add: table_db_def)

interpretation pg_svc: user_service table_service "\<lambda>h. live_rows (map_of (tuples h))" table_good
    "stored_row micro" pg_norm "(=)" "\<lambda>h. True"
  using user_repo.service_contract [OF pg.user_repo_axioms] by simp

interpretation cached_pg: cached_service table_service "\<lambda>h. live_rows (map_of (tuples h))" table_good
    "stored_row micro" pg_norm "(=)" "\<lambda>h. True" mem_cache_ops mem_entries sample_codec "\<lambda>u. u"
  by unfold_locales (use cached_mem.dec_enc_user cached_mem.dec_enc_list cached_mem.dec_empty
    cached_mem.inj_id_string in auto)

text \<open>
  What a unit of work commits is hidden by the cache: whatever \<open>fn\<close> does to a user the cache
  holds, lookups after a successful \<open>WithTx\<close> go on answering with the cached version.
\<close>

theorem with_tx_bypasses_cache:
  assumes "cache_Get cops (cache s) (cacheKeyUser cd i) = (c, Some x)" "dec_user cd x = Some w"
    and "cached_WithTx svc e s fn = (s', Ok v)"
  shows "snd (cached_Get svc cops cd e' s' i) = Ok w"
  using assms
  by (auto simp: cached_WithTx_def cached_Get_def getUser_def split: prod.splits)

definition rename_bob :: "'t tx_fn" where
  "rename_bob e repo t = repo_Update repo e t (bob\<lparr>Name := ''Rob''\<rparr>)"

definition bob_cached :: "(table, (bounded, server) layered) cached" where
  "bob_cached =
     \<lparr>base = \<lparr>tuples = [(2, bob)]\<rparr>,
      cache = \<lparr>local = \<lparr>capacity = 2, items = [(''user:get:2'', Some (put_user bob []))]\<rparr>,
               redis = None, ttl = 300\<rparr>,
      listVer = 0\<rparr>"

theorem with_tx_bypasses_cache_witness:
  "live_rows (map_of (tuples (base (fst (cached_WithTx table_service sample_env bob_cached rename_bob))))) 2 =
     Some (bob\<lparr>Name := ''Rob''\<rparr>) \<and>
   snd (cached_Get table_service mem_cache_ops sample_codec sample_env
     (fst (cached_WithTx table_service sample_env bob_cached rename_bob)) 2) = Ok bob"
proof
  let ?w = "cached_WithTx table_service sample_env bob_cached rename_bob"
  show "live_rows (map_of (tuples (base (fst ?w)))) 2 = Some (bob\<lparr>Name := ''Rob''\<rparr>)" by code_simp
  have w: "?w = (fst ?w, Ok ())"
    by (rule prod_eqI) (simp, code_simp)
  have hit: "cache_Get mem_cache_ops (cache bob_cached) (cacheKeyUser sample_codec 2) =
      (cache bob_cached, Some (put_user bob []))"
    by code_simp
  show "snd (cached_Get table_service mem_cache_ops sample_codec sample_env (fst ?w) 2) = Ok bob"
    by (rule with_tx_bypasses_cache [OF hit _ w]) (simp add: sample_codec_def)
qed

end
