(* ===== verification/Cached_Fleet.thy ===== *)
theory Cached_Fleet
  imports Cached_Pg
begin

text \<open>
  Several processes, and a process that restarts. What \<open>internal/core/cached_usersvc.go\<close> and
  \<open>internal/cache/cache.go\<close> keep in a process is the version of the lists and the local level of the
  cache; the store and Redis are shared and outlive it.
\<close>

record ('s, 'l, 'd) fleet =
  store :: 's
  shared_redis :: "'d option"
  lifetime :: int
  procs :: "('l \<times> go_uint64) list"

text \<open>The decorator's state as process \<open>k\<close> sees it, and what its call leaves.\<close>

definition seen_by :: "nat \<Rightarrow> ('s, 'l, 'd) fleet \<Rightarrow> ('s, ('l, 'd) layered) cached" where
  "seen_by k F =
     \<lparr>base = store F,
      cache = \<lparr>local = fst (procs F ! k), redis = shared_redis F, ttl = lifetime F\<rparr>,
      listVer = snd (procs F ! k)\<rparr>"

definition left_by :: "nat \<Rightarrow> ('s, 'l, 'd) fleet \<Rightarrow> ('s, ('l, 'd) layered) cached \<Rightarrow> ('s, 'l, 'd) fleet" where
  "left_by k F s =
     F\<lparr>store := base s, shared_redis := redis (cache s),
       procs := (procs F)[k := (local (cache s), listVer s)]\<rparr>"

definition fleet_call ::
  "('s, 't) svc_ops \<Rightarrow> 'l local_ops \<Rightarrow> 'd redis_ops \<Rightarrow> codec \<Rightarrow> env \<Rightarrow> nat \<Rightarrow> svc_call \<Rightarrow>
   ('s, 'l, 'd) fleet \<Rightarrow> ('s, 'l, 'd) fleet \<times> svc_answer"
where
  "fleet_call svc lops rops cd e k c F =
     map_prod (left_by k F) (\<lambda>a. a) (svc_step (cached_ops svc (layered_ops lops rops) cd) e c (seen_by k F))"

text \<open>A new process has an empty local level and begins again with version 0.\<close>

definition restart :: "'l \<Rightarrow> nat \<Rightarrow> ('s, 'l, 'd) fleet \<Rightarrow> ('s, 'l, 'd) fleet" where
  "restart l0 k F = F\<lparr>procs := (procs F)[k := (l0, 0)]\<rparr>"

lemmas fleet_defs =
  fleet_call_def seen_by_def left_by_def restart_def cached_Get_def cached_Delete_def cached_List_def
  cached_Create_def getUser_def setUser_def delUser_def bump_def layered_Get_def layered_Set_def
  layered_Delete_def bounded_ops_def bounded_Set_def bounded_Del_def server_ops_def wire_def Let_def


definition two_processes :: "(table, bounded, server) fleet" where
  "two_processes =
     \<lparr>store = \<lparr>tuples = [(2, bob)]\<rparr>, shared_redis = Some [], lifetime = 300,
      procs = [(\<lparr>capacity = 2, items = []\<rparr>, 0), (\<lparr>capacity = 2, items = []\<rparr>, 0)]\<rparr>"

abbreviation sample_call where
  "sample_call \<equiv> fleet_call table_service bounded_ops server_ops sample_codec sample_env"

lemma bob_coded: "enc_user sample_codec bob = Some (put_user bob [])"
    "dec_user sample_codec (put_user bob []) = Some bob" "ID bob = 2"
  by (simp_all add: sample_codec_def bob_def)




end
