(* ===== verification/Http_Model.thy ===== *)
theory Http_Model
  imports User_Model
begin

text \<open>
  \<open>net/http\<close> as the code uses it: requests, header maps, and \<open>http.ResponseWriter\<close>s. A writer is the
  connection's response under a stack of the wrappers that \<open>internal/middleware\<close> puts around it, the
  innermost handler's wrapper first; a wrapper that embeds a \<open>ResponseWriter\<close> passes on every method
  it does not redefine. \<open>internal/http/render\<close> closes the theory.
\<close>

subsection \<open>Requests and headers\<close>

text \<open>
  A header map takes a name, written as the code writes it, to its values. \<open>net/http\<close> compares names
  in canonical form; the code uses one spelling for each name.
\<close>

type_synonym headers = "string \<Rightarrow> string list"

definition hdr_get :: "headers \<Rightarrow> string \<Rightarrow> string" where
  "hdr_get h k = (case h k of [] \<Rightarrow> [] | v # vs \<Rightarrow> v)"

definition hdr_set :: "string \<Rightarrow> string \<Rightarrow> headers \<Rightarrow> headers" where
  "hdr_set k v h = h(k := [v])"

definition hdr_add :: "string \<Rightarrow> string \<Rightarrow> headers \<Rightarrow> headers" where
  "hdr_add k v h = h(k := h k @ [v])"

definition hdr_del :: "string \<Rightarrow> headers \<Rightarrow> headers" where
  "hdr_del k h = h(k := [])"

lemma hdr_get_set [simp]: "hdr_get (hdr_set k v h) k' = (if k' = k then v else hdr_get h k')"
  by (simp add: hdr_get_def hdr_set_def)

lemma hdr_set_apply: "hdr_set k v h k' = (if k' = k then [v] else h k')"
  by (simp add: hdr_set_def)

lemma hdr_add_apply: "hdr_add k v h k' = (if k' = k then h k @ [v] else h k')"
  by (simp add: hdr_add_def)

lemma hdr_del_apply: "hdr_del k h k' = (if k' = k then [] else h k')"
  by (simp add: hdr_del_def)

lemmas hdr_apply = hdr_set_apply hdr_add_apply hdr_del_apply

text \<open>
  The parts of a request the code reads; \<open>Query\<close> is the first value of a query parameter, \<open>URLParam\<close>
  what the router took from the path. \<open>request_id\<close> and \<open>deadline\<close> live in the request's context.
\<close>

record request =
  Method :: string
  Path :: string
  Header :: headers
  Query :: "string \<Rightarrow> string"
  URLParam :: "string \<Rightarrow> string"
  Body :: string
  RemoteAddr :: string
  request_id :: "string option"
  deadline :: "time option"

subsection \<open>JSON values\<close>

datatype json =
    JStr string
  | JInt int
  | JArr "json list"
  | JObj "(string \<times> json) list"

subsection \<open>The environment of a request\<close>

text \<open>
  Beside the environment of the service's operations: UUID text, the identifier drawn for a request
  without one, SHA-256 (the first eight bytes in hex), what a gzip stream starts with and how it goes
  on for its input, \<open>json.Encoder\<close>, and \<open>time.RFC3339\<close> formatting.
\<close>

record http_env =
  core :: env
  uuid_text :: "uuid \<Rightarrow> string"
  request_uuid :: uuid
  sha_hex :: "string \<Rightarrow> string"
  gz_head :: string
  gz_tail :: "string \<Rightarrow> string"
  json_text :: "json \<Rightarrow> string"
  rfc3339 :: "time \<Rightarrow> string"

definition unix_now :: "http_env \<Rightarrow> int" where
  "unix_now he = now (core he) div 1000000000"

subsection \<open>The connection's writer\<close>

text \<open>
  \<open>hdr\<close> is the live header map, \<open>sent\<close> what the first \<open>WriteHeader\<close> froze, \<open>out\<close> the body. A second
  \<open>WriteHeader\<close> is ignored, a \<open>Write\<close> without one sends 200, and 204 and 304 have no body.
\<close>

record conn =
  hdr :: headers
  sent :: "(nat \<times> headers) option"
  out :: string

definition conn_WriteHeader :: "nat \<Rightarrow> conn \<Rightarrow> conn" where
  "conn_WriteHeader code c = (case sent c of None \<Rightarrow> c\<lparr>sent := Some (code, hdr c)\<rparr> | Some s \<Rightarrow> c)"

definition body_allowed :: "nat \<Rightarrow> bool" where
  "body_allowed code \<longleftrightarrow> code \<noteq> 204 \<and> code \<noteq> 304"

definition conn_Write :: "string \<Rightarrow> conn \<Rightarrow> conn" where
  "conn_Write b c =
     (let c = conn_WriteHeader 200 c in
      case sent c of
        None \<Rightarrow> c
      | Some (code, h) \<Rightarrow> if body_allowed code then c\<lparr>out := out c @ b\<rparr> else c)"

lemma hdr_conn_WriteHeader [simp]: "hdr (conn_WriteHeader code c) = hdr c"
  by (simp add: conn_WriteHeader_def split: option.split)

lemma hdr_conn_Write [simp]: "hdr (conn_Write b c) = hdr c"
  by (cases "sent (conn_WriteHeader 200 c)") (auto simp: conn_Write_def Let_def)

definition new_conn :: conn where
  "new_conn = \<lparr>hdr = (\<lambda>k. []), sent = None, out = []\<rparr>"

text \<open>What the client receives when the handler is done: status, headers and body.\<close>

definition response :: "conn \<Rightarrow> nat \<times> headers \<times> string" where
  "response c = (case sent (conn_WriteHeader 200 c) of None \<Rightarrow> (200, hdr c, out c)
                 | Some (code, h) \<Rightarrow> (code, h, out c))"

definition status :: "conn \<Rightarrow> nat" where
  "status c = fst (response c)"

subsection \<open>Wrappers\<close>

text \<open>
  \<open>LStatus\<close> is \<open>statusWriter\<close> of \<open>logging.go\<close>; \<open>LGzip started input\<close> is \<open>gzipResponseWriter\<close> of
  \<open>compress.go\<close> with the state of its \<open>gzip.Writer\<close>; \<open>LRec body wrote status\<close> is \<open>respRecorder\<close> of
  \<open>etag.go\<close>.
\<close>

datatype layer =
    LStatus nat
  | LGzip bool string
  | LRec string bool nat

type_synonym writer = "layer list \<times> conn"

fun w_WriteHeader :: "nat \<Rightarrow> layer list \<Rightarrow> conn \<Rightarrow> writer" where
  "w_WriteHeader code [] c = ([], conn_WriteHeader code c)"
| "w_WriteHeader code (LStatus s # ls) c =
     (case w_WriteHeader code ls c of (ls, c) \<Rightarrow> (LStatus code # ls, c))"
| "w_WriteHeader code (LGzip started b # ls) c =
     (case w_WriteHeader code ls c of (ls, c) \<Rightarrow> (LGzip started b # ls, c))"
| "w_WriteHeader code (LRec b wrote s # ls) c =
     (case w_WriteHeader code ls c of (ls, c) \<Rightarrow> (LRec b True code # ls, c))"

text \<open>
  \<open>Write\<close>: the status writer passes it on; the gzip writer sends the stream's head with its first
  input and compresses the rest; the recorder only keeps it.
\<close>

fun w_Write :: "http_env \<Rightarrow> string \<Rightarrow> layer list \<Rightarrow> conn \<Rightarrow> writer" where
  "w_Write he b [] c = ([], conn_Write b c)"
| "w_Write he b (LStatus s # ls) c =
     (case w_Write he b ls c of (ls, c) \<Rightarrow> (LStatus s # ls, c))"
| "w_Write he b (LGzip started i # ls) c =
     (case (if started then (ls, c) else w_Write he (gz_head he) ls c) of
        (ls, c) \<Rightarrow> (LGzip True (i @ b) # ls, c))"
| "w_Write he b (LRec i wrote s # ls) c = (LRec (i @ b) wrote s # ls, c)"

definition WriteHeader :: "nat \<Rightarrow> writer \<Rightarrow> writer" where
  "WriteHeader code w = w_WriteHeader code (fst w) (snd w)"

definition Write :: "http_env \<Rightarrow> string \<Rightarrow> writer \<Rightarrow> writer" where
  "Write he b w = w_Write he b (fst w) (snd w)"

definition on_header :: "(headers \<Rightarrow> headers) \<Rightarrow> writer \<Rightarrow> writer" where
  "on_header f w = (fst w, (snd w)\<lparr>hdr := f (hdr (snd w))\<rparr>)"

text \<open>\<open>gzip.Writer.Close\<close>, on the writer below the gzip wrapper.\<close>

definition gz_Close :: "http_env \<Rightarrow> bool \<Rightarrow> string \<Rightarrow> writer \<Rightarrow> writer" where
  "gz_Close he started i w =
     Write he (gz_tail he i) (if started then w else Write he (gz_head he) w)"

subsection \<open>Handlers\<close>

text \<open>
  The process's state beside the service's: the log and the two metric families.
\<close>

datatype log_entry =
    PanicRecovered string
  | RequestDone "string option" string string nat

record 's world =
  svc :: 's
  logs :: "log_entry list"
  http_requests :: "(string \<times> string \<times> string) list"
  http_durations :: "(string \<times> string) list"

datatype hres = Returned | Panicked string

type_synonym 's handler = "http_env \<Rightarrow> request \<Rightarrow> 's world \<Rightarrow> writer \<Rightarrow> 's world \<times> writer \<times> hres"

text \<open>
  A handler that only uses its writer's methods is the list of the calls it makes.
\<close>

datatype action =
    SetHeader string string
  | AddHeader string string
  | DelHeader string
  | SendHeader nat
  | SendBody string

fun act :: "http_env \<Rightarrow> action \<Rightarrow> writer \<Rightarrow> writer" where
  "act he (SetHeader k v) w = on_header (hdr_set k v) w"
| "act he (AddHeader k v) w = on_header (hdr_add k v) w"
| "act he (DelHeader k) w = on_header (hdr_del k) w"
| "act he (SendHeader code) w = WriteHeader code w"
| "act he (SendBody b) w = Write he b w"

definition acts :: "http_env \<Rightarrow> action list \<Rightarrow> writer \<Rightarrow> writer" where
  "acts he as w = fold (act he) as w"

lemma acts_simps [simp]:
  "acts he [] w = w" "acts he (a # as) w = acts he as (act he a w)"
  "acts he (as @ bs) w = acts he bs (acts he as w)"
  by (simp_all add: acts_def)

text \<open>A plain handler: what it does to the service's state, the calls on its writer, how it ends.\<close>

type_synonym 's plain = "http_env \<Rightarrow> request \<Rightarrow> 's \<Rightarrow> 's \<times> action list \<times> hres"

definition serve :: "'s plain \<Rightarrow> 's handler" where
  "serve p he r st w =
     (case p he r (svc st) of (s, as, x) \<Rightarrow> (st\<lparr>svc := s\<rparr>, acts he as w, x))"

text \<open>\<open>http.Error\<close> and \<open>http.StatusText\<close>, for the codes the code uses.\<close>

definition StatusText :: "nat \<Rightarrow> string" where
  "StatusText code =
     (if code = 200 then ''OK'' else if code = 201 then ''Created'' else if code = 204 then ''No Content''
      else if code = 304 then ''Not Modified'' else if code = 400 then ''Bad Request''
      else if code = 401 then ''Unauthorized'' else if code = 404 then ''Not Found''
      else if code = 405 then ''Method Not Allowed'' else if code = 409 then ''Conflict''
      else if code = 500 then ''Internal Server Error''
      else if code = 503 then ''Service Unavailable'' else [])"

definition newline :: string where "newline = [char_of (10::nat)]"

definition http_Error :: "string \<Rightarrow> nat \<Rightarrow> action list" where
  "http_Error msg code =
     [DelHeader ''Content-Length'', SetHeader ''Content-Type'' ''text/plain; charset=utf-8'',
      SetHeader ''X-Content-Type-Options'' ''nosniff'', SendHeader code, SendBody (msg @ newline)]"

subsection \<open>Rendering\<close>

definition render_JSON :: "http_env \<Rightarrow> nat \<Rightarrow> json \<Rightarrow> action list" where
  "render_JSON he code v =
     [SetHeader ''Content-Type'' ''application/json'', SendHeader code,
      SendBody (json_text he v @ newline)]"

text \<open>\<open>ProblemDetails\<close> in the order of its fields; an empty \<open>type\<close> or \<open>detail\<close> is left out.\<close>

definition problem_json :: "nat \<Rightarrow> string \<Rightarrow> string \<Rightarrow> json" where
  "problem_json code title detail =
     JObj ([(''title'', JStr title), (''status'', JInt (int code))] @
       (if detail = [] then [] else [(''detail'', JStr detail)]))"

definition render_Problem :: "http_env \<Rightarrow> nat \<Rightarrow> string \<Rightarrow> string \<Rightarrow> action list" where
  "render_Problem he code title detail =
     [SetHeader ''Content-Type'' ''application/problem+json'', SendHeader code,
      SendBody (json_text he (problem_json code title detail) @ newline)]"

end
