(* ===== verification/Metrics_Registry.thy ===== *)
theory Metrics_Registry
  imports Http_Model
begin

text \<open>
  \<open>internal/metrics/metrics.go\<close>: the registry and its two families. A family is the list of its labels;
  what has been counted is the history in \<open>http_requests\<close> and \<open>http_durations\<close> of the world. The
  Prometheus client panics when it is given a number of values that is not that of the labels, or a
  value that is not UTF-8.
\<close>

record registry =
  HTTPRequests :: "string list"
  HTTPDuration :: "string list"

definition NewRegistry :: registry where
  "NewRegistry =
     \<lparr>HTTPRequests = [''method'', ''path'', ''status''], HTTPDuration = [''method'', ''path'']\<rparr>"

text \<open>\<open>WithLabelValues\<close>: the panic, if it panics.\<close>

definition WithLabelValues :: "string list \<Rightarrow> string list \<Rightarrow> string option" where
  "WithLabelValues labels values =
     (if length values \<noteq> length labels then Some ''inconsistent label cardinality''
      else case filter (\<lambda>v. \<not> utf8_valid v) values of
        [] \<Rightarrow> None
      | v # vs \<Rightarrow> Some (''label value '' @ v @ '' is not valid UTF-8''))"

definition inc_requests :: "request \<Rightarrow> nat \<Rightarrow> 's world \<Rightarrow> 's world \<times> hres" where
  "inc_requests r code st =
     (case WithLabelValues (HTTPRequests NewRegistry) [Method r, Path r, StatusText code] of
        Some q \<Rightarrow> (st, Panicked q)
      | None \<Rightarrow> (st\<lparr>http_requests := http_requests st @ [(Method r, Path r, StatusText code)]\<rparr>, Returned))"

definition observe_duration :: "request \<Rightarrow> 's world \<Rightarrow> 's world \<times> hres" where
  "observe_duration r st =
     (case WithLabelValues (HTTPDuration NewRegistry) [Method r, Path r] of
        Some q \<Rightarrow> (st, Panicked q)
      | None \<Rightarrow> (st\<lparr>http_durations := http_durations st @ [(Method r, Path r)]\<rparr>, Returned))"

text \<open>A request whose labels the client accepts.\<close>

definition countable_request :: "request \<Rightarrow> bool" where
  "countable_request r \<longleftrightarrow> utf8_valid (Method r) \<and> utf8_valid (Path r)"

lemma countable_request_update [simp]:
  "countable_request (r\<lparr>request_id := i\<rparr>) = countable_request r"
  "countable_request (r\<lparr>deadline := d\<rparr>) = countable_request r"
  by (simp_all add: countable_request_def)

definition bad_label :: "request \<Rightarrow> string" where
  "bad_label r = ''label value '' @ (if utf8_valid (Method r) then Path r else Method r) @ '' is not valid UTF-8''"

lemma utf8_StatusText [simp]: "utf8_valid (StatusText code)"
  by (rule utf8_valid_ascii) (simp add: StatusText_def is_ascii_def)

lemma inc_requests_eq:
  "inc_requests r code st =
     (if countable_request r
      then (st\<lparr>http_requests := http_requests st @ [(Method r, Path r, StatusText code)]\<rparr>, Returned)
      else (st, Panicked (bad_label r)))"
  by (simp add: inc_requests_def WithLabelValues_def NewRegistry_def countable_request_def bad_label_def)

lemma observe_duration_eq:
  "observe_duration r st =
     (if countable_request r
      then (st\<lparr>http_durations := http_durations st @ [(Method r, Path r)]\<rparr>, Returned)
      else (st, Panicked (bad_label r)))"
  by (simp add: observe_duration_def WithLabelValues_def NewRegistry_def countable_request_def bad_label_def)

end
