(* ===== verification/Middleware.thy ===== *)
theory Middleware
  imports Metrics_Registry
begin

text \<open>
  \<open>internal/middleware\<close>: each middleware as a function from a handler to a handler. A middleware that
  wraps the writer pushes its wrapper, runs the handler, and takes the wrapper off again, also when
  the handler panics: what it does after the handler returned is skipped then, what it deferred is
  not.
\<close>

definition pop :: "writer \<Rightarrow> writer" where
  "pop w = (tl (fst w), snd w)"

definition push :: "layer \<Rightarrow> writer \<Rightarrow> writer" where
  "push l w = (l # fst w, snd w)"

subsection \<open>RequestID, Recovery, Timeout\<close>

definition RequestID :: "'s handler \<Rightarrow> 's handler" where
  "RequestID next he r st w =
     (let i = hdr_get (Header r) ''X-Request-ID'';
          i = (if i = [] then uuid_text he (request_uuid he) else i)
      in next he (r\<lparr>request_id := Some i\<rparr>) st (on_header (hdr_set ''X-Request-ID'' i) w))"

definition GetRequestID :: "request \<Rightarrow> string" where
  "GetRequestID r = (case request_id r of None \<Rightarrow> [] | Some i \<Rightarrow> i)"

definition Recovery :: "'s handler \<Rightarrow> 's handler" where
  "Recovery next he r st w =
     (case next he r st w of
        (st, w, Returned) \<Rightarrow> (st, w, Returned)
      | (st, w, Panicked q) \<Rightarrow>
          (st\<lparr>logs := logs st @ [PanicRecovered q]\<rparr>,
           acts he (http_Error (StatusText 500) 500) w, Returned))"

definition Timeout :: "int \<Rightarrow> 's handler \<Rightarrow> 's handler" where
  "Timeout d next he r st w = next he (r\<lparr>deadline := Some (now (core he) + d)\<rparr>) st w"

subsection \<open>Logging and Metrics\<close>

text \<open>\<open>m\<close> tells whether there is a metrics registry.\<close>

definition count_request :: "request \<Rightarrow> nat \<Rightarrow> 's world \<Rightarrow> 's world \<times> hres" where
  "count_request r code st =
     (case inc_requests r code st of
        (st, Panicked q) \<Rightarrow> (st, Panicked q)
      | (st, Returned) \<Rightarrow> observe_duration r st)"

definition Logging :: "bool \<Rightarrow> 's handler \<Rightarrow> 's handler" where
  "Logging m next he r st w =
     (case next he r st (push (LStatus 200) w) of
        (st, w, Panicked q) \<Rightarrow> (st, pop w, Panicked q)
      | (st, w, Returned) \<Rightarrow>
          (let code = (case fst w of LStatus s # ls \<Rightarrow> s | ls \<Rightarrow> 200)
           in case (if m then count_request r code st else (st, Returned)) of
                (st, Panicked q) \<Rightarrow> (st, pop w, Panicked q)
              | (st, Returned) \<Rightarrow>
                  (st\<lparr>logs := logs st @ [RequestDone (request_id r) (Method r) (Path r) code]\<rparr>,
                   pop w, Returned)))"

definition Metrics :: "bool \<Rightarrow> 's handler \<Rightarrow> 's handler" where
  "Metrics m next he r st w =
     (if \<not> m then next he r st w
      else case next he r st w of
        (st, w, Panicked q) \<Rightarrow> (st, w, Panicked q)
      | (st, w, Returned) \<Rightarrow>
          (case observe_duration r st of (st, x) \<Rightarrow> (st, w, x)))"

subsection \<open>CORS\<close>

definition cors_headers :: "string \<Rightarrow> action list" where
  "cors_headers origin =
     [SetHeader ''Access-Control-Allow-Origin'' origin,
      SetHeader ''Vary'' ''Origin'',
      SetHeader ''Access-Control-Allow-Headers'' ''Content-Type,Authorization,X-Request-ID,X-API-Key'',
      SetHeader ''Access-Control-Allow-Methods'' ''GET,POST,PATCH,DELETE,OPTIONS'',
      SetHeader ''Access-Control-Allow-Credentials'' ''true'',
      SetHeader ''Access-Control-Expose-Headers'' ''ETag,Warning'']"

definition CORS :: "string list \<Rightarrow> 's handler \<Rightarrow> 's handler" where
  "CORS allowed next he r st w =
     (let origin = hdr_get (Header r) ''Origin'';
          w = (if origin \<noteq> [] \<and> (allowed = [] \<or> origin \<in> set (map trim_space allowed))
               then acts he (cors_headers origin) w else w)
      in if Method r = ''OPTIONS'' then (st, WriteHeader 204 w, Returned) else next he r st w)"

subsection \<open>Gzip\<close>

text \<open>
  \<open>compress/gzip\<close>'s levels run from \<open>HuffmanOnly = -2\<close> to \<open>BestCompression = 9\<close>; \<open>NewWriterLevel\<close>
  refuses others.
\<close>

definition Gzip :: "int \<Rightarrow> 's handler \<Rightarrow> 's handler" where
  "Gzip level next he r st w =
     (let level = (if level < -2 then 1 else level) in
      if \<not> contains_str ''gzip'' (hdr_get (Header r) ''Accept-Encoding'') then next he r st w
      else if 9 < level then next he r st w
      else case next he r st (push (LGzip False []) (on_header (hdr_set ''Content-Encoding'' ''gzip'') w)) of
        (st, w, x) \<Rightarrow>
          (st, case fst w of LGzip started i # ls \<Rightarrow> gz_Close he started i (pop w) | ls \<Rightarrow> pop w, x))"

subsection \<open>ETag\<close>

definition hdrContentTypeJSON :: "headers \<Rightarrow> bool" where
  "hdrContentTypeJSON h \<longleftrightarrow>
     hdr_get h ''Content-Type'' = ''application/json'' \<or>
     hdr_get h ''Content-Type'' = ''application/json; charset=utf-8''"

definition quoted :: "string \<Rightarrow> string" where
  "quoted s = [CHR 0x22] @ s @ [CHR 0x22]"

definition etag_finish :: "http_env \<Rightarrow> request \<Rightarrow> string \<Rightarrow> bool \<Rightarrow> nat \<Rightarrow> writer \<Rightarrow> writer" where
  "etag_finish he r body wrote code w =
     (if code = 200 \<and> hdrContentTypeJSON (hdr (snd w)) \<and> 0 < length body then
        let etag = quoted (sha_hex he body);
            inm = hdr_get (Header r) ''If-None-Match'';
            w = on_header (hdr_set ''ETag'' etag) w
        in if inm \<noteq> [] \<and> inm = etag then WriteHeader 304 w
           else Write he body (if wrote then w else WriteHeader code w)
      else w)"

definition ETag :: "'s handler \<Rightarrow> 's handler" where
  "ETag next he r st w =
     (case next he r st (push (LRec [] False 200) w) of
        (st, w, Panicked q) \<Rightarrow> (st, pop w, Panicked q)
      | (st, w, Returned) \<Rightarrow>
          (st, case fst w of LRec body wrote code # ls \<Rightarrow> etag_finish he r body wrote code (pop w)
               | ls \<Rightarrow> pop w, Returned))"

subsection \<open>API keys\<close>

record api_key_options =
  Current :: "string list"
  Old :: "string list"
  Expiries :: "(string \<times> int) list"

definition isExpired :: "http_env \<Rightarrow> string \<Rightarrow> (string \<times> int) list \<Rightarrow> bool" where
  "isExpired he key expiries \<longleftrightarrow>
     expiries \<noteq> [] \<and>
     (case map_of expiries key of None \<Rightarrow> False | Some ts \<Rightarrow> ts \<le> unix_now he)"

definition unauthorized :: "action list" where
  "unauthorized = SetHeader ''WWW-Authenticate'' ''ApiKey realm=api'' # http_Error (StatusText 401) 401"

text \<open>
  The candidate: the \<open>X-API-Key\<close> header, or what follows \<open>ApiKey\<close> in \<open>Authorization\<close>. The prefix is
  compared in lower case, the slice taken from the header as it came.
\<close>

definition candidate_key :: "http_env \<Rightarrow> request \<Rightarrow> string res" where
  "candidate_key he r =
     (let v = hdr_get (Header r) ''X-API-Key''; auth = hdr_get (Header r) ''Authorization'' in
      if v \<noteq> [] then Ok v
      else if take 7 (to_lower (unicode_lower (core he)) auth) = ''apikey ''
      then (if length auth < 7 then Panic ''slice bounds out of range'' else Ok (trim_space (drop 7 auth)))
      else Ok [])"

definition deprecated_warning :: string where
  "deprecated_warning =
     ''299 - '' @ quoted ''Deprecated API key in use; rotate to a current key''"

definition APIKeyAuthWithOpts :: "api_key_options \<Rightarrow> 's handler \<Rightarrow> 's handler" where
  "APIKeyAuthWithOpts opts next he r st w =
     (if Current opts = [] \<and> Old opts = [] then next he r st w
      else case candidate_key he r of
        Panic q \<Rightarrow> (st, w, Panicked q)
      | Err f \<Rightarrow> (st, w, Panicked [])
      | Ok candidate \<Rightarrow>
          if candidate = [] then (st, acts he unauthorized w, Returned)
          else if candidate \<in> set (Current opts) then
            (if isExpired he candidate (Expiries opts) then (st, acts he unauthorized w, Returned)
             else next he r st w)
          else if candidate \<in> set (Old opts) then
            (if isExpired he candidate (Expiries opts) then (st, acts he unauthorized w, Returned)
             else next he r st (on_header (hdr_add ''Warning'' deprecated_warning) w))
          else (st, acts he unauthorized w, Returned))"

definition APIKeyAuth :: "string list \<Rightarrow> 's handler \<Rightarrow> 's handler" where
  "APIKeyAuth keys = APIKeyAuthWithOpts \<lparr>Current = keys, Old = [], Expiries = []\<rparr>"

end
