(* ===== verification/Middleware_Facts.thy ===== *)
theory Middleware_Facts
  imports Middleware
begin

text \<open>
  What a plain handler's calls do to each wrapper and to the writer below it, so that a middleware
  around a plain handler is again a list of calls; and the properties of the middlewares.
\<close>

subsection \<open>Calls\<close>

fun bodies :: "action list \<Rightarrow> string" where
  "bodies [] = []"
| "bodies (SendBody b # as) = b @ bodies as"
| "bodies (a # as) = bodies as"

fun no_bodies :: "action list \<Rightarrow> action list" where
  "no_bodies [] = []"
| "no_bodies (SendBody b # as) = no_bodies as"
| "no_bodies (a # as) = a # no_bodies as"

text \<open>The code of the last \<open>WriteHeader\<close>, and whether there is one.\<close>

fun last_code :: "nat \<Rightarrow> action list \<Rightarrow> nat" where
  "last_code s [] = s"
| "last_code s (SendHeader code # as) = last_code code as"
| "last_code s (a # as) = last_code s as"

fun sends_header :: "action list \<Rightarrow> bool" where
  "sends_header [] = False"
| "sends_header (SendHeader code # as) = True"
| "sends_header (a # as) = sends_header as"

fun sends_body :: "action list \<Rightarrow> bool" where
  "sends_body [] = False"
| "sends_body (SendBody b # as) = True"
| "sends_body (a # as) = sends_body as"

text \<open>The calls a gzip writer makes below it: the head of the stream for the first input.\<close>

fun gz_calls :: "http_env \<Rightarrow> bool \<Rightarrow> action list \<Rightarrow> action list" where
  "gz_calls he started [] = []"
| "gz_calls he started (SendBody b # as) =
     (if started then gz_calls he True as else SendBody (gz_head he) # gz_calls he True as)"
| "gz_calls he started (a # as) = a # gz_calls he started as"

lemma acts_LStatus:
  "acts he as (LStatus s # ls, c) =
     push (LStatus (last_code s as)) (acts he as (ls, c))"
proof (induction as arbitrary: s ls c)
  case Nil
  then show ?case by (simp add: push_def)
next
  case (Cons a as)
  show ?case
  proof (cases a)
    case (SendHeader code)
    obtain ls' c' where w: "w_WriteHeader code ls c = (ls', c')" by fastforce
    then show ?thesis using Cons [of code ls' c'] by (simp add: SendHeader WriteHeader_def)
  next
    case (SendBody b)
    obtain ls' c' where w: "w_Write he b ls c = (ls', c')" by fastforce
    then show ?thesis using Cons [of s ls' c'] by (simp add: SendBody Write_def)
  qed (simp_all add: Cons on_header_def)
qed

lemma acts_LRec:
  "acts he as (LRec b wrote s # ls, c) =
     push (LRec (b @ bodies as) (wrote \<or> sends_header as) (last_code s as))
       (acts he (no_bodies as) (ls, c))"
proof (induction as arbitrary: b wrote s ls c)
  case Nil
  then show ?case by (simp add: push_def)
next
  case (Cons a as)
  show ?case
  proof (cases a)
    case (SendHeader code)
    obtain ls' c' where w: "w_WriteHeader code ls c = (ls', c')" by fastforce
    then show ?thesis using Cons [of b True code ls' c'] by (simp add: SendHeader WriteHeader_def)
  qed (simp_all add: Cons on_header_def Write_def)
qed

lemma acts_LGzip:
  "acts he as (LGzip started i # ls, c) =
     push (LGzip (started \<or> sends_body as) (i @ bodies as)) (acts he (gz_calls he started as) (ls, c))"
proof (induction as arbitrary: started i ls c)
  case Nil
  then show ?case by (simp add: push_def)
next
  case (Cons a as)
  show ?case
  proof (cases a)
    case (SendHeader code)
    obtain ls' c' where w: "w_WriteHeader code ls c = (ls', c')" by fastforce
    then show ?thesis using Cons [of started i ls' c'] by (simp add: SendHeader WriteHeader_def)
  next
    case (SendBody b)
    obtain ls' c' where w: "w_Write he (gz_head he) ls c = (ls', c')" by fastforce
    then show ?thesis using Cons [of True "i @ b"] by (auto simp: SendBody Write_def)
  qed (simp_all add: Cons on_header_def)
qed

subsection \<open>Calls on the connection\<close>

text \<open>\<open>acts\<close> with no wrapper, and what the client sees of it.\<close>

fun conn_act :: "action \<Rightarrow> conn \<Rightarrow> conn" where
  "conn_act (SetHeader k v) c = c\<lparr>hdr := hdr_set k v (hdr c)\<rparr>"
| "conn_act (AddHeader k v) c = c\<lparr>hdr := hdr_add k v (hdr c)\<rparr>"
| "conn_act (DelHeader k) c = c\<lparr>hdr := hdr_del k (hdr c)\<rparr>"
| "conn_act (SendHeader code) c = conn_WriteHeader code c"
| "conn_act (SendBody b) c = conn_Write b c"

lemma acts_conn: "acts he as ([], c) = ([], fold conn_act as c)"
proof (induction as arbitrary: c)
  case (Cons a as)
  then show ?case by (cases a) (simp_all add: on_header_def WriteHeader_def Write_def)
qed simp

lemma conn_WriteHeader_sent [simp]: "sent c = Some s \<Longrightarrow> conn_WriteHeader code c = c"
  by (simp add: conn_WriteHeader_def)

lemma conn_Write_sent [simp]:
  "sent c = Some (code, h) \<Longrightarrow> conn_Write b c = (if body_allowed code then c\<lparr>out := out c @ b\<rparr> else c)"
  by (simp add: conn_Write_def)

lemma sent_conn_act [simp]: "sent c = Some s \<Longrightarrow> sent (conn_act a c) = Some s"
  by (cases a; cases s) auto

lemma fold_conn_sent:
  assumes "sent c = Some (code, h)"
  shows "sent (fold conn_act as c) = Some (code, h)"
    "out (fold conn_act as c) = out c @ (if body_allowed code then bodies as else [])"
proof -
  have "sent (fold conn_act as c) = Some (code, h) \<and>
    out (fold conn_act as c) = out c @ (if body_allowed code then bodies as else [])"
    using assms
  proof (induction as arbitrary: c)
    case (Cons a as)
    then show ?case by (cases a) auto
  qed simp
  then show "sent (fold conn_act as c) = Some (code, h)"
    "out (fold conn_act as c) = out c @ (if body_allowed code then bodies as else [])" by auto
qed

text \<open>The first code sent, 200 when there is none or a body comes first; the headers sent with it.\<close>

fun first_code :: "action list \<Rightarrow> nat" where
  "first_code [] = 200"
| "first_code (SendHeader code # as) = code"
| "first_code (SendBody b # as) = 200"
| "first_code (a # as) = first_code as"

fun sent_headers :: "headers \<Rightarrow> action list \<Rightarrow> headers" where
  "sent_headers h [] = h"
| "sent_headers h (SetHeader k v # as) = sent_headers (hdr_set k v h) as"
| "sent_headers h (AddHeader k v # as) = sent_headers (hdr_add k v h) as"
| "sent_headers h (DelHeader k # as) = sent_headers (hdr_del k h) as"
| "sent_headers h (SendHeader code # as) = h"
| "sent_headers h (SendBody b # as) = h"

lemma response_sent: "sent c = Some (code, h) \<Longrightarrow> response c = (code, h, out c)"
  by (simp add: response_def)

lemma response_acts:
  assumes "sent c = None"
  shows "response (fold conn_act as c) =
    (first_code as, sent_headers (hdr c) as,
     out c @ (if body_allowed (first_code as) then bodies as else []))"
  using assms
proof (induction as arbitrary: c)
  case Nil
  then show ?case by (simp add: response_def conn_WriteHeader_def)
next
  case (Cons a as)
  show ?case
  proof (cases a)
    case (SendHeader code)
    have "sent (conn_WriteHeader code c) = Some (code, hdr c)"
      using Cons.prems by (simp add: conn_WriteHeader_def)
    note s = fold_conn_sent [OF this, of as]
    have "out (conn_WriteHeader code c) = out c" by (simp add: conn_WriteHeader_def split: option.split)
    then show ?thesis using response_sent [OF s(1)] s(2) by (simp add: SendHeader)
  next
    case (SendBody b)
    have "sent (conn_Write b c) = Some (200, hdr c)" "out (conn_Write b c) = out c @ b"
      using Cons.prems by (simp_all add: conn_Write_def conn_WriteHeader_def body_allowed_def)
    then show ?thesis
      using fold_conn_sent [of "conn_Write b c" 200 "hdr c" as] response_sent
      by (simp add: SendBody body_allowed_def)
  qed (simp_all add: Cons)
qed

lemma hdr_fold_no_bodies: "hdr (fold conn_act (no_bodies as) c) = hdr (fold conn_act as c)"
proof -
  have same: "hdr (fold conn_act as c) = hdr (fold conn_act as c')" if "hdr c = hdr c'" for as c c'
    using that
  proof (induction as arbitrary: c c')
    case (Cons a as)
    have "hdr (conn_act a c) = hdr (conn_act a c')"
      by (cases a) (simp_all add: Cons.prems)
    from Cons.IH [OF this] show ?case by simp
  qed simp
  show ?thesis
  proof (induction as arbitrary: c)
    case (Cons a as)
    show ?case
    proof (cases a)
      case (SendBody b)
      show ?thesis using Cons [of c] same [of c "conn_Write b c" as] by (simp add: SendBody)
    qed (simp_all add: Cons)
  qed simp
qed

subsection \<open>Handlers as lists of calls\<close>

text \<open>
  The header map after the calls, whatever the wrappers; and a handler that, on every writer with
  header map \<open>h\<close>, ends in state \<open>st'\<close> with \<open>x\<close> after the calls \<open>as\<close>.
\<close>

fun all_headers :: "headers \<Rightarrow> action list \<Rightarrow> headers" where
  "all_headers h [] = h"
| "all_headers h (SetHeader k v # as) = all_headers (hdr_set k v h) as"
| "all_headers h (AddHeader k v # as) = all_headers (hdr_add k v h) as"
| "all_headers h (DelHeader k # as) = all_headers (hdr_del k h) as"
| "all_headers h (a # as) = all_headers h as"

lemma hdr_w_WriteHeader [simp]: "hdr (snd (w_WriteHeader code ls c)) = hdr c"
  by (induction code ls c rule: w_WriteHeader.induct) (auto split: prod.splits)

lemma hdr_w_Write [simp]: "hdr (snd (w_Write he b ls c)) = hdr c"
  by (induction he b ls c rule: w_Write.induct) (auto split: prod.splits if_splits)

lemma hdr_acts: "hdr (snd (acts he as w)) = all_headers (hdr (snd w)) as"
proof (induction as arbitrary: w)
  case (Cons a as)
  show ?case by (cases a) (simp_all add: Cons on_header_def WriteHeader_def Write_def)
qed simp

lemma all_headers_no_bodies [simp]: "all_headers h (no_bodies as) = all_headers h as"
  by (induction h as rule: all_headers.induct) simp_all

definition calls ::
  "'s handler \<Rightarrow> http_env \<Rightarrow> request \<Rightarrow> 's world \<Rightarrow> headers \<Rightarrow> 's world \<Rightarrow> action list \<Rightarrow> hres \<Rightarrow> bool"
where
  "calls h he r st h0 st' as x \<longleftrightarrow>
     (\<forall>w. hdr (snd w) = h0 \<longrightarrow> h he r st w = (st', acts he as w, x))"

lemma callsD:
  "calls h he r st h0 st' as x \<Longrightarrow> hdr (snd w) = h0 \<Longrightarrow> h he r st w = (st', acts he as w, x)"
  by (simp add: calls_def del: split_paired_All)

lemma callsI: "(\<And>w. hdr (snd w) = h0 \<Longrightarrow> h he r st w = (st', acts he as w, x)) \<Longrightarrow>
    calls h he r st h0 st' as x"
  by (simp add: calls_def)

text \<open>A request on a fresh connection: the new state, the client's response, how the handler ended.\<close>

definition serve_request ::
  "'s handler \<Rightarrow> http_env \<Rightarrow> request \<Rightarrow> 's world \<Rightarrow> 's world \<times> (nat \<times> headers \<times> string) \<times> hres" where
  "serve_request h he r st = (case h he r st ([], new_conn) of (st, w, x) \<Rightarrow> (st, response (snd w), x))"

definition no_headers :: headers where "no_headers = (\<lambda>k. [])"

lemma serve_calls:
  assumes "calls h he r st no_headers st' as x"
  shows "serve_request h he r st =
    (st', (first_code as, sent_headers no_headers as,
           if body_allowed (first_code as) then bodies as else []), x)"
proof -
  have "h he r st ([], new_conn) = (st', acts he as ([], new_conn), x)"
    using assms by (simp add: calls_def no_headers_def new_conn_def)
  then show ?thesis
    using response_acts [of new_conn as]
    by (simp add: serve_request_def acts_conn new_conn_def no_headers_def)
qed

lemma calls_serve:
  "p he r (svc st) = (s, as, x) \<Longrightarrow> calls (serve p) he r st h0 (st\<lparr>svc := s\<rparr>) as x"
  by (simp add: calls_def serve_def)

lemma calls_RequestID:
  assumes "i = (if hdr_get (Header r) ''X-Request-ID'' = [] then uuid_text he (request_uuid he)
      else hdr_get (Header r) ''X-Request-ID'')"
    and "calls next he (r\<lparr>request_id := Some i\<rparr>) st (hdr_set ''X-Request-ID'' i h0) st' as x"
  shows "calls (RequestID next) he r st h0 st' (SetHeader ''X-Request-ID'' i # as) x"
  by (rule callsI) (simp add: callsD [OF assms(2)] assms(1) [symmetric] RequestID_def on_header_def Let_def)

lemma calls_Recovery:
  "calls next he r st h0 st' as Returned \<Longrightarrow> calls (Recovery next) he r st h0 st' as Returned"
  "calls next he r st h0 st' as (Panicked q) \<Longrightarrow>
   calls (Recovery next) he r st h0 (st'\<lparr>logs := logs st' @ [PanicRecovered q]\<rparr>)
     (as @ http_Error (StatusText 500) 500) Returned"
  by (rule callsI, simp add: callsD Recovery_def del: acts_simps(2))+

lemma calls_Timeout:
  "calls next he (r\<lparr>deadline := Some (now (core he) + d)\<rparr>) st h0 st' as x \<Longrightarrow>
   calls (Timeout d next) he r st h0 st' as x"
  by (rule callsI) (simp add: callsD Timeout_def)

definition log_request :: "bool \<Rightarrow> request \<Rightarrow> nat \<Rightarrow> 's world \<Rightarrow> 's world" where
  "log_request m r code st =
     (if m then st\<lparr>http_requests := http_requests st @ [(Method r, Path r, StatusText code)],
                   http_durations := http_durations st @ [(Method r, Path r)]\<rparr>
      else st)\<lparr>logs := logs st @ [RequestDone (request_id r) (Method r) (Path r) code]\<rparr>"

lemma pop_push [simp]: "pop (push l w) = w" "fst (push l w) = l # fst w" "hdr (snd (push l w)) = hdr (snd w)"
  by (simp_all add: pop_def push_def)

lemma acts_push_LStatus: "acts he as (push (LStatus s) w) = push (LStatus (last_code s as)) (acts he as w)"
  by (cases w) (simp add: push_def acts_LStatus [unfolded push_def])

lemma acts_push_LRec:
  "acts he as (push (LRec b wr s) w) =
     push (LRec (b @ bodies as) (wr \<or> sends_header as) (last_code s as)) (acts he (no_bodies as) w)"
  by (cases w) (simp add: push_def acts_LRec [unfolded push_def])

lemma acts_push_LGzip:
  "acts he as (push (LGzip started i) w) =
     push (LGzip (started \<or> sends_body as) (i @ bodies as)) (acts he (gz_calls he started as) w)"
  by (cases w) (simp add: push_def acts_LGzip [unfolded push_def])

lemma count_request_eq:
  "count_request r code st =
     (if countable_request r
      then (st\<lparr>http_requests := http_requests st @ [(Method r, Path r, StatusText code)],
              http_durations := http_durations st @ [(Method r, Path r)]\<rparr>, Returned)
      else (st, Panicked (bad_label r)))"
  by (simp add: count_request_def inc_requests_eq observe_duration_eq)

lemma calls_Logging:
  "calls next he r st h0 st' as Returned \<Longrightarrow> m \<longrightarrow> countable_request r \<Longrightarrow>
   calls (Logging m next) he r st h0 (log_request m r (last_code 200 as) st') as Returned"
  "calls next he r st h0 st' as (Panicked q) \<Longrightarrow> calls (Logging m next) he r st h0 st' as (Panicked q)"
  "calls next he r st h0 st' as Returned \<Longrightarrow> \<not> countable_request r \<Longrightarrow>
   calls (Logging True next) he r st h0 st' as (Panicked (bad_label r))"
  by (rule callsI, auto simp: callsD Logging_def acts_push_LStatus log_request_def Let_def count_request_eq)+

lemma calls_Metrics:
  "calls next he r st h0 st' as x \<Longrightarrow>
   calls (Metrics m next) he r st h0
     (if m \<and> x = Returned \<and> countable_request r
      then st'\<lparr>http_durations := http_durations st' @ [(Method r, Path r)]\<rparr> else st')
     as (if m \<and> x = Returned \<and> \<not> countable_request r then Panicked (bad_label r) else x)"
  by (rule callsI) (cases x; simp add: callsD Metrics_def observe_duration_eq)

definition cors_calls :: "string list \<Rightarrow> request \<Rightarrow> action list" where
  "cors_calls allowed r =
     (let origin = hdr_get (Header r) ''Origin'' in
      if origin \<noteq> [] \<and> (allowed = [] \<or> origin \<in> set (map trim_space allowed))
      then cors_headers origin else [])"

lemma hdr_set_actions:
  "hdr (snd (acts he as w)) = all_headers (hdr (snd w)) as"
  by (rule hdr_acts)

lemma calls_CORS_preflight:
  "Method r = ''OPTIONS'' \<Longrightarrow>
   calls (CORS allowed next) he r st h0 st (cors_calls allowed r @ [SendHeader 204]) Returned"
  by (rule callsI) (auto simp: CORS_def cors_calls_def Let_def)

lemma calls_CORS:
  assumes "Method r \<noteq> ''OPTIONS''"
    and "calls next he r st (all_headers h0 (cors_calls allowed r)) st' as x"
  shows "calls (CORS allowed next) he r st h0 st' (cors_calls allowed r @ as) x"
proof (rule callsI)
  fix w :: writer assume w: "hdr (snd w) = h0"
  have "CORS allowed next he r st w = next he r st (acts he (cors_calls allowed r) w)"
    using assms(1) by (auto simp: CORS_def cors_calls_def Let_def)
  also have "\<dots> = (st', acts he as (acts he (cors_calls allowed r) w), x)"
    by (rule callsD [OF assms(2)]) (simp add: hdr_acts w)
  finally show "CORS allowed next he r st w = (st', acts he (cors_calls allowed r @ as) w, x)" by simp
qed

definition accepts_gzip :: "request \<Rightarrow> bool" where
  "accepts_gzip r \<longleftrightarrow> contains_str ''gzip'' (hdr_get (Header r) ''Accept-Encoding'')"

definition gzip_calls :: "http_env \<Rightarrow> action list \<Rightarrow> action list" where
  "gzip_calls he as =
     SetHeader ''Content-Encoding'' ''gzip'' # gz_calls he False as @
     (if sends_body as then [] else [SendBody (gz_head he)]) @ [SendBody (gz_tail he (bodies as))]"

lemma calls_Gzip_plain:
  "\<not> accepts_gzip r \<Longrightarrow> calls next he r st h0 st' as x \<Longrightarrow> calls (Gzip level next) he r st h0 st' as x"
  by (rule callsI) (simp add: callsD Gzip_def accepts_gzip_def)

lemma calls_Gzip:
  assumes "accepts_gzip r" "level \<le> 9"
    and "calls next he r st (hdr_set ''Content-Encoding'' ''gzip'' h0) st' as x"
  shows "calls (Gzip level next) he r st h0 st' (gzip_calls he as) x"
proof (rule callsI)
  fix w :: writer assume w: "hdr (snd w) = h0"
  let ?w = "on_header (hdr_set ''Content-Encoding'' ''gzip'') w"
  have "next he r st (push (LGzip False []) ?w) =
      (st', push (LGzip (sends_body as) (bodies as)) (acts he (gz_calls he False as) ?w), x)"
    using callsD [OF assms(3), of "push (LGzip False []) ?w"] w
    by (simp add: acts_push_LGzip on_header_def)
  then have "Gzip level next he r st w =
      (st', gz_Close he (sends_body as) (bodies as) (acts he (gz_calls he False as) ?w), x)"
    using assms(1,2) by (simp add: Gzip_def accepts_gzip_def Let_def)
  then show "Gzip level next he r st w = (st', acts he (gzip_calls he as) w, x)"
    by (simp add: gz_Close_def gzip_calls_def)
qed

definition etag_of :: "http_env \<Rightarrow> string \<Rightarrow> string" where
  "etag_of he body = quoted (sha_hex he body)"

text \<open>Whether the ETag middleware finds something to tag, and the calls it then makes.\<close>

definition taggable :: "headers \<Rightarrow> action list \<Rightarrow> bool" where
  "taggable h0 as \<longleftrightarrow>
     last_code 200 as = 200 \<and> hdrContentTypeJSON (all_headers h0 as) \<and> bodies as \<noteq> []"

definition etag_calls :: "http_env \<Rightarrow> request \<Rightarrow> headers \<Rightarrow> action list \<Rightarrow> action list" where
  "etag_calls he r h0 as =
     no_bodies as @
     (if taggable h0 as then
        SetHeader ''ETag'' (etag_of he (bodies as)) #
        (if hdr_get (Header r) ''If-None-Match'' = etag_of he (bodies as) then [SendHeader 304]
         else (if sends_header as then [] else [SendHeader 200]) @ [SendBody (bodies as)])
      else [])"

lemma etag_of_nonempty [simp]: "etag_of he b \<noteq> []" "[] \<noteq> etag_of he b"
  by (simp_all add: etag_of_def quoted_def)

lemma calls_ETag:
  assumes "calls next he r st h0 st' as Returned"
  shows "calls (ETag next) he r st h0 st' (etag_calls he r h0 as) Returned"
proof (rule callsI)
  fix w :: writer assume w: "hdr (snd w) = h0"
  have "ETag next he r st w =
      (st', etag_finish he r (bodies as) (sends_header as) (last_code 200 as) (acts he (no_bodies as) w),
       Returned)"
    using callsD [OF assms, of "push (LRec [] False 200) w"] w
    by (simp add: ETag_def acts_push_LRec)
  then show "ETag next he r st w = (st', acts he (etag_calls he r h0 as) w, Returned)"
    using w by (auto simp: etag_finish_def etag_calls_def taggable_def hdr_acts etag_of_def Let_def quoted_def)
qed

lemma calls_ETag_panic:
  "calls next he r st h0 st' as (Panicked q) \<Longrightarrow>
   calls (ETag next) he r st h0 st' (no_bodies as) (Panicked q)"
  by (rule callsI) (simp add: callsD ETag_def acts_push_LRec)

subsection \<open>Facts on calls\<close>

lemma first_code_append: "first_code (as @ bs) = (if sends_header as \<or> sends_body as then first_code as else first_code bs)"
  by (induction as rule: first_code.induct) simp_all

lemma sends_append [simp]:
  "sends_header (as @ bs) \<longleftrightarrow> sends_header as \<or> sends_header bs"
  "sends_body (as @ bs) \<longleftrightarrow> sends_body as \<or> sends_body bs"
  by (induction as rule: bodies.induct; simp)+

lemma bodies_append [simp]: "bodies (as @ bs) = bodies as @ bodies bs"
  by (induction as rule: bodies.induct) simp_all

lemma no_bodies_facts [simp]:
  "bodies (no_bodies as) = []" "sends_body (no_bodies as) = False"
  "sends_header (no_bodies as) = sends_header as" "last_code s (no_bodies as) = last_code s as"
  by (induction as arbitrary: s rule: no_bodies.induct; simp)+

lemma last_code_append [simp]: "last_code s (as @ bs) = last_code (last_code s as) bs"
  by (induction s as rule: last_code.induct) simp_all

lemma last_code_no_header: "\<not> sends_header as \<Longrightarrow> last_code s as = s"
  by (induction s as rule: last_code.induct) simp_all

lemma no_body_bodies: "\<not> sends_body as \<Longrightarrow> bodies as = []"
  by (induction as rule: sends_body.induct) simp_all

lemma sent_headers_append:
  "sent_headers h (as @ bs) =
     (if sends_header as \<or> sends_body as then sent_headers h as else sent_headers (all_headers h as) bs)"
  by (induction h as rule: sent_headers.induct) simp_all

lemma all_headers_append [simp]: "all_headers h (as @ bs) = all_headers (all_headers h as) bs"
  by (induction h as rule: all_headers.induct) simp_all

end
