(* ===== verification/Handlers.thy ===== *)
theory Handlers
  imports Middleware_Facts User_Service
begin

text \<open>
  \<open>internal/http/handlers/users.go\<close>: the REST handlers of \<open>/v1/users\<close> over any user service, as plain
  handlers. \<open>encoding/json\<close>'s decoder, the validator and \<open>uuid.Parse\<close> are parameters, collected in
  \<open>codecs\<close>.
\<close>

subsection \<open>Requests and answers\<close>

record createUserReq =
  req_Name :: string
  req_Email :: string

record updateUserReq =
  patch_Name :: "string option"
  patch_Email :: "string option"

text \<open>
  A decoder gets the bytes that can be read and whether the limit of \<open>http.MaxBytesReader\<close> cuts the
  body off behind them; it fails, or gives the value and what \<open>More\<close> says about the rest. \<open>Unmarshal\<close>
  takes a whole body.
\<close>

record codecs =
  decode_create :: "string \<Rightarrow> bool \<Rightarrow> gerr + createUserReq \<times> bool"
  decode_update :: "string \<Rightarrow> bool \<Rightarrow> gerr + updateUserReq \<times> bool"
  unmarshal_update :: "string \<Rightarrow> gerr + updateUserReq"
  validate_create :: "createUserReq \<Rightarrow> gerr option"
  uuid_Parse :: "string \<Rightarrow> gerr + uuid"

definition maxBody :: nat where "maxBody = 1048576"

definition decodeJSON ::
  "(string \<Rightarrow> bool \<Rightarrow> gerr + 'a \<times> bool) \<Rightarrow> request \<Rightarrow> gerr + 'a" where
  "decodeJSON dec r =
     (case dec (take maxBody (Body r)) (maxBody < length (Body r)) of
        Inl f \<Rightarrow> Inl f
      | Inr (v, rest) \<Rightarrow> if rest then Inl (ErrorNew ''unexpected data'') else Inr v)"

definition parseUUIDParam :: "codecs \<Rightarrow> request \<Rightarrow> string \<Rightarrow> gerr + uuid" where
  "parseUUIDParam cd r name = uuid_Parse cd (URLParam r name)"

text \<open>\<open>strconv.Atoi\<close>'s error is dropped: its value then is 0, or the nearest \<open>int\<close> when out of range.\<close>

definition parsePagination :: "request \<Rightarrow> go_int \<times> go_int" where
  "parsePagination r =
     (let page = fst (atoi (Query r ''page''));
          page = (if sint page < 1 then 1 else page);
          size = fst (atoi (Query r ''page_size''));
          size = (if sint size \<le> 0 \<or> 100 < sint size then 20 else size)
      in (page, size))"

record userDTO =
  dto_ID :: uuid
  dto_Name :: string
  dto_Email :: string
  dto_CreatedAt :: string
  dto_UpdatedAt :: string

definition toDTO :: "http_env \<Rightarrow> user \<Rightarrow> userDTO" where
  "toDTO he u =
     \<lparr>dto_ID = ID u, dto_Name = Name u, dto_Email = Email u,
      dto_CreatedAt = rfc3339 he (CreatedAt u), dto_UpdatedAt = rfc3339 he (UpdatedAt u)\<rparr>"

text \<open>The JSON form, by the struct tags of \<open>userDTO\<close>.\<close>

definition dto_json :: "http_env \<Rightarrow> userDTO \<Rightarrow> json" where
  "dto_json he d =
     JObj [(''id'', JStr (uuid_text he (dto_ID d))), (''name'', JStr (dto_Name d)),
           (''email'', JStr (dto_Email d)), (''created_at'', JStr (dto_CreatedAt d)),
           (''updated_at'', JStr (dto_UpdatedAt d))]"

subsection \<open>The handlers\<close>

type_synonym 's reply = "'s \<times> action list \<times> hres"

definition problem :: "http_env \<Rightarrow> 's \<Rightarrow> nat \<Rightarrow> string \<Rightarrow> gerr \<Rightarrow> 's reply" where
  "problem he s code title f = (s, render_Problem he code title (err_msg f), Returned)"

definition handle_create :: "codecs \<Rightarrow> ('s, 't) svc_ops \<Rightarrow> 's plain" where
  "handle_create cd ops he r s =
     (case decodeJSON (decode_create cd) r of
        Inl f \<Rightarrow> problem he s (HTTPStatus f) ''Invalid JSON'' f
      | Inr req \<Rightarrow>
          (case validate_create cd req of
             Some f \<Rightarrow> problem he s 400 ''Validation Error'' f
           | None \<Rightarrow>
               (case svc_Create ops (core he) s (req_Name req) (req_Email req) of
                  (s, Err f) \<Rightarrow> problem he s (HTTPStatus f) ''Create Failed'' f
                | (s, Panic q) \<Rightarrow> (s, [], Panicked q)
                | (s, Ok u) \<Rightarrow> (s, render_JSON he 201 (dto_json he (toDTO he u)), Returned))))"

definition handle_get :: "codecs \<Rightarrow> ('s, 't) svc_ops \<Rightarrow> 's plain" where
  "handle_get cd ops he r s =
     (case parseUUIDParam cd r ''id'' of
        Inl f \<Rightarrow> problem he s 400 ''Invalid ID'' f
      | Inr i \<Rightarrow>
          (case svc_Get ops (core he) s i of
             (s, Err f) \<Rightarrow> problem he s (HTTPStatus f) ''Get Failed'' f
           | (s, Panic q) \<Rightarrow> (s, [], Panicked q)
           | (s, Ok u) \<Rightarrow> (s, render_JSON he 200 (dto_json he (toDTO he u)), Returned)))"

text \<open>The answer's map is encoded with its keys in order.\<close>

definition page_json :: "http_env \<Rightarrow> user list \<Rightarrow> go_int \<Rightarrow> go_int \<Rightarrow> go_int \<Rightarrow> json" where
  "page_json he us n page pageSize =
     JObj [(''data'', JArr (map (\<lambda>u. dto_json he (toDTO he u)) us)), (''page'', JInt (sint page)),
           (''page_size'', JInt (sint pageSize)), (''total'', JInt (sint n))]"

definition handle_list :: "('s, 't) svc_ops \<Rightarrow> 's plain" where
  "handle_list ops he r s =
     (case parsePagination r of (page, pageSize) \<Rightarrow>
        (case svc_List ops (core he) s page pageSize of
           (s, Err f) \<Rightarrow> problem he s (HTTPStatus f) ''List Failed'' f
         | (s, Panic q) \<Rightarrow> (s, [], Panicked q)
         | (s, Ok (us, n)) \<Rightarrow> (s, render_JSON he 200 (page_json he us n page pageSize), Returned)))"

text \<open>
  The body of an update, as a merge patch or as strict JSON; the error comes with the title of its
  problem.
\<close>

definition read_patch :: "codecs \<Rightarrow> request \<Rightarrow> (string \<times> gerr) + updateUserReq" where
  "read_patch cd r =
     (if hdr_get (Header r) ''Content-Type'' = ''application/merge-patch+json'' then
        (if maxBody < length (Body r) then Inl (''Read Error'', ErrorNew ''http: request body too large'')
         else case unmarshal_update cd (Body r) of
           Inl f \<Rightarrow> Inl (''Invalid JSON'', f)
         | Inr req \<Rightarrow> Inr req)
      else case decodeJSON (decode_update cd) r of
        Inl f \<Rightarrow> Inl (''Invalid JSON'', f)
      | Inr req \<Rightarrow> Inr req)"

definition handle_update :: "codecs \<Rightarrow> ('s, 't) svc_ops \<Rightarrow> 's plain" where
  "handle_update cd ops he r s =
     (case parseUUIDParam cd r ''id'' of
        Inl f \<Rightarrow> problem he s 400 ''Invalid ID'' f
      | Inr i \<Rightarrow>
          (case read_patch cd r of
             Inl (title, f) \<Rightarrow> problem he s 400 title f
           | Inr req \<Rightarrow>
               (case svc_Update ops (core he) s i (patch_Name req) (patch_Email req) of
                  (s, Err f) \<Rightarrow> problem he s (HTTPStatus f) ''Update Failed'' f
                | (s, Panic q) \<Rightarrow> (s, [], Panicked q)
                | (s, Ok u) \<Rightarrow> (s, render_JSON he 200 (dto_json he (toDTO he u)), Returned))))"

definition handle_delete :: "codecs \<Rightarrow> ('s, 't) svc_ops \<Rightarrow> 's plain" where
  "handle_delete cd ops he r s =
     (case parseUUIDParam cd r ''id'' of
        Inl f \<Rightarrow> problem he s 400 ''Invalid ID'' f
      | Inr i \<Rightarrow>
          (case svc_Delete ops (core he) s i of
             (s, Err f) \<Rightarrow> problem he s (HTTPStatus f) ''Delete Failed'' f
           | (s, Panic q) \<Rightarrow> (s, [], Panicked q)
           | (s, Ok v) \<Rightarrow> (s, [SendHeader 204], Returned)))"

text \<open>\<open>Register\<close>: methods, patterns and handlers, in the order of the code.\<close>

definition Register :: "codecs \<Rightarrow> ('s, 't) svc_ops \<Rightarrow> (string \<times> string \<times> 's plain) list" where
  "Register cd ops =
     [(''GET'', ''/users'', handle_list ops),
      (''POST'', ''/users'', handle_create cd ops),
      (''GET'', ''/users/{id}'', handle_get cd ops),
      (''PATCH'', ''/users/{id}'', handle_update cd ops),
      (''DELETE'', ''/users/{id}'', handle_delete cd ops)]"

lemmas handler_defs [http_defs] =
  handle_create_def handle_get_def handle_list_def handle_update_def handle_delete_def problem_def

subsection \<open>What a reply says\<close>

lemma render_Problem_facts [simp]:
  "first_code (render_Problem he code title detail) = code" "sends_header (render_Problem he code title detail)"
  "last_code c (render_Problem he code title detail) = code"
  "sent_headers h (render_Problem he code title detail) ''Content-Type'' = [''application/problem+json'']"
  "\<not> hdrContentTypeJSON (all_headers h (render_Problem he code title detail))"
  by (simp_all add: render_Problem_def hdr_apply hdrContentTypeJSON_def)

lemma first_code_render_JSON [simp]: "first_code (render_JSON he code v) = code"
  by (simp add: render_JSON_def)

lemma parsePagination_range:
  "parsePagination r = (p, z) \<Longrightarrow> 1 \<le> sint p \<and> 1 \<le> sint z \<and> sint z \<le> 100"
  by (auto simp: parsePagination_def Let_def split: if_splits)

text \<open>
  The reply a handler may give, for the status it sends and the map of live users before and after: a reply that is
  not a success leaves the users alone.
\<close>

definition reply_ok :: "nat set \<Rightarrow> nat \<Rightarrow> users_map \<Rightarrow> users_map \<Rightarrow> 's reply \<Rightarrow> bool" where
  "reply_ok failures success m m' y \<longleftrightarrow>
     (case y of (s', as, x) \<Rightarrow>
        x = Returned \<and> (first_code as = success \<or> first_code as \<in> failures \<and> m' = m))"

lemma HTTPStatus_NotFound [simp]: "HTTPStatus ErrNotFound = 404"
  by (simp add: HTTPStatus_def)

lemma validation_error_status: "validation_error f \<Longrightarrow> HTTPStatus f = 400"
  by (simp add: validation_error_def)

context user_service
begin

lemma handler_create:
  assumes "wf_env (core he)" "room s" "inv s" "handle_create cd ops he r s = (s', as, x)"
    and "\<And>f. decodeJSON (decode_create cd) r = Inl f \<Longrightarrow> opaque f"
  shows "inv s' \<and> reply_ok {400, 500} 201 (live s) (live s') (s', as, x)"
proof (cases "decodeJSON (decode_create cd) r")
  case (Inl f)
  then show ?thesis
    using assms by (auto simp: handle_create_def problem_def reply_ok_def HTTPStatus_opaque)
next
  case (Inr req)
  show ?thesis
  proof (cases "validate_create cd req")
    case None
    obtain s1 y where y: "svc_Create ops (core he) s (req_Name req) (req_Email req) = (s1, y)"
      by fastforce
    from create [OF assms(1-3) y] assms(4) Inr None y show ?thesis
      by (cases y)
        (auto simp: handle_create_def problem_def reply_ok_def HTTPStatus_opaque validation_error_status
          split: if_splits)
  next
    case (Some f)
    then show ?thesis using assms Inr by (auto simp: handle_create_def problem_def reply_ok_def)
  qed
qed

lemma handler_get:
  assumes "wf_env (core he)" "inv s" "handle_get cd ops he r s = (s', as, x)"
  shows "inv s' \<and> live s' = live s \<and> reply_ok {400, 404, 500} 200 (live s) (live s') (s', as, x)"
proof (cases "parseUUIDParam cd r ''id''")
  case (Inl f)
  then show ?thesis using assms by (auto simp: handle_get_def problem_def reply_ok_def)
next
  case (Inr i)
  obtain s1 y where y: "svc_Get ops (core he) s i = (s1, y)" by fastforce
  from get [OF assms(1,2) y] assms(3) Inr y show ?thesis
    by (cases y) (auto simp: handle_get_def problem_def reply_ok_def HTTPStatus_opaque)
qed

lemma handler_update:
  assumes "wf_env (core he)" "room s" "inv s" "handle_update cd ops he r s = (s', as, x)"
  shows "inv s' \<and> reply_ok {400, 404, 500} 200 (live s) (live s') (s', as, x)"
proof (cases "parseUUIDParam cd r ''id''")
  case (Inl f)
  then show ?thesis using assms by (auto simp: handle_update_def problem_def reply_ok_def)
next
  case (Inr i)
  show ?thesis
  proof (cases "read_patch cd r")
    case (Inl tf)
    then show ?thesis
      using assms Inr by (cases tf) (auto simp: handle_update_def problem_def reply_ok_def)
  next
    case req: (Inr req)
    obtain s1 y where y: "svc_Update ops (core he) s i (patch_Name req) (patch_Email req) = (s1, y)"
      by fastforce
    from update [OF assms(1-3) y] assms(4) Inr req y show ?thesis
      by (cases y)
        (auto simp: handle_update_def problem_def reply_ok_def HTTPStatus_opaque validation_error_status)
  qed
qed

lemma handler_delete:
  assumes "wf_env (core he)" "room s" "inv s" "handle_delete cd ops he r s = (s', as, x)"
  shows "inv s' \<and> reply_ok {400, 404, 500} 204 (live s) (live s') (s', as, x)"
proof (cases "parseUUIDParam cd r ''id''")
  case (Inl f)
  then show ?thesis using assms by (auto simp: handle_delete_def problem_def reply_ok_def)
next
  case (Inr i)
  obtain s1 y where y: "svc_Delete ops (core he) s i = (s1, y)" by fastforce
  from delete [OF assms(1-3) y] assms(4) Inr y show ?thesis
    by (cases y) (auto simp: handle_delete_def problem_def reply_ok_def HTTPStatus_opaque)
qed

lemma handler_list:
  assumes "wf_env (core he)" "inv s" "handle_list ops he r s = (s', as, x)"
    and "case parsePagination r of (p, z) \<Rightarrow> page_fits norm (live s) p z"
  shows "inv s' \<and> live s' = live s \<and> reply_ok {500} 200 (live s) (live s') (s', as, x)"
proof -
  obtain p z where pz: "parsePagination r = (p, z)" by fastforce
  obtain s1 y where y: "svc_List ops (core he) s p z = (s1, y)" by fastforce
  have fits: "page_fits norm (live s) p z" using assms(4) pz by simp
  from listed [OF assms(1,2) fits y] list_state [OF assms(1,2) y] assms(3) pz y show ?thesis
    by (cases y) (auto simp: handle_list_def problem_def reply_ok_def HTTPStatus_opaque)
qed

end

end
