(* ===== verification/Middleware_Props.thy ===== *)
theory Middleware_Props
  imports Middleware_Facts
begin

text \<open>
  The properties of \<open>internal/middleware\<close>: what reaches the client through the entity tags, the
  compression, the key check, the log and the cross-origin headers, for every handler that uses its
  writer through its methods.
\<close>

subsection \<open>Entity tags\<close>

lemma render_JSON_facts [simp]:
  "bodies (render_JSON he code v) = json_text he v @ newline" "sends_header (render_JSON he code v)"
  "last_code s (render_JSON he code v) = code" "first_code (render_JSON he code v) = code"
  "hdrContentTypeJSON (all_headers h (render_JSON he code v))"
  "no_bodies (render_JSON he code v) = [SetHeader ''Content-Type'' ''application/json'', SendHeader code]"
  by (simp_all add: render_JSON_def hdrContentTypeJSON_def)

lemma newline_nonempty [simp]: "newline \<noteq> []"
  by (simp add: newline_def)

lemma taggable_render_JSON [simp]: "taggable h (render_JSON he code v) \<longleftrightarrow> code = 200"
  by (simp add: taggable_def)


definition hello :: "'s plain" where
  "hello he r s = (s, render_JSON he 200 (JStr ''hi''), Returned)"

definition sample_http :: http_env where
  "sample_http =
     \<lparr>core = sample_env, uuid_text = (\<lambda>i. show_nat (unat i)), request_uuid = 9,
      sha_hex = (\<lambda>b. show_nat (length b)), gz_head = ''gz:'', gz_tail = (\<lambda>b. b),
      json_text = (\<lambda>v. case v of JStr s \<Rightarrow> s | JInt k \<Rightarrow> show_int k | v \<Rightarrow> ''{}''), rfc3339 = show_int\<rparr>"

lemma sample_http_simps [simp]:
  "core sample_http = sample_env" "json_text sample_http (JStr s) = s"
  "sha_hex sample_http b = show_nat (length b)" "gz_head sample_http = ''gz:''"
  "gz_tail sample_http b = b"
  by (simp_all add: sample_http_def)

definition get_request :: "(string \<times> string) list \<Rightarrow> request" where
  "get_request hs =
     \<lparr>Method = ''GET'', Path = ''/v1/users'',
      Header = (\<lambda>k. case map_of hs k of None \<Rightarrow> [] | Some v \<Rightarrow> [v]), Query = (\<lambda>k. []),
      URLParam = (\<lambda>k. []), Body = [], RemoteAddr = ''::1'', request_id = None, deadline = None\<rparr>"

lemma countable_get_request [simp]: "countable_request (get_request hs)"
  by (simp add: countable_request_def get_request_def utf8_valid_ascii is_ascii_def)

lemma get_request_simps [simp]:
  "Method (get_request hs) = ''GET''" "Path (get_request hs) = ''/v1/users''"
  "hdr_get (Header (get_request hs)) k = (case map_of hs k of None \<Rightarrow> [] | Some v \<Rightarrow> v)"
  "request_id (get_request hs) = None"
  by (simp_all add: get_request_def hdr_get_def split: option.split)

definition empty_world :: "'s \<Rightarrow> 's world" where
  "empty_world s = \<lparr>svc = s, logs = [], http_requests = [], http_durations = []\<rparr>"

lemma empty_world_simps [simp]:
  "svc (empty_world s) = s" "logs (empty_world s) = []" "http_requests (empty_world s) = []"
  "empty_world s\<lparr>svc := s'\<rparr> = empty_world s'"
  by (simp_all add: empty_world_def)


text \<open>
  The ETag middleware passes on a body only with a JSON answer of status 200: every other answer,
  created users, problem details and plain text included, arrives with its status and headers and
  without its body.
\<close>

lemma etag_drops_body:
  assumes "p he r (svc st) = (s', as, Returned)" "\<not> taggable no_headers as"
  shows "serve_request (ETag (serve p)) he r st =
    (st\<lparr>svc := s'\<rparr>, (first_code (no_bodies as), sent_headers no_headers (no_bodies as), []), Returned)"
  using serve_calls [OF calls_ETag [OF calls_serve [of p he r st, OF assms(1)]]] assms(2)
  by (simp add: etag_calls_def)

subsection \<open>Compression\<close>

lemma gz_calls_facts [simp]:
  "sends_header (gz_calls he started as) = sends_header as"
  "bodies (gz_calls he True as) = []" "sends_body (gz_calls he True as) = False"
  "sends_body (gz_calls he False as) = sends_body as"
  "bodies (gz_calls he False as) = (if sends_body as then gz_head he else [])"
  "all_headers h (gz_calls he started as) = all_headers h as"
proof -
  show t: "bodies (gz_calls he True as) = []" "sends_body (gz_calls he True as) = False" for as
    by (induction as rule: bodies.induct; simp)+
  show "sends_header (gz_calls he started as) = sends_header as"
    by (induction as arbitrary: started rule: bodies.induct) simp_all
  show "sends_body (gz_calls he False as) = sends_body as"
    by (induction as rule: bodies.induct) simp_all
  show "bodies (gz_calls he False as) = (if sends_body as then gz_head he else [])"
    by (induction as rule: bodies.induct) (simp_all add: t)
  show "all_headers h (gz_calls he started as) = all_headers h as"
    by (induction as arbitrary: started h rule: bodies.induct) simp_all
qed

lemma first_code_gz_calls: "first_code (gz_calls he False as @ SendBody b # bs) = first_code as"
  by (induction as rule: bodies.induct) simp_all

lemma sent_headers_gz_calls:
  "sent_headers h (gz_calls he False as @ SendBody b # bs) = sent_headers h as"
  by (induction as arbitrary: h rule: bodies.induct) simp_all

fun keeps_header :: "string \<Rightarrow> action list \<Rightarrow> bool" where
  "keeps_header k [] \<longleftrightarrow> True"
| "keeps_header k (SetHeader k' v # as) \<longleftrightarrow> k' \<noteq> k \<and> keeps_header k as"
| "keeps_header k (AddHeader k' v # as) \<longleftrightarrow> k' \<noteq> k \<and> keeps_header k as"
| "keeps_header k (DelHeader k' # as) \<longleftrightarrow> k' \<noteq> k \<and> keeps_header k as"
| "keeps_header k (a # as) \<longleftrightarrow> keeps_header k as"

lemma sent_headers_kept: "keeps_header k as \<Longrightarrow> sent_headers h as k = h k"
  by (induction h as rule: sent_headers.induct) (auto simp: hdr_apply)

lemma sent_headers_set:
  "keeps_header k as \<Longrightarrow> sent_headers (hdr_set k v h) as = hdr_set k v (sent_headers h as)"
proof (induction as arbitrary: h)
  case (Cons a as)
  have "hdr_set k' v' (hdr_set k v h) = hdr_set k v (hdr_set k' v' h)"
    "hdr_add k' v' (hdr_set k v h) = hdr_set k v (hdr_add k' v' h)"
    "hdr_del k' (hdr_set k v h) = hdr_set k v (hdr_del k' h)" if "k' \<noteq> k" for k' v'
    using that by (auto simp: hdr_apply)
  with Cons show ?case by (cases a) auto
qed simp

text \<open>
  C22: Compression changes nothing but the body's encoding: for every handler that leaves
  \<open>Content-Encoding\<close> alone, a client that accepts gzip gets the status and headers of the plain answer,
  \<open>Content-Encoding: gzip\<close> beside them, and a body that is the gzip stream of the plain one.
\<close>

theorem gzip_transparent:
  assumes "p he r (svc st) = (s', as, x)" "accepts_gzip r" "level \<le> 9"
    and "keeps_header ''Content-Encoding'' as" "body_allowed (first_code as)"
  shows "\<exists>code h b.
    serve_request (serve p) he r st = (st\<lparr>svc := s'\<rparr>, (code, h, b), x) \<and>
    serve_request (Gzip level (serve p)) he r st =
      (st\<lparr>svc := s'\<rparr>, (code, hdr_set ''Content-Encoding'' ''gzip'' h, gz_head he @ gz_tail he b), x)"
proof -
  note plain = serve_calls [OF calls_serve [of p he r st, OF assms(1)]]
  note zipped = serve_calls [OF calls_Gzip [OF assms(2,3) calls_serve [of p he r st, OF assms(1)]]]
  have "first_code (gzip_calls he as) = first_code as"
    by (simp add: gzip_calls_def first_code_gz_calls)
  moreover have "sent_headers no_headers (gzip_calls he as) =
      hdr_set ''Content-Encoding'' ''gzip'' (sent_headers no_headers as)"
    by (simp add: gzip_calls_def sent_headers_gz_calls sent_headers_set [OF assms(4)])
  moreover have "bodies (gzip_calls he as) = gz_head he @ gz_tail he (bodies as)"
    by (simp add: gzip_calls_def no_body_bodies)
  ultimately show ?thesis unfolding plain zipped using assms(5) by simp
qed

theorem gzip_transparent_witness:
  "\<exists>code h b.
    serve_request (serve hello) sample_http (get_request [(''Accept-Encoding'', ''gzip'')]) (empty_world ()) =
      (empty_world (), (code, h, b), Returned) \<and>
    serve_request (Gzip (-1) (serve hello)) sample_http (get_request [(''Accept-Encoding'', ''gzip'')])
        (empty_world ()) =
      (empty_world (), (code, hdr_set ''Content-Encoding'' ''gzip'' h, gz_head sample_http @ gz_tail sample_http b),
       Returned)"
  using gzip_transparent [of hello sample_http "get_request [(''Accept-Encoding'', ''gzip'')]"
      "empty_world ()" "()" "render_JSON sample_http 200 (JStr ''hi'')" Returned "-1"]
  by (simp add: hello_def accepts_gzip_def body_allowed_def, simp add: render_JSON_def)

subsection \<open>The log\<close>

text \<open>At most one \<open>WriteHeader\<close>, and no body before it.\<close>

fun one_header :: "action list \<Rightarrow> bool" where
  "one_header [] \<longleftrightarrow> True"
| "one_header (SendHeader code # as) \<longleftrightarrow> \<not> sends_header as"
| "one_header (SendBody b # as) \<longleftrightarrow> \<not> sends_header as"
| "one_header (a # as) \<longleftrightarrow> one_header as"

lemma one_header_code: "one_header as \<Longrightarrow> last_code 200 as = first_code as"
  by (induction as rule: one_header.induct) (simp_all add: last_code_no_header)



text \<open>
  The log and the client disagree about a request with the current entity tag: 304 is logged and
  counted, while the client receives 200.
\<close>

theorem etag_logged_as_304:
  assumes "p he r (svc st) = (s', render_JSON he 200 v, Returned)"
    and "hdr_get (Header r) ''If-None-Match'' = etag_of he (json_text he v @ newline)" "countable_request r"
  shows "\<exists>st' h. serve_request (Logging True (ETag (serve p))) he r st = (st', (200, h, []), Returned) \<and>
    logs st' = logs st @ [RequestDone (request_id r) (Method r) (Path r) 304]"
proof -
  note c = serve_calls [OF calls_Logging(1) [OF calls_ETag [OF calls_serve [of p he r st, OF assms(1)]]],
      of True]
  note c = c [OF impI, OF assms(3)]
  have "last_code 200 (etag_calls he r h0 (render_JSON he 200 v)) = 304" for h0
    using assms(2) by (simp add: etag_calls_def)
  then show ?thesis
    unfolding c using assms(2) by (simp add: etag_calls_def log_request_def)
qed

theorem etag_logged_as_304_witness:
  "\<exists>st' h. serve_request (Logging True (ETag (serve hello))) sample_http
        (get_request [(''If-None-Match'', etag_of sample_http (''hi'' @ newline))]) (empty_world ()) =
      (st', (200, h, []), Returned) \<and>
    logs st' = [RequestDone None ''GET'' ''/v1/users'' 304]"
  using etag_logged_as_304 [of hello sample_http
      "get_request [(''If-None-Match'', etag_of sample_http (''hi'' @ newline))]" "empty_world ()" "()"
      "JStr ''hi''"]
  by (simp add: hello_def)

subsection \<open>API keys\<close>

text \<open>What the options accept: a known key that has not expired.\<close>

definition key_valid :: "http_env \<Rightarrow> api_key_options \<Rightarrow> string \<Rightarrow> bool" where
  "key_valid he opts k \<longleftrightarrow>
     k \<noteq> [] \<and> (k \<in> set (Current opts) \<or> k \<in> set (Old opts)) \<and>
     \<not> (\<exists>ts. map_of (Expiries opts) k = Some ts \<and> ts \<le> unix_now he)"

lemma isExpired_iff:
  "isExpired he k ex \<longleftrightarrow> (\<exists>ts. map_of ex k = Some ts \<and> ts \<le> unix_now he)"
  by (auto simp: isExpired_def split: option.splits)

lemma unauthorized_response:
  assumes "h he r st ([], new_conn) = (st, acts he unauthorized ([], new_conn), Returned)"
  shows "\<exists>hs. serve_request h he r st = (st, (401, hs, ''Unauthorized'' @ newline), Returned) \<and>
    hs ''WWW-Authenticate'' = [''ApiKey realm=api'']"
proof -
  have c: "response (fold conn_act unauthorized new_conn) =
      (401, sent_headers (hdr new_conn) unauthorized, ''Unauthorized'' @ newline)"
    using response_acts [of new_conn unauthorized]
    by (simp add: new_conn_def unauthorized_def http_Error_def StatusText_def body_allowed_def)
  show ?thesis
    using assms c
    by (simp add: serve_request_def acts_conn) (simp add: unauthorized_def http_Error_def hdr_apply)
qed

text \<open>
  C7: With keys configured, the handler behind the check runs exactly for requests that carry a valid
  key, and it gets the request unchanged (with a warning header for a deprecated key); every other request is
  answered 401 and touches no state, whatever the handler.
\<close>

theorem api_key_gate:
  assumes "Current opts \<noteq> [] \<or> Old opts \<noteq> []" "candidate_key he r = Ok k"
  shows "if key_valid he opts k
    then \<forall>w. \<exists>as. APIKeyAuthWithOpts opts next he r st w = next he r st (acts he as w) \<and>
      as = (if k \<in> set (Current opts) then [] else [AddHeader ''Warning'' deprecated_warning])
    else \<exists>hs. serve_request (APIKeyAuthWithOpts opts next) he r st =
        (st, (401, hs, ''Unauthorized'' @ newline), Returned) \<and>
      hs ''WWW-Authenticate'' = [''ApiKey realm=api'']"
proof (cases "key_valid he opts k")
  case True
  then show ?thesis
    using assms by (auto simp: key_valid_def APIKeyAuthWithOpts_def isExpired_iff)
next
  case False
  then have "APIKeyAuthWithOpts opts next he r st w = (st, acts he unauthorized w, Returned)" for w
    using assms by (auto simp: key_valid_def APIKeyAuthWithOpts_def isExpired_iff)
  from unauthorized_response [of "APIKeyAuthWithOpts opts next" he r st, OF this] False show ?thesis by simp
qed

theorem api_key_gate_witness:
  "\<exists>hs. serve_request (APIKeyAuthWithOpts \<lparr>Current = [''new'', ''k1''], Old = [], Expiries = [(''k1'', 0)]\<rparr> (serve hello))
      sample_http (get_request [(''X-API-Key'', ''k1'')]) (empty_world ()) =
    (empty_world (), (401, hs, ''Unauthorized'' @ newline), Returned)"
proof -
  let ?o = "\<lparr>Current = [''new'', ''k1''], Old = [], Expiries = [(''k1'', 0)]\<rparr>"
  have k: "candidate_key sample_http (get_request [(''X-API-Key'', ''k1'')]) = Ok ''k1''"
    by (simp add: candidate_key_def)
  have "\<not> key_valid sample_http ?o ''k1''" by (simp add: key_valid_def unix_now_def)
  with api_key_gate [of ?o, OF _ k, where ?next = "serve hello" and st = "empty_world ()"]
  show ?thesis by auto
qed

subsection \<open>Cross-origin requests\<close>

text \<open>
  C39: A browser origin is granted credentialed access exactly when it is on the configured list, or
  when there is no list: then every origin is echoed back with credentials allowed. A preflight is
  answered 204 without asking the handler behind it, the key check included.
\<close>

theorem cors_grant:
  assumes "p he r (svc st) = (s', as, x)"
    and "keeps_header ''Access-Control-Allow-Origin'' as"
    and "keeps_header ''Access-Control-Allow-Credentials'' as"
  shows "case serve_request (CORS allowed (serve p)) he r st of (st', (code, h, b), y) \<Rightarrow>
    (let origin = hdr_get (Header r) ''Origin'';
         granted = (origin \<noteq> [] \<and> (allowed = [] \<or> (\<exists>o' \<in> set allowed. origin = trim_space o')))
     in h ''Access-Control-Allow-Origin'' = (if granted then [origin] else []) \<and>
        h ''Access-Control-Allow-Credentials'' = (if granted then [''true''] else [])) \<and>
    (if Method r = ''OPTIONS'' then st' = st \<and> code = 204 \<and> b = [] else svc st' = s')"
proof (cases "Method r = ''OPTIONS''")
  case True
  note c = serve_calls [OF calls_CORS_preflight [OF True], of allowed "serve p" he st]
  show ?thesis
    unfolding c
    by (auto simp: True cors_calls_def cors_headers_def no_headers_def hdr_apply body_allowed_def Let_def)
next
  case False
  note c = serve_calls [OF calls_CORS [OF False calls_serve [of p he r st, OF assms(1)]], of allowed]
  show ?thesis
    unfolding c
    by (auto simp: False cors_calls_def cors_headers_def no_headers_def hdr_apply Let_def
        sent_headers_kept [OF assms(2)] sent_headers_kept [OF assms(3)])
qed

theorem cors_grant_witness:
  "case serve_request (CORS [] (serve hello)) sample_http (get_request [(''Origin'', ''http://evil'')])
      (empty_world ()) of (st', (code, h, b), y) \<Rightarrow>
    h ''Access-Control-Allow-Origin'' = [''http://evil''] \<and> h ''Access-Control-Allow-Credentials'' = [''true'']"
  using cors_grant [of hello sample_http "get_request [(''Origin'', ''http://evil'')]" "empty_world ()" "()"
      "render_JSON sample_http 200 (JStr ''hi'')" Returned "[]"]
  by (auto simp: hello_def render_JSON_def split: prod.splits)

end
