(* ===== verification/Rest_Api.thy ===== *)
theory Rest_Api
  imports Handlers Mem_Service Pg_Table Middleware_Props
begin

text \<open>
  The properties of the REST handlers, over any user service that keeps its contract, and over the
  in-memory and the Postgres stores.
\<close>

definition rest_handlers :: "codecs \<Rightarrow> ('s, 't) svc_ops \<Rightarrow> 's plain list" where
  "rest_handlers cd ops = map (\<lambda>(m, pat, p). p) (Register cd ops)"

lemma rest_handlers_cases:
  assumes "p \<in> set (rest_handlers cd ops)"
  obtains (list) "p = handle_list ops" | (create) "p = handle_create cd ops" | (get) "p = handle_get cd ops"
  | (update) "p = handle_update cd ops" | (delete) "p = handle_delete cd ops"
  using assms by (auto simp: rest_handlers_def Register_def)

text \<open>
  C8: A REST request that is not answered with a success status changes no user. Over any service that
  keeps its contract every handler returns, with 200, 201 or 204, or with 400, 404 or 500 and the
  live users as they were; 409 is never answered.
\<close>

theorem rest_failure_changes_nothing:
  assumes "user_service ops live good stored norm repr room"
    and "wf_env (core he)" "room s" "good s" "p \<in> set (rest_handlers cd ops)"
    and "case parsePagination r of (pg, z) \<Rightarrow> page_fits norm (live s) pg z"
    and "\<forall>f. decodeJSON (decode_create cd) r = Inl f \<longrightarrow> opaque f"
    and "p he r s = (s', as, x)"
  shows "good s' \<and> x = Returned \<and>
    (first_code as \<in> {200, 201, 204} \<or> first_code as \<in> {400, 404, 500} \<and> live s' = live s)"
  using assms(5)
proof (cases rule: rest_handlers_cases)
  case list
  then show ?thesis
    using user_service.handler_list [OF assms(1,2,4) _ assms(6), of s' as x] assms(8)
    by (auto simp: reply_ok_def)
next
  case create
  then show ?thesis
    using user_service.handler_create [OF assms(1-4), of cd r s' as x] assms(7,8)
    by (auto simp: reply_ok_def)
next
  case get
  then show ?thesis
    using user_service.handler_get [OF assms(1,2,4), of cd r s' as x] assms(8)
    by (auto simp: reply_ok_def)
next
  case update
  then show ?thesis
    using user_service.handler_update [OF assms(1-4), of cd r s' as x] assms(8)
    by (auto simp: reply_ok_def)
next
  case delete
  then show ?thesis
    using user_service.handler_delete [OF assms(1-4), of cd r s' as x] assms(8)
    by (auto simp: reply_ok_def)
qed

text \<open>
  Instances of the parameters: a decoder that reads the name up to the first semicolon and takes the
  rest as the address, and identifiers written in unary.
\<close>

definition sample_codecs :: codecs where
  "sample_codecs =
     \<lparr>decode_create = (\<lambda>b cut. if CHR '';'' \<in> set b
        then Inr (\<lparr>req_Name = takeWhile (\<lambda>c. c \<noteq> CHR '';'') b,
                   req_Email = tl (dropWhile (\<lambda>c. c \<noteq> CHR '';'') b)\<rparr>, False)
        else Inl (ErrorNew ''unexpected EOF'')),
      decode_update = (\<lambda>b cut. Inl (ErrorNew ''unexpected EOF'')),
      unmarshal_update = (\<lambda>b. Inl (ErrorNew ''unexpected end of JSON input'')),
      validate_create = (\<lambda>q. None),
      uuid_Parse = (\<lambda>s. if s = [] then Inl (ErrorNew ''invalid UUID length: 0'')
        else Inr (of_nat (length s)))\<rparr>"

theorem rest_failure_changes_nothing_witness:
  "mem_live (fst (handle_create sample_codecs mem_service sample_http (get_request [])
     \<lparr>users = [(1, alice)]\<rparr>)) = mem_live \<lparr>users = [(1, alice)]\<rparr>"
proof -
  let ?s = "\<lparr>users = [(1, alice)]\<rparr>" and ?r = "get_request []"
  let ?p = "handle_create sample_codecs mem_service"
  have dec: "decodeJSON (decode_create sample_codecs) ?r = Inl (ErrorNew ''unexpected EOF'')"
    by (simp add: decodeJSON_def sample_codecs_def get_request_def)
  have p: "?p sample_http ?r ?s = problem sample_http ?s 500 ''Invalid JSON'' (ErrorNew ''unexpected EOF'')"
    using dec by (simp add: handle_create_def HTTPStatus_def)
  have "page_fits mem_norm (mem_live ?s) 1 20"
    by (simp add: page_fits_def mem_norm_def mem_live_def ran_def)
  moreover have "parsePagination ?r = (1, 20)" by (simp add: get_request_def) code_simp
  ultimately have fits: "case parsePagination ?r of (pg, z) \<Rightarrow> page_fits mem_norm (mem_live ?s) pg z"
    by simp
  have mem: "?p \<in> set (rest_handlers sample_codecs mem_service)"
    by (simp add: rest_handlers_def Register_def)
  have inv: "mem_inv ?s" by (simp add: mem_inv_def)
  have op: "\<forall>f. decodeJSON (decode_create sample_codecs) ?r = Inl f \<longrightarrow> opaque f"
    by (simp add: dec opaque_def)
  from rest_failure_changes_nothing [OF mem_svc.user_service_axioms _ TrueI inv mem fits op
      p [unfolded problem_def], of] show ?thesis
    by (simp add: p problem_def)
qed

text \<open>
  Malformed JSON is the client's error on an update and the server's on a creation: the decoder's
  error goes through \<open>HTTPStatus\<close>, which knows none of them, so \<open>POST /users\<close> answers 500 where
  \<open>PATCH\<close> answers 400. Neither touches the service.
\<close>

theorem malformed_json_status:
  assumes "decodeJSON (decode_create cd) r = Inl f" "opaque f"
    and "decodeJSON (decode_update cd) r' = Inl g" "parseUUIDParam cd r' ''id'' = Inr i"
    and "hdr_get (Header r') ''Content-Type'' \<noteq> ''application/merge-patch+json''"
  shows "handle_create cd ops he r s =
      (s, render_Problem he 500 ''Invalid JSON'' (err_msg f), Returned) \<and>
    handle_update cd ops he r' s =
      (s, render_Problem he 400 ''Invalid JSON'' (err_msg g), Returned)"
  using assms
  by (simp add: handle_create_def handle_update_def problem_def HTTPStatus_opaque read_patch_def)

definition id_request :: "string \<Rightarrow> request" where
  "id_request i = (get_request [])\<lparr>URLParam := (\<lambda>k. if k = ''id'' then i else [])\<rparr>"

lemma id_request_parse: "parseUUIDParam sample_codecs (id_request ''1234567'') ''id'' = Inr 7"
  by (simp add: parseUUIDParam_def sample_codecs_def id_request_def)

theorem malformed_json_status_witness:
  "snd (snd (handle_create sample_codecs mem_service sample_http (get_request []) NewInMemoryUserRepo)) = Returned \<and>
   first_code (fst (snd (handle_create sample_codecs mem_service sample_http (get_request [])
     NewInMemoryUserRepo))) = 500"
proof -
  have dec: "decodeJSON (decode_create sample_codecs) (get_request []) = Inl (ErrorNew ''unexpected EOF'')"
    by (simp add: decodeJSON_def sample_codecs_def get_request_def)
  have up: "decodeJSON (decode_update sample_codecs) (id_request ''1234567'') = Inl (ErrorNew ''unexpected EOF'')"
    by (simp add: decodeJSON_def sample_codecs_def)
  have ct: "hdr_get (Header (id_request ''1234567'')) ''Content-Type'' \<noteq> ''application/merge-patch+json''"
    by (simp add: id_request_def)
  note m = malformed_json_status [OF dec _ up id_request_parse ct, of mem_service sample_http NewInMemoryUserRepo]
  show ?thesis using m by (simp add: opaque_def)
qed


definition post_request :: "string \<Rightarrow> request" where
  "post_request b = (get_request [])\<lparr>Method := ''POST'', Body := b\<rparr>"


text \<open>
  The page arguments the service sees are in range whatever the query says: the page at least 1,
  the size between 1 and 100; and decimal numbers inside the range are taken as they are.
\<close>

theorem pagination_in_range:
  "case parsePagination r of (p, z) \<Rightarrow>
     1 \<le> sint p \<and> 1 \<le> sint z \<and> sint z \<le> 100 \<and>
     (\<forall>k. 1 \<le> k \<and> int k \<le> max_int \<and> Query r ''page'' = show_nat k \<longrightarrow> sint p = int k) \<and>
     (\<forall>k. 1 \<le> k \<and> k \<le> 100 \<and> Query r ''page_size'' = show_nat k \<longrightarrow> sint z = int k)"
proof -
  obtain p z where pz: "parsePagination r = (p, z)" by fastforce
  have "sint p = int k" if "1 \<le> k" "int k \<le> max_int" "Query r ''page'' = show_nat k" for k
    using pz that by (auto simp: parsePagination_def Let_def sint_atoi parse_int_show_nat split: if_splits)
  moreover have "sint z = int k" if "1 \<le> k" "k \<le> 100" "Query r ''page_size'' = show_nat k" for k
    using pz that by (auto simp: parsePagination_def Let_def sint_atoi parse_int_show_nat split: if_splits)
  ultimately show ?thesis using parsePagination_range [OF pz] pz by simp
qed

theorem pagination_in_range_witness:
  "case parsePagination (get_request []) of (p, z) \<Rightarrow> 1 \<le> sint p \<and> 1 \<le> sint z \<and> sint z \<le> 100"
  using pagination_in_range [of "get_request []"] by auto

text \<open>
  C34: The largest page number a query can hold crashes the listing over the in-memory store and fails
  with 500 over Postgres: \<open>Atoi\<close> saturates at the largest \<open>int\<close>, which the handler passes on, and
  the offset wraps to a negative number.
\<close>

theorem huge_page_fails:
  assumes "Query r ''page'' = show_nat (2 ^ 63 - 1)" "Query r ''page_size'' = []"
    and "int (length (mem_live_list (core he) s)) \<le> max_int"
    and "sql_users db rows good pr" "wf_env (core he)" "good h"
  shows "handle_list mem_service he r s = (s, [], Panicked ''slice bounds out of range'') \<and>
    (\<exists>detail. handle_list (NewUserService (NewUserRepo db) starter) he r h =
       (h, render_Problem he 500 ''List Failed'' detail, Returned))"
proof -
  have "fst (parse_int (show_nat (2 ^ 63 - 1))) = max_int" by (simp add: parse_int_show_nat)
  then have pg: "sint (fst (atoi (Query r ''page''))) = max_int" by (simp only: sint_atoi assms(1))
  then have P: "fst (atoi (Query r ''page'')) = 9223372036854775807"
    by (intro signed_word_eqI) simp
  have "fst (atoi (Query r ''page_size'')) = 0" by (simp add: assms(2) atoi_def parse_int_def)
  then have pz: "parsePagination r = (9223372036854775807, 20)"
    using P by (simp add: parsePagination_def)
  have mem: "snd (mem_List (core he) s 9223372036854775807 20) = Panic ''slice bounds out of range''"
    using assms(3) by (intro mem_List_negative_start) simp_all
  have "fst (mem_List (core he) s 9223372036854775807 20) = s"
    using mem.list_state by simp
  with mem have mem': "mem_List (core he) s 9223372036854775807 20 = (s, Panic ''slice bounds out of range'')"
    by (metis prod.collapse)
  note err = sql_users.negative_offset [OF assms(4,5,6), of 9223372036854775807 20]
  obtain f where "pg_List db (core he) h 9223372036854775807 20 = (h, Err f)" "opaque f"
    using err by auto
  then show ?thesis
    using mem' by (auto simp: handle_list_def pz service_List_def problem_def HTTPStatus_opaque)
qed

theorem huge_page_fails_witness:
  "handle_list mem_service sample_http
     ((get_request [])\<lparr>Query := (\<lambda>k. if k = ''page'' then show_nat (2 ^ 63 - 1) else [])\<rparr>)
     \<lparr>users = [(1, alice)]\<rparr> = (\<lparr>users = [(1, alice)]\<rparr>, [], Panicked ''slice bounds out of range'')"
  by (rule conjunct1 [OF huge_page_fails [OF _ _ _ pg_table.sql_users_axioms, where h = "\<lparr>tuples = []\<rparr>"]])
    (simp_all add: mem_live_list_def insertion_sort_def table_good_def)

end
