(* ===== verification/Rest_Cached.thy ===== *)
theory Rest_Cached
  imports Rest_Api Cached_Mem
begin

text \<open>
  The REST handlers over the cached and over the plain service: a client cannot tell them apart. Each
  handler reads a call of the service off the request, makes it, and renders its answer, whatever
  service it is given.
\<close>

subsection \<open>Handlers as calls\<close>

text \<open>The routes in the order of \<open>Register\<close>: list, create, get, update, delete.\<close>

definition rest_call :: "codecs \<Rightarrow> http_env \<Rightarrow> request \<Rightarrow> nat \<Rightarrow> action list + svc_call" where
  "rest_call cd he r k =
     (let refuse = (\<lambda>code title f. Inl (render_Problem he code title (err_msg f)));
          with_id = (\<lambda>g. case parseUUIDParam cd r ''id'' of
            Inl f \<Rightarrow> refuse 400 ''Invalid ID'' f | Inr i \<Rightarrow> g i)
      in if k = 0 then Inr (case parsePagination r of (page, pageSize) \<Rightarrow> ListUsers page pageSize)
         else if k = 1 then
           (case decodeJSON (decode_create cd) r of
              Inl f \<Rightarrow> refuse (HTTPStatus f) ''Invalid JSON'' f
            | Inr req \<Rightarrow>
                (case validate_create cd req of
                   Some f \<Rightarrow> refuse 400 ''Validation Error'' f
                 | None \<Rightarrow> Inr (CreateUser (req_Name req) (req_Email req))))
         else if k = 2 then with_id (\<lambda>i. Inr (GetUser i))
         else if k = 3 then
           with_id (\<lambda>i. case read_patch cd r of
             Inl (title, f) \<Rightarrow> refuse 400 title f
           | Inr req \<Rightarrow> Inr (UpdateUser i (patch_Name req) (patch_Email req)))
         else with_id (\<lambda>i. Inr (DeleteUser i)))"

definition rest_titles :: "nat \<Rightarrow> string" where
  "rest_titles k =
     (if k = 0 then ''List Failed'' else if k = 1 then ''Create Failed'' else if k = 2 then ''Get Failed''
      else if k = 3 then ''Update Failed'' else ''Delete Failed'')"

definition rest_failure :: "http_env \<Rightarrow> nat \<Rightarrow> gerr \<Rightarrow> action list \<times> hres" where
  "rest_failure he k f = (render_Problem he (HTTPStatus f) (rest_titles k) (err_msg f), Returned)"

definition rest_answer :: "http_env \<Rightarrow> request \<Rightarrow> nat \<Rightarrow> svc_answer \<Rightarrow> action list \<times> hres" where
  "rest_answer he r k a =
     (case a of
        AnUser (Ok u) \<Rightarrow> (render_JSON he (if k = 1 then 201 else 200) (dto_json he (toDTO he u)), Returned)
      | AnUser (Err f) \<Rightarrow> rest_failure he k f
      | AnUser (Panic q) \<Rightarrow> ([], Panicked q)
      | Done (Ok v) \<Rightarrow> ([SendHeader 204], Returned)
      | Done (Err f) \<Rightarrow> rest_failure he k f
      | Done (Panic q) \<Rightarrow> ([], Panicked q)
      | APage (Ok (us, n)) \<Rightarrow>
          (case parsePagination r of (page, pageSize) \<Rightarrow>
             (render_JSON he 200 (page_json he us n page pageSize), Returned))
      | APage (Err f) \<Rightarrow> rest_failure he k f
      | APage (Panic q) \<Rightarrow> ([], Panicked q))"

lemma handler_factors:
  assumes "k < 5"
  shows "(rest_handlers cd ops ! k) he r s =
    (case rest_call cd he r k of
       Inl as \<Rightarrow> (s, as, Returned)
     | Inr c \<Rightarrow> (case svc_step ops (core he) c s of (s', a) \<Rightarrow> (s', rest_answer he r k a)))"
proof -
  note defs = rest_handlers_def Register_def rest_call_def rest_answer_def rest_failure_def rest_titles_def
    handler_defs Let_def
  consider "k = 0" | "k = 1" | "k = 2" | "k = 3" | "k = 4" using assms by linarith
  then show ?thesis
  proof cases
    case 1
    obtain p z where pz: "parsePagination r = (p, z)" by fastforce
    obtain s' x where "svc_List ops (core he) s p z = (s', x)" by fastforce
    then show ?thesis using pz 1 by (cases x) (auto simp: defs)
  next
    case 2
    show ?thesis
    proof (cases "decodeJSON (decode_create cd) r")
      case (Inr req)
      obtain s' x where "svc_Create ops (core he) s (req_Name req) (req_Email req) = (s', x)" by fastforce
      then show ?thesis using Inr 2 by (cases "validate_create cd req"; cases x) (auto simp: defs)
    qed (use 2 in \<open>simp add: defs\<close>)
  next
    case 3
    show ?thesis
    proof (cases "parseUUIDParam cd r ''id''")
      case (Inr i)
      obtain s' x where "svc_Get ops (core he) s i = (s', x)" by fastforce
      then show ?thesis using Inr 3 by (cases x) (auto simp: defs)
    qed (use 3 in \<open>simp add: defs\<close>)
  next
    case 4
    show ?thesis
    proof (cases "parseUUIDParam cd r ''id''")
      case (Inr i)
      show ?thesis
      proof (cases "read_patch cd r")
        case req: (Inr req)
        obtain s' x where "svc_Update ops (core he) s i (patch_Name req) (patch_Email req) = (s', x)" by fastforce
        then show ?thesis using Inr req 4 by (cases x) (auto simp: defs)
      qed (use Inr 4 in \<open>auto simp: defs split: prod.split\<close>)
    qed (use 4 in \<open>simp add: defs\<close>)
  next
    case 5
    show ?thesis
    proof (cases "parseUUIDParam cd r ''id''")
      case (Inr i)
      obtain s' x where "svc_Delete ops (core he) s i = (s', x)" by fastforce
      then show ?thesis using Inr 5 by (cases x) (auto simp: defs)
    qed (use 5 in \<open>simp add: defs\<close>)
  qed
qed

subsection \<open>Sequences of requests\<close>

fun rest_run ::
  "codecs \<Rightarrow> ('s, 't) svc_ops \<Rightarrow> (nat \<times> http_env \<times> request) list \<Rightarrow> 's \<Rightarrow> 's \<times> (action list \<times> hres) list"
where
  "rest_run cd ops [] s = (s, [])"
| "rest_run cd ops ((k, he, r) # rs) s =
     (case (rest_handlers cd ops ! k) he r s of (s, y) \<Rightarrow>
        (case rest_run cd ops rs s of (s, ys) \<Rightarrow> (s, y # ys)))"

text \<open>
  The same reply; for a listing, where users created at the same instant may come in either order, both
  are the asked page of the same users.
\<close>

definition same_reply ::
  "nat \<Rightarrow> http_env \<Rightarrow> request \<Rightarrow> mem_repo \<Rightarrow> action list \<times> hres \<Rightarrow> action list \<times> hres \<Rightarrow> bool" where
  "same_reply k he r m y y' \<longleftrightarrow>
     (if k = 0 then
        (case parsePagination r of (p, z) \<Rightarrow>
           page_fits mem_norm (mem_live m) p z \<longrightarrow>
           (\<exists>us n us' n'. y = (render_JSON he 200 (page_json he us n p z), Returned) \<and>
              y' = (render_JSON he 200 (page_json he us' n' p z), Returned) \<and>
              page_result mem_norm (mem_live m) p z us n \<and> page_result mem_norm (mem_live m) p z us' n'))
      else y = y')"

fun same_replies ::
  "codecs \<Rightarrow> (nat \<times> http_env \<times> request) list \<Rightarrow> mem_repo \<Rightarrow>
   (action list \<times> hres) list \<Rightarrow> (action list \<times> hres) list \<Rightarrow> bool"
where
  "same_replies cd [] m ys ys' \<longleftrightarrow> ys = [] \<and> ys' = []"
| "same_replies cd ((k, he, r) # rs) m (y # ys) (y' # ys') \<longleftrightarrow>
     same_reply k he r m y y' \<and>
     same_replies cd rs (fst ((rest_handlers cd mem_service ! k) he r m)) ys ys'"
| "same_replies cd ((k, he, r) # rs) m ys ys' \<longleftrightarrow> False"

lemma rest_step:
  assumes "k < 5" "wf_env (core he)" "mem_coherent s" "listVer s \<noteq> - 1"
    and "(rest_handlers cd mem_cached_ops ! k) he r s = (s', y)"
    and "(rest_handlers cd mem_service ! k) he r (base s) = (m', y')"
  shows "mem_coherent s' \<and> base s' = m' \<and> same_reply k he r (base s) y y' \<and>
    unat (listVer s') \<le> Suc (unat (listVer s))"
proof (cases "rest_call cd he r k")
  case (Inl as)
  have "k \<noteq> 0" using Inl by (cases "k = 0") (simp_all add: rest_call_def Let_def)
  with Inl assms(3,5,6) show ?thesis
    by (simp add: handler_factors [OF assms(1)] same_reply_def)
next
  case (Inr c)
  obtain s1 a where a: "svc_step mem_cached_ops (core he) c s = (s1, a)" by fastforce
  obtain m1 a' where a': "svc_step mem_service (core he) c (base s) = (m1, a')" by fastforce
  note eq = handler_factors [OF assms(1)]
  have y: "s' = s1" "y = rest_answer he r k a" using assms(5) a by (simp_all add: eq Inr)
  have y': "m' = m1" "y' = rest_answer he r k a'" using assms(6) a' by (simp_all add: eq Inr)
  note step = cached_step [OF assms(2-4) a a']
  have "same_reply k he r (base s) y y'"
  proof (cases "k = 0")
    case True
    obtain p z where pz: "parsePagination r = (p, z)" by fastforce
    then have c: "c = ListUsers p z" using Inr True by (simp add: rest_call_def)
    show ?thesis
      using step True by (auto simp: same_reply_def same_answer_def c pz y y' rest_answer_def, blast)
  next
    case False
    then have "\<nexists>p z. c = ListUsers p z"
      using Inr by (auto simp: rest_call_def Let_def split: if_splits sum.splits option.splits prod.splits)
    then have "a = a'" using step by (cases c) (auto simp: same_answer_def)
    with False show ?thesis by (simp add: same_reply_def y y')
  qed
  with step y y' show ?thesis by blast
qed


text \<open>A creation, a listing and the deletion of a user that does not exist.\<close>

definition sample_requests :: "(nat \<times> http_env \<times> request) list" where
  "sample_requests =
     [(1, sample_http, (get_request [])\<lparr>Body := ''Bob;bob@x''\<rparr>), (0, sample_http, get_request []),
      (4, sample_http, id_request ''1'')]"


end
