(* ===== verification/Config.thy ===== *)
theory Config
  imports Go_Strings
begin

text \<open>
  \<open>internal/config/config.go\<close>: the configuration from the process's environment. \<open>os.Getenv\<close> is a
  function from names to values, the empty string for an unset name; \<open>time.ParseDuration\<close> and the
  Unicode part of \<open>strings.ToLower\<close> are parameters; \<open>time.Parse\<close> of a date is spelled out.
\<close>

record config =
  AppName :: string
  Env :: string
  HTTPPort :: go_int
  DBDSN :: string
  InMemory :: bool
  ReadTimeout :: int
  WriteTimeout :: int
  CORSOrigins :: "string list"
  LogLevel :: string
  PprofEnabled :: bool
  APIKeys :: "string list"
  OldAPIKeys :: "string list"
  APIKeyExpiries :: "(string \<times> int) list"
  CacheMaxCost :: go_int
  CacheNumCounters :: go_int
  CacheBufferItems :: go_int
  RedisAddr :: string
  RedisPassword :: string
  RedisDB :: go_int

type_synonym getenv = "string \<Rightarrow> string"

definition getEnvDefault :: "getenv \<Rightarrow> string \<Rightarrow> string \<Rightarrow> string" where
  "getEnvDefault g k def = (if g k = [] then def else g k)"

definition parseInt64Env :: "getenv \<Rightarrow> string \<Rightarrow> go_int \<Rightarrow> go_int" where
  "parseInt64Env g k def =
     (if g k = [] then def
      else case parse_int (g k) of (i, None) \<Rightarrow> word_of_int i | (i, Some e) \<Rightarrow> def)"

subsection \<open>Dates\<close>

text \<open>\<open>time.Parse("2006-01-02", s)\<close>: the date's midnight in UTC, in nanoseconds of Unix time.\<close>

definition leap :: "nat \<Rightarrow> bool" where
  "leap y \<longleftrightarrow> 4 dvd y \<and> (\<not> 100 dvd y \<or> 400 dvd y)"

definition days_in :: "nat \<Rightarrow> nat \<Rightarrow> nat" where
  "days_in y m =
     (if m = 2 then (if leap y then 29 else 28) else if m \<in> {4, 6, 9, 11} then 30 else 31)"

text \<open>Days since 1970-01-01, with the year beginning in March.\<close>

definition unix_day :: "nat \<Rightarrow> nat \<Rightarrow> nat \<Rightarrow> int" where
  "unix_day y m d =
     (let y' = int y - (if m \<le> 2 then 1 else 0); era = y' div 400; yoe = y' mod 400;
          mp = (int m + 9) mod 12; doy = (153 * mp + 2) div 5 + int d - 1;
          doe = yoe * 365 + yoe div 4 - yoe div 100 + doy
      in era * 146097 + doe - 719468)"

abbreviation day_ns :: int where "day_ns \<equiv> 86400000000000"

fun digits :: "nat \<Rightarrow> string \<Rightarrow> (nat \<times> string) option" where
  "digits 0 s = Some (0, s)"
| "digits (Suc k) [] = None"
| "digits (Suc k) (c # s) =
     (case digit_val c of
        None \<Rightarrow> None
      | Some v \<Rightarrow> map_option (map_prod (\<lambda>n. v * 10 ^ k + n) (\<lambda>r. r)) (digits k s))"

lemma digits_numeral [simp]:
  "digits (numeral v) [] = None"
  "digits (numeral v) (c # s) =
     (case digit_val c of
        None \<Rightarrow> None
      | Some d \<Rightarrow>
          map_option (map_prod (\<lambda>n. d * 10 ^ pred_numeral v + n) (\<lambda>r. r)) (digits (pred_numeral v) s))"
  by (simp_all add: numeral_eq_Suc)

definition dash :: "string \<Rightarrow> string option" where
  "dash s = (case s of c # r \<Rightarrow> if c = CHR ''-'' then Some r else None | [] \<Rightarrow> None)"

definition parse_date :: "string \<Rightarrow> int option" where
  "parse_date s =
     Option.bind (digits 4 s) (\<lambda>(y, s). Option.bind (dash s) (\<lambda>s.
     Option.bind (digits 2 s) (\<lambda>(m, s). Option.bind (dash s) (\<lambda>s.
     Option.bind (digits 2 s) (\<lambda>(d, s).
       if s = [] \<and> 1 \<le> m \<and> m \<le> 12 \<and> 1 \<le> d \<and> d \<le> days_in y m
       then Some (unix_day y m d * day_ns) else None)))))"

subsection \<open>Lists in variables\<close>

text \<open>The loops over \<open>API_KEYS\<close> and \<open>API_KEYS_OLD\<close>.\<close>

fun key_list :: "string list \<Rightarrow> string list \<Rightarrow> string list" where
  "key_list [] keys = keys"
| "key_list (p # ps) keys =
     (let p = trim_space p in key_list ps (if p \<noteq> [] then keys @ [p] else keys))"

text \<open>One \<open>key:YYYY-MM-DD\<close> pair; malformed pairs and dates are skipped.\<close>

definition expiry_pair :: "string \<Rightarrow> (string \<times> int) option" where
  "expiry_pair pair =
     (let pair = trim_space pair in
      if pair = [] \<or> CHR '':'' \<notin> set pair then None
      else case split_first (CHR '':'') pair of (k, v) \<Rightarrow>
        (let key = trim_space k; date = trim_space v in
         if key = [] \<or> date = [] then None
         else map_option (Pair key) (parse_date date)))"

fun expiry_list :: "string list \<Rightarrow> (string \<times> int) list \<Rightarrow> (string \<times> int) list" where
  "expiry_list [] m = m"
| "expiry_list (p # ps) m =
     expiry_list ps (case expiry_pair p of None \<Rightarrow> m | Some (k, t) \<Rightarrow> AList.update k t m)"

subsection \<open>Load and Validate\<close>

definition Validate :: "config \<Rightarrow> gerr option" where
  "Validate c =
     (if \<not> InMemory c \<and> DBDSN c = []
      then Some (ErrorNew ''DB_DSN required (or set INMEMORY=1 for in-memory store)'')
      else if Env c \<noteq> ''dev'' \<and> Env c \<noteq> ''prod'' then Some (ErrorNew ''ENV must be dev or prod'')
      else None)"

definition num_err :: "string \<Rightarrow> num_error \<Rightarrow> gerr" where
  "num_err s e =
     ErrorNew (''strconv.Atoi: parsing '' @ s @
       (case e of NumSyntax \<Rightarrow> '': invalid syntax'' | NumRange \<Rightarrow> '': value out of range''))"

text \<open>The fields that cannot fail, in the order of the code.\<close>

definition load_rest :: "(string \<Rightarrow> string) \<Rightarrow> getenv \<Rightarrow> go_int \<Rightarrow> int \<Rightarrow> int \<Rightarrow> config" where
  "load_rest uni g port rt wt =
     \<lparr>AppName = getEnvDefault g ''APP_NAME'' ''maxwell-api'',
      Env = getEnvDefault g ''ENV'' ''dev'',
      HTTPPort = port,
      DBDSN = g ''DB_DSN'',
      InMemory = (g ''INMEMORY'' = ''1'' \<or> to_lower uni (g ''INMEMORY'') = ''true''),
      ReadTimeout = rt,
      WriteTimeout = wt,
      CORSOrigins = (if g ''CORS_ORIGINS'' \<noteq> [] then split_on (CHR '','') (g ''CORS_ORIGINS'') else []),
      LogLevel = getEnvDefault g ''LOG_LEVEL'' ''info'',
      PprofEnabled = (g ''PPROF_ENABLED'' = ''1''),
      APIKeys = (if g ''API_KEYS'' \<noteq> [] then key_list (split_on (CHR '','') (g ''API_KEYS'')) [] else []),
      OldAPIKeys =
        (if g ''API_KEYS_OLD'' \<noteq> [] then key_list (split_on (CHR '','') (g ''API_KEYS_OLD'')) [] else []),
      APIKeyExpiries =
        (if g ''API_KEY_EXPIRIES'' \<noteq> [] then expiry_list (split_on (CHR '','') (g ''API_KEY_EXPIRIES'')) []
         else []),
      CacheMaxCost = parseInt64Env g ''CACHE_MAX_COST'' 10000,
      CacheNumCounters = parseInt64Env g ''CACHE_NUM_COUNTERS'' 100000,
      CacheBufferItems = parseInt64Env g ''CACHE_BUFFER_ITEMS'' 64,
      RedisAddr = getEnvDefault g ''REDIS_ADDR'' [],
      RedisPassword = getEnvDefault g ''REDIS_PASSWORD'' [],
      RedisDB =
        (if g ''REDIS_DB'' \<noteq> [] then (case atoi (g ''REDIS_DB'') of (i, None) \<Rightarrow> i | (i, Some e) \<Rightarrow> 0) else 0)\<rparr>"

definition Load :: "(string \<Rightarrow> string) \<Rightarrow> (string \<Rightarrow> gerr + int) \<Rightarrow> getenv \<Rightarrow> config res" where
  "Load uni ParseDuration g =
     (case atoi (getEnvDefault g ''HTTP_PORT'' ''8080'') of
        (port, Some e) \<Rightarrow> Err (Wrapf ''invalid HTTP_PORT'' (num_err (getEnvDefault g ''HTTP_PORT'' ''8080'') e))
      | (port, None) \<Rightarrow>
          (case ParseDuration (getEnvDefault g ''READ_TIMEOUT'' ''10s'') of
             Inl f \<Rightarrow> Err (Wrapf ''invalid READ_TIMEOUT'' f)
           | Inr rt \<Rightarrow>
               (case ParseDuration (getEnvDefault g ''WRITE_TIMEOUT'' ''15s'') of
                  Inl f \<Rightarrow> Err (Wrapf ''invalid WRITE_TIMEOUT'' f)
                | Inr wt \<Rightarrow>
                    (let cfg = load_rest uni g port rt wt in
                     case Validate cfg of Some f \<Rightarrow> Err f | None \<Rightarrow> Ok cfg))))"

end
