(* ===== verification/Router.thy ===== *)
theory Router
  imports Config Handlers Middleware
begin

text \<open>
  \<open>internal/http/router/router.go\<close> and the wiring of \<open>cmd/server/main.go\<close>: the chain of middlewares, the
  routes, the sub-router behind the API key check. chi's router and its heartbeat, the file server,
  the profiler's pages, the playground and gqlgen's handler are third-party: parameters.
\<close>

record 's third_party =
  chi_router :: "(string \<times> string \<times> 's handler) list \<Rightarrow> 's handler"
  chi_Heartbeat :: "string \<Rightarrow> 's handler \<Rightarrow> 's handler"
  http_ServeFile :: "string \<Rightarrow> 's handler"
  pprof_Index :: "'s handler"
  pprof_Cmdline :: "'s handler"
  pprof_Profile :: "'s handler"
  pprof_Symbol :: "'s handler"
  pprof_Trace :: "'s handler"
  playground_handler :: "'s handler"
  gql_handler :: "'s handler"

text \<open>
  \<open>db_ping\<close> is \<open>None\<close> for the nil \<open>*sql.DB\<close> of the in-memory mode; calling \<open>PingContext\<close> on it panics.
\<close>

record ('s, 't) deps =
  UserSvc :: "('s, 't) svc_ops"
  CFG :: config
  has_registry :: bool
  Version :: string
  Commit :: string
  BuildDate :: string
  db_ping :: "(http_env \<Rightarrow> 's \<Rightarrow> gerr option) option"

subsection \<open>The routes' own handlers\<close>

definition healthz :: "'s plain" where
  "healthz he r s = (s, render_JSON he 200 (JObj [(''status'', JStr ''ok'')]), Returned)"

definition readyz :: "('s, 't) deps \<Rightarrow> 's plain" where
  "readyz d he r s =
     (case db_ping d of
        None \<Rightarrow> (s, [], Panicked ''invalid memory address or nil pointer dereference'')
      | Some ping \<Rightarrow>
          (case ping he s of
             Some f \<Rightarrow> (s, http_Error ''db not ready'' 503, Returned)
           | None \<Rightarrow> (s, render_JSON he 200 (JObj [(''status'', JStr ''ready'')]), Returned)))"

definition version :: "('s, 't) deps \<Rightarrow> 's plain" where
  "version d he r s =
     (s, render_JSON he 200 (JObj [(''commit'', JStr (Commit d)), (''date'', JStr (BuildDate d)),
       (''version'', JStr (Version d))]), Returned)"

definition openapi :: "'s third_party \<Rightarrow> 's handler" where
  "openapi tp he r st w =
     http_ServeFile tp ''openapi.yaml'' he r st (on_header (hdr_set ''Content-Type'' ''application/yaml'') w)"

definition redocHTML :: string where
  \<open>redocHTML =
     (let tab = [char_of (9::nat)]
      in ''<!DOCTYPE html>'' @ newline @
         tab @ ''<html>'' @ newline @
         tab @ ''<head>'' @ newline @
         tab @ tab @ ''<meta charset="utf-8" />'' @ newline @
         tab @ tab @ ''<title>API Docs</title>'' @ newline @
         tab @ tab @ ''<link rel="shortcut icon" href="https://ReDoc.ly/favicon.ico" />'' @ newline @
         tab @ tab @ ''<style>body { margin: 0; padding: 0; } </style>'' @ newline @
         tab @ ''</head>'' @ newline @
         tab @ ''<body>'' @ newline @
         tab @ tab @ ''<redoc spec-url='/openapi.yaml'></redoc>'' @ newline @
         tab @ tab @ ''<script src="https://cdn.redoc.ly/redoc/latest/bundles/redoc.standalone.js"></script>'' @ newline @
         tab @ ''</body>'' @ newline @
         tab @ ''</html>'')\<close>

definition docs :: "'s plain" where
  "docs he r s =
     (s, [SetHeader ''Content-Type'' ''text/html; charset=utf-8'', SendBody redocHTML], Returned)"

subsection \<open>The profiler\<close>

text \<open>
  \<open>http.ServeMux\<close> on a clean path: the pattern that is the path, else the longest pattern that ends in a
  slash and begins the path, else 404. It matches the path of the request as it came.
\<close>

definition mux_subtree :: "string \<Rightarrow> (string \<times> 'h) list \<Rightarrow> (string \<times> 'h) option" where
  "mux_subtree path pats =
     fold (\<lambda>(p, h) best.
         if p \<noteq> [] \<and> last p = CHR ''/'' \<and> prefix p path \<and>
            (case best of None \<Rightarrow> True | Some (q, g) \<Rightarrow> length q < length p)
         then Some (p, h) else best) pats None"

definition ServeMux :: "(string \<times> 's handler) list \<Rightarrow> 's handler" where
  "ServeMux pats he r st w =
     (case map_of pats (Path r) of
        Some h \<Rightarrow> h he r st w
      | None \<Rightarrow>
          (case mux_subtree (Path r) pats of
             Some (p, h) \<Rightarrow> h he r st w
           | None \<Rightarrow> serve (\<lambda>he r s. (s, http_Error ''404 page not found'' 404, Returned)) he r st w))"

definition pprofHandler :: "'s third_party \<Rightarrow> 's handler" where
  "pprofHandler tp =
     ServeMux [(''/'', pprof_Index tp), (''/cmdline'', pprof_Cmdline tp), (''/profile'', pprof_Profile tp),
       (''/symbol'', pprof_Symbol tp), (''/trace'', pprof_Trace tp)]"

subsection \<open>API key expiries\<close>

text \<open>The expiries are floored to the day and turned into Unix seconds.\<close>

definition floor_day :: "int \<Rightarrow> int" where
  "floor_day t = (t div day_ns) * day_ns"

definition expUnix :: "config \<Rightarrow> (string \<times> int) list" where
  "expUnix c = map (\<lambda>(k, t). (k, floor_day t div 1000000000)) (APIKeyExpiries c)"

definition api_options :: "config \<Rightarrow> api_key_options" where
  "api_options c = \<lparr>Current = APIKeys c, Old = OldAPIKeys c, Expiries = expUnix c\<rparr>"

subsection \<open>New\<close>

text \<open>The middlewares of \<open>r.Use\<close>, the first one outermost.\<close>

definition middlewares :: "bool \<Rightarrow> string list \<Rightarrow> 's handler \<Rightarrow> 's handler" where
  "middlewares m origins next =
     RequestID (Recovery (Logging m (Timeout 30000000000 (CORS origins (Gzip (-1) (ETag next))))))"

definition v1_routes :: "'s third_party \<Rightarrow> codecs \<Rightarrow> ('s, 't) deps \<Rightarrow> (string \<times> string \<times> 's handler) list" where
  "v1_routes tp cd d =
     map (\<lambda>(m, pat, p). (m, pat, serve p)) (Register cd (UserSvc d)) @ [(''*'', ''/graphql'', gql_handler tp)]"

definition v1 :: "'s third_party \<Rightarrow> codecs \<Rightarrow> ('s, 't) deps \<Rightarrow> 's handler" where
  "v1 tp cd d = APIKeyAuthWithOpts (api_options (CFG d)) (chi_router tp (v1_routes tp cd d))"

definition routes ::
  "'s third_party \<Rightarrow> codecs \<Rightarrow> ('s, 't) deps \<Rightarrow> (string \<times> string \<times> 's handler) list" where
  "routes tp cd d =
     [(''GET'', ''/healthz'', serve healthz),
      (''GET'', ''/readyz'', serve (readyz d)),
      (''GET'', ''/version'', serve (version d))] @
     (if PprofEnabled (CFG d) then [(''*'', ''/debug/pprof/*'', pprofHandler tp)] else []) @
     [(''GET'', ''/openapi.yaml'', openapi tp),
      (''GET'', ''/docs'', serve docs)] @
     (if Env (CFG d) = ''dev'' then [(''GET'', ''/playground'', playground_handler tp)] else []) @
     [(''*'', ''/v1/*'', v1 tp cd d)]"

definition New :: "'s third_party \<Rightarrow> codecs \<Rightarrow> ('s, 't) deps \<Rightarrow> 's handler" where
  "New tp cd d =
     middlewares (has_registry d) (CORSOrigins (CFG d))
       (chi_Heartbeat tp ''/ping'' (chi_router tp (routes tp cd d)))"

end
