(* ===== verification/Router_Props.thy ===== *)
theory Router_Props
  imports Router Middleware_Props
begin

text \<open>
  What the chain of middlewares of \<open>router.go\<close> does to an answer, and the configuration's keys and
  expiry dates as the key check sees them.
\<close>

subsection \<open>The chain\<close>

definition request_trace :: "http_env \<Rightarrow> request \<Rightarrow> string" where
  "request_trace he r =
     (if hdr_get (Header r) ''X-Request-ID'' = [] then uuid_text he (request_uuid he)
      else hdr_get (Header r) ''X-Request-ID'')"

text \<open>The request as the handlers behind \<open>RequestID\<close> and \<open>Timeout\<close> see it.\<close>

definition inner_request :: "http_env \<Rightarrow> request \<Rightarrow> request" where
  "inner_request he r =
     r\<lparr>request_id := Some (request_trace he r), deadline := Some (now (core he) + 30000000000)\<rparr>"

lemma inner_request_simps [simp]:
  "Method (inner_request he r) = Method r" "Header (inner_request he r) = Header r"
  "Path (inner_request he r) = Path r"
  by (simp_all add: inner_request_def)

text \<open>The header map behind the chain, and the calls the chain makes of a handler's.\<close>

definition inner_headers :: "http_env \<Rightarrow> string list \<Rightarrow> request \<Rightarrow> headers" where
  "inner_headers he origins r =
     (let h = all_headers (hdr_set ''X-Request-ID'' (request_trace he r) no_headers) (cors_calls origins r)
      in if accepts_gzip r then hdr_set ''Content-Encoding'' ''gzip'' h else h)"

definition chain_calls :: "http_env \<Rightarrow> string list \<Rightarrow> request \<Rightarrow> action list \<Rightarrow> action list" where
  "chain_calls he origins r as =
     SetHeader ''X-Request-ID'' (request_trace he r) # cors_calls origins r @
     (if accepts_gzip r then gzip_calls he as else as)"

lemma calls_gzip_stage:
  assumes "calls next he r st (if accepts_gzip r then hdr_set ''Content-Encoding'' ''gzip'' h0 else h0) st' as x"
  shows "calls (Gzip (-1) next) he r st h0 st' (if accepts_gzip r then gzip_calls he as else as) x"
proof (cases "accepts_gzip r")
  case True
  then show ?thesis using calls_Gzip [of r "-1" "next" he st h0 st' as x] assms by simp
next
  case False
  then show ?thesis using calls_Gzip_plain assms by simp
qed

lemma accepts_gzip_inner [simp]: "accepts_gzip (inner_request he r) = accepts_gzip r"
  "cors_calls origins (inner_request he r) = cors_calls origins r"
  by (simp_all add: accepts_gzip_def cors_calls_def)

lemma calls_inner:
  assumes "Method r \<noteq> ''OPTIONS''"
    and "calls next he (inner_request he r) st (inner_headers he origins r) st' as x"
  shows "calls (Timeout 30000000000 (CORS origins (Gzip (-1) next))) he
      (r\<lparr>request_id := Some (request_trace he r)\<rparr>) st
      (hdr_set ''X-Request-ID'' (request_trace he r) no_headers) st'
      (cors_calls origins r @ (if accepts_gzip r then gzip_calls he as else as)) x"
proof (rule calls_Timeout)
  have r: "r\<lparr>request_id := Some (request_trace he r)\<rparr>\<lparr>deadline := Some (now (core he) + 30000000000)\<rparr> =
      inner_request he r"
    by (simp add: inner_request_def)
  let ?h = "all_headers (hdr_set ''X-Request-ID'' (request_trace he r) no_headers) (cors_calls origins r)"
  have "inner_headers he origins r = (if accepts_gzip (inner_request he r)
      then hdr_set ''Content-Encoding'' ''gzip'' ?h else ?h)"
    by (simp add: inner_headers_def Let_def)
  with assms(2) have "calls next he (inner_request he r) st (if accepts_gzip (inner_request he r)
      then hdr_set ''Content-Encoding'' ''gzip'' ?h else ?h) st' as x" by simp
  from calls_gzip_stage [OF this]
  have "calls (CORS origins (Gzip (-1) next)) he (inner_request he r) st
      (hdr_set ''X-Request-ID'' (request_trace he r) no_headers) st'
      (cors_calls origins (inner_request he r) @
        (if accepts_gzip (inner_request he r) then gzip_calls he as else as)) x"
    using assms(1) by (intro calls_CORS) simp_all
  then show "calls (CORS origins (Gzip (-1) next)) he
     (r\<lparr>request_id := Some (request_trace he r)\<rparr>\<lparr>deadline := Some (now (core he) + 30000000000)\<rparr>) st
     (hdr_set ''X-Request-ID'' (request_trace he r) no_headers) st'
     (cors_calls origins r @ (if accepts_gzip r then gzip_calls he as else as)) x"
    unfolding r by simp
qed

lemma chain_returned:
  assumes "Method r \<noteq> ''OPTIONS''"
    and "m \<longrightarrow> countable_request r"
    and "calls next he (inner_request he r) st (inner_headers he origins r) st' as Returned"
  shows "calls (middlewares m origins next) he r st no_headers
    (log_request m (r\<lparr>request_id := Some (request_trace he r)\<rparr>)
       (last_code 200 (chain_calls he origins r (etag_calls he r (inner_headers he origins r) as))) st')
    (chain_calls he origins r (etag_calls he r (inner_headers he origins r) as)) Returned"
proof -
  have "calls (ETag next) he (inner_request he r) st (inner_headers he origins r) st'
      (etag_calls he r (inner_headers he origins r) as) Returned"
  proof -
    have "etag_calls he (inner_request he r) h as = etag_calls he r h as" for h
      by (simp add: etag_calls_def)
    with calls_ETag [OF assms(3)] show ?thesis by simp
  qed
  from calls_Recovery(1) [OF calls_Logging(1) [OF calls_inner [OF assms(1) this], of m]] assms(2)
  have "calls (middlewares m origins next) he r st no_headers
    (log_request m (r\<lparr>request_id := Some (request_trace he r)\<rparr>)
       (last_code 200 (cors_calls origins r @ (if accepts_gzip r
          then gzip_calls he (etag_calls he r (inner_headers he origins r) as)
          else etag_calls he r (inner_headers he origins r) as))) st')
    (SetHeader ''X-Request-ID'' (request_trace he r) # cors_calls origins r @ (if accepts_gzip r
          then gzip_calls he (etag_calls he r (inner_headers he origins r) as)
          else etag_calls he r (inner_headers he origins r) as)) Returned"
    unfolding middlewares_def by (intro calls_RequestID) (simp_all add: request_trace_def)
  then show ?thesis by (simp add: chain_calls_def)
qed

lemma chain_panicked:
  assumes "Method r \<noteq> ''OPTIONS''"
    and "calls next he (inner_request he r) st (inner_headers he origins r) st' as (Panicked q)"
  shows "calls (middlewares m origins next) he r st no_headers
    (st'\<lparr>logs := logs st' @ [PanicRecovered q]\<rparr>)
    (chain_calls he origins r (no_bodies as) @ http_Error (StatusText 500) 500) Returned"
proof -
  from calls_Recovery(2) [OF calls_Logging(2) [OF calls_inner [OF assms(1) calls_ETag_panic [OF assms(2)]], of m]]
  have "calls (middlewares m origins next) he r st no_headers
    (st'\<lparr>logs := logs st' @ [PanicRecovered q]\<rparr>)
    (SetHeader ''X-Request-ID'' (request_trace he r) # (cors_calls origins r @ (if accepts_gzip r
      then gzip_calls he (no_bodies as) else no_bodies as)) @ http_Error (StatusText 500) 500) Returned"
    unfolding middlewares_def by (intro calls_RequestID) (simp_all add: request_trace_def)
  then show ?thesis by (simp add: chain_calls_def)
qed

lemma cors_calls_facts [simp]:
  "sends_header (cors_calls origins r) = False" "sends_body (cors_calls origins r) = False"
  "first_code (cors_calls origins r @ as) = first_code as" "bodies (cors_calls origins r) = []"
  "last_code c (cors_calls origins r) = c"
  by (simp_all add: cors_calls_def cors_headers_def Let_def)

lemma keeps_cors [simp]: "keeps_header ''X-Request-ID'' (cors_calls origins r)"
  by (simp add: cors_calls_def cors_headers_def Let_def)

lemma keeps_append [simp]: "keeps_header k (as @ bs) \<longleftrightarrow> keeps_header k as \<and> keeps_header k bs"
  by (induction k as rule: keeps_header.induct) auto

lemma keeps_no_bodies: "keeps_header k as \<Longrightarrow> keeps_header k (no_bodies as)"
  by (induction as rule: no_bodies.induct) auto

lemma keeps_gz_calls: "keeps_header k as \<Longrightarrow> keeps_header k (gz_calls he started as)"
  by (induction as arbitrary: started rule: bodies.induct) auto

lemma first_code_gz_cons: "first_code (gzip_calls he as @ bs) = first_code as"
  by (simp add: gzip_calls_def first_code_gz_calls)


definition in_memory_deps :: "(unit, unit) svc_ops \<Rightarrow> config \<Rightarrow> (unit, unit) deps" where
  "in_memory_deps ops c =
     \<lparr>UserSvc = ops, CFG = c, has_registry = True, Version = ''dev'', Commit = ''none'',
      BuildDate = ''unknown'', db_ping = None\<rparr>"


text \<open>
  C23: Through the whole chain, the answer to a creation (201) and every problem answer reach the client with
  their status and without their body: an empty one, or the gzip stream of nothing.
\<close>

theorem chain_loses_body:
  assumes "Method r \<noteq> ''OPTIONS''" "m \<longrightarrow> countable_request r"
    and "p he (inner_request he r) (svc st) = (s', as, Returned)"
    and "as = render_JSON he 201 v \<or> (\<exists>title detail. as = render_Problem he code title detail)"
    and "body_allowed code"
  shows "\<exists>st' h k. serve_request (middlewares m origins (serve p)) he r st =
      (st', (k, h, if accepts_gzip r then gz_head he @ gz_tail he [] else []), Returned) \<and>
    svc st' = s' \<and> k = first_code as"
proof -
  note c = serve_calls [OF chain_returned [OF assms(1,2)
      calls_serve [of p he "inner_request he r" st, OF assms(3)]], of origins]
  have "\<not> taggable h0 as" for h0
    using assms(4) by (auto simp: taggable_def)
  moreover have "first_code (no_bodies as) = first_code as" "body_allowed (first_code as)"
    using assms(4,5) by (auto simp: render_JSON_def render_Problem_def body_allowed_def)
  ultimately show ?thesis
    unfolding c
    by (auto simp: chain_calls_def etag_calls_def log_request_def gzip_calls_def first_code_gz_cons
        first_code_gz_calls)
qed

definition missing :: "'s plain" where
  "missing he r s = (s, render_Problem he 404 ''Get Failed'' ''not found'', Returned)"

theorem chain_loses_body_witness:
  "\<exists>st' h. serve_request (middlewares True [] (serve missing)) sample_http
      (get_request []) (empty_world ()) = (st', (404, h, []), Returned)"
proof -
  have "accepts_gzip (get_request []) = False" by (simp add: accepts_gzip_def)
  moreover have "missing sample_http (inner_request sample_http (get_request [])) () =
      ((), render_Problem sample_http 404 ''Get Failed'' ''not found'', Returned)"
    by (simp add: missing_def)
  moreover have "\<exists>title detail. render_Problem sample_http 404 ''Get Failed'' ''not found'' =
      render_Problem sample_http 404 title detail" by blast
  ultimately show ?thesis
    using chain_loses_body [of "get_request []" True missing sample_http "empty_world ()" "()"
        "render_Problem sample_http 404 ''Get Failed'' ''not found''", OF _ _ _ disjI2, of 404 "[]"]
    by (simp add: body_allowed_def)
qed

text \<open>
  Every answer carries the request's identifier, the client's own or a fresh one, and the log line
  of the request has the same, provided the handler leaves the header alone.
\<close>

theorem request_traced:
  assumes "Method r \<noteq> ''OPTIONS''" "m \<longrightarrow> countable_request r"
    and "p he (inner_request he r) (svc st) = (s', as, Returned)" "keeps_header ''X-Request-ID'' as"
  shows "\<exists>st' code h b c. serve_request (middlewares m origins (serve p)) he r st = (st', (code, h, b), Returned) \<and>
    h ''X-Request-ID'' = [request_trace he r] \<and>
    logs st' = logs st @ [RequestDone (Some (request_trace he r)) (Method r) (Path r) c]"
proof -
  note c = serve_calls [OF chain_returned [OF assms(1,2)
      calls_serve [of p he "inner_request he r" st, OF assms(3)]], of origins]
  let ?as = "etag_calls he r (inner_headers he origins r) as"
  have "keeps_header ''X-Request-ID'' ?as"
    using assms(4) by (simp add: etag_calls_def keeps_no_bodies)
  then have "keeps_header ''X-Request-ID'' (cors_calls origins r @
      (if accepts_gzip r then gzip_calls he ?as else ?as))"
    by (simp add: gzip_calls_def keeps_gz_calls)
  then show ?thesis
    unfolding c by (simp add: chain_calls_def sent_headers_kept log_request_def hdr_apply)
qed

theorem request_traced_witness:
  "\<exists>st' code h b c. serve_request (middlewares True [] (serve hello)) sample_http
      (get_request [(''X-Request-ID'', ''abc'')]) (empty_world ()) = (st', (code, h, b), Returned) \<and>
    h ''X-Request-ID'' = [''abc''] \<and> logs st' = [RequestDone (Some ''abc'') ''GET'' ''/v1/users'' c]"
  using request_traced [of "get_request [(''X-Request-ID'', ''abc'')]" True hello sample_http "empty_world ()" "()"
      "render_JSON sample_http 200 (JStr ''hi'')" "[]"]
  by (simp add: hello_def request_trace_def) (simp add: render_JSON_def)

subsection \<open>The profiler\<close>

text \<open>
  Under \<open>/debug/pprof\<close> every request goes to the index: chi leaves the path of the request alone when it mounts
  a handler, so that the patterns of the mux, which lack the mount's path, match none of
  \<open>/debug/pprof/cmdline\<close>, \<open>profile\<close>, \<open>symbol\<close> and \<open>trace\<close>.
\<close>

lemma pprof_always_index:
  assumes "prefix ''/debug/pprof'' (Path r)"
  shows "pprofHandler tp he r st w = pprof_Index tp he r st w"
proof -
  from assms obtain rest where path: "Path r = ''/debug/pprof'' @ rest" by (auto simp: prefix_def)
  show ?thesis by (simp add: pprofHandler_def ServeMux_def path mux_subtree_def)
qed

subsection \<open>Keys and expiry dates\<close>

lemma key_list_filter: "key_list ps keys = keys @ filter (\<lambda>k. k \<noteq> []) (map trim_space ps)"
  by (induction ps keys rule: key_list.induct) (simp_all add: Let_def)


definition sample_getenv :: getenv where
  "sample_getenv k =
     (if k = ''INMEMORY'' then ''1'' else if k = ''API_KEYS'' then ''k1,k2,'' else
      if k = ''API_KEY_EXPIRIES'' then ''k1:2025-01-02,k2:soon'' else [])"

definition sample_config :: config where
  "sample_config = load_rest (\<lambda>s. s) sample_getenv 8080 10 10"

lemma sample_Load: "Load (\<lambda>s. s) (\<lambda>s. Inr 10) sample_getenv = Ok sample_config"
proof -
  have "atoi ''8080'' = (8080, None)"
    by (simp add: atoi_def parse_int_def parse_uint_def digit_val_def)
  moreover have "Validate sample_config = None"
    by (simp add: sample_config_def Validate_def load_rest_def sample_getenv_def getEnvDefault_def)
  ultimately show ?thesis by (simp add: Load_def getEnvDefault_def sample_getenv_def sample_config_def)
qed

lemma sample_trims:
  "trim_space ''k1:2025-01-02'' = ''k1:2025-01-02''" "trim_space ''2025-01-02'' = ''2025-01-02''"
  "trim_space ''k1'' = ''k1''" "trim_space ''k2'' = ''k2''" "trim_space ''k2:soon'' = ''k2:soon''"
  "trim_space ''soon'' = ''soon''"
  by (rule trim_space_visible, simp add: visible_def)+

lemma sample_dates:
  "parse_date ''2025-01-02'' = Some 1735776000000000000" "parse_date ''soon'' = None"
  by (simp_all add: parse_date_def digit_val_def dash_def days_in_def unix_day_def)

lemma sample_keys:
  "APIKeys sample_config = [''k1'', ''k2'']"
  "APIKeyExpiries sample_config = [(''k1'', 1735776000000000000)]"
  by (simp_all add: sample_config_def load_rest_def sample_getenv_def sample_trims expiry_pair_def
      split_first_def sample_dates)


lemma floor_day_mult [simp]: "floor_day (k * day_ns) = k * day_ns"
  by (simp add: floor_day_def)

lemma map_of_expUnix:
  "map_of (expUnix c) k = map_option (\<lambda>t. floor_day t div 1000000000) (map_of (APIKeyExpiries c) k)"
proof -
  have "map_of (map (\<lambda>(k, t). (k, f t)) kts) k = map_option f (map_of kts k)" for f :: "int \<Rightarrow> int" and kts
    by (induction kts) auto
  then show ?thesis by (simp add: expUnix_def)
qed

lemma le_div_iff:
  fixes a n b :: int
  assumes "0 < b"
  shows "a \<le> n div b \<longleftrightarrow> a * b \<le> n"
proof
  assume "a \<le> n div b"
  then have "a * b \<le> n div b * b" using assms by (simp add: mult_right_mono)
  also have "\<dots> \<le> n" using assms by (simp add: div_mult_mod_eq [symmetric] minus_mod_eq_div_mult [symmetric])
  finally show "a * b \<le> n" .
next
  assume "a * b \<le> n"
  then have "a * b div b \<le> n div b" using assms by (intro zdiv_mono1)
  then show "a \<le> n div b" using assms by simp
qed



end
