(* ===== verification/Metrics_Props.thy ===== *)
theory Metrics_Props
  imports Router_Props
begin

text \<open>
  What the counters and the log of a running server say about its requests: they agree over every
  sequence of requests through the whole chain, and both miss the requests on whose path the
  metrics client panics.
\<close>

subsection \<open>Counters and log\<close>

fun counted :: "log_entry \<Rightarrow> (string \<times> string \<times> string) list" where
  "counted (RequestDone i m p c) = [(m, p, StatusText c)]"
| "counted (PanicRecovered q) = []"

definition metrics_match :: "'s world \<Rightarrow> bool" where
  "metrics_match st \<longleftrightarrow>
     http_requests st = concat (map counted (logs st)) \<and>
     http_durations st = map (\<lambda>(m, p, c). (m, p)) (http_requests st)"

definition keeps_world :: "('s world \<Rightarrow> bool) \<Rightarrow> 's handler \<Rightarrow> bool" where
  "keeps_world Q next \<longleftrightarrow> (\<forall>he r st w. Q st \<longrightarrow> Q (fst (next he r st w)))"

lemma keeps_worldD: "keeps_world Q next \<Longrightarrow> Q st \<Longrightarrow> next he r st w = (st', w', x) \<Longrightarrow> Q st'"
  unfolding keeps_world_def by (metis fst_conv)

text \<open>The middlewares that leave the world to the handler they wrap.\<close>

lemma keeps_worldI: "(\<And>he r st w. Q st \<Longrightarrow> Q (fst (h he r st w))) \<Longrightarrow> keeps_world Q h"
  by (simp add: keeps_world_def)

lemma keeps_wrappers:
  assumes "keeps_world Q next"
  shows "keeps_world Q (RequestID next)" "keeps_world Q (Timeout d next)" "keeps_world Q (CORS origins next)"
    "keeps_world Q (Gzip level next)" "keeps_world Q (ETag next)"
proof -
  have inner: "Q st \<Longrightarrow> Q (fst (next he r st w))" for he r st w
    using assms unfolding keeps_world_def by blast
  show "keeps_world Q (RequestID next)" "keeps_world Q (Timeout d next)" "keeps_world Q (CORS origins next)"
    by (rule keeps_worldI, simp add: RequestID_def Timeout_def CORS_def Let_def inner)+
  show "keeps_world Q (Gzip level next)" "keeps_world Q (ETag next)"
    by (rule keeps_worldI, simp add: Gzip_def ETag_def Let_def inner case_prod_beta split: hres.split)+
qed

lemma keeps_Logging:
  assumes "keeps_world metrics_match next"
  shows "keeps_world metrics_match (Logging True next)"
proof (rule keeps_worldI)
  fix he r and st :: "'a world" and w
  assume st: "metrics_match st"
  obtain st1 w1 x where run: "next he r st (push (LStatus 200) w) = (st1, w1, x)" by (metis prod_cases3)
  have "metrics_match st1" by (rule keeps_worldD [OF assms st run])
  then show "metrics_match (fst (Logging True next he r st w))"
    by (cases x) (auto simp: Logging_def run count_request_eq Let_def metrics_match_def)
qed

lemma keeps_Recovery: "keeps_world metrics_match next \<Longrightarrow> keeps_world metrics_match (Recovery next)"
  by (auto simp: keeps_world_def Recovery_def metrics_match_def case_prod_beta split: hres.split)

lemma keeps_serve: "keeps_world metrics_match (serve p)"
  by (auto simp: keeps_world_def serve_def metrics_match_def split: prod.splits)

text \<open>A sequence of requests, each to a handler of its own.\<close>

fun serve_all :: "http_env \<Rightarrow> ('s handler \<times> request) list \<Rightarrow> 's world \<Rightarrow> 's world" where
  "serve_all he [] st = st"
| "serve_all he ((h, r) # rs) st = serve_all he rs (fst (serve_request h he r st))"

text \<open>
  C37: The metrics agree with the log: over every sequence of requests through the whole chain of
  middlewares, whatever handlers they reach, whether these return, panic or are cut off by a CORS
  preflight, the counter of a method, path and status has been incremented exactly as often as the log
  has a request line with them, and every counted request has one duration.
\<close>

theorem metrics_match_log:
  assumes "\<forall>(h, r) \<in> set rs. \<exists>origins next. h = middlewares True origins next \<and> keeps_world metrics_match next"
    and "metrics_match st"
  shows "metrics_match (serve_all he rs st) \<and>
    count_list (http_requests (serve_all he rs st)) (m, p, c) =
      length (filter (\<lambda>l. counted l = [(m, p, c)]) (logs (serve_all he rs st)))"
proof
  show match: "metrics_match (serve_all he rs st)"
    using assms
  proof (induction he rs st rule: serve_all.induct)
    case (2 he h r rs st)
    then obtain origins "next" where h: "h = middlewares True origins next" "keeps_world metrics_match next"
      by auto
    have "keeps_world metrics_match h"
      unfolding h(1) middlewares_def
      by (intro keeps_wrappers keeps_Recovery keeps_Logging h(2))
    with 2(3) have "metrics_match (fst (serve_request h he r st))"
      by (auto simp: keeps_world_def serve_request_def case_prod_beta)
    with 2 show ?case by simp
  qed simp
  have "count_list (concat (map counted ls)) (m, p, c) = length (filter (\<lambda>l. counted l = [(m, p, c)]) ls)"
    for ls
  proof (induction ls)
    case (Cons l ls)
    then show ?case by (cases l) auto
  qed simp
  with match show "count_list (http_requests (serve_all he rs st)) (m, p, c) =
      length (filter (\<lambda>l. counted l = [(m, p, c)]) (logs (serve_all he rs st)))"
    by (simp add: metrics_match_def)
qed

lemma metrics_match_empty [simp]: "metrics_match (empty_world s)"
  by (simp add: metrics_match_def empty_world_def)

theorem metrics_match_log_witness:
  "count_list (http_requests (serve_all sample_http
      [(middlewares True [] (serve hello), get_request []), (middlewares True [] (serve missing), get_request [])]
      (empty_world ()))) (''GET'', ''/v1/users'', ''Not Found'') = 1"
proof -
  let ?rs = "[(middlewares True [] (serve hello), get_request []), (middlewares True [] (serve missing), get_request [])]"
  have "\<forall>(h, r) \<in> set ?rs. \<exists>origins next. h = middlewares True origins next \<and> keeps_world metrics_match next"
    using keeps_serve by auto
  from metrics_match_log [OF this metrics_match_empty, of sample_http "()" "''GET''" "''/v1/users''" "''Not Found''"]
  have "count_list (http_requests (serve_all sample_http ?rs (empty_world ()))) (''GET'', ''/v1/users'', ''Not Found'') =
      length (filter (\<lambda>l. counted l = [(''GET'', ''/v1/users'', ''Not Found'')])
        (logs (serve_all sample_http ?rs (empty_world ()))))"
    by (rule conjunct2)
  also have "\<dots> = 1" by code_simp
  finally show ?thesis .
qed

subsection \<open>Paths that are not UTF-8\<close>

lemma etag_calls_inner: "etag_calls he (inner_request he r) h as = etag_calls he r h as"
  by (simp add: etag_calls_def)

lemma chain_bad_path:
  assumes "Method r \<noteq> ''OPTIONS''" "\<not> countable_request r"
    and "calls next he (inner_request he r) st (inner_headers he origins r) st' as Returned"
  shows "calls (middlewares True origins next) he r st no_headers
    (st'\<lparr>logs := logs st' @ [PanicRecovered (bad_label r)]\<rparr>)
    (chain_calls he origins r (etag_calls he r (inner_headers he origins r) as) @
      http_Error (StatusText 500) 500) Returned"
proof -
  let ?as = "etag_calls he r (inner_headers he origins r) as"
  have etag: "calls (ETag next) he (inner_request he r) st (inner_headers he origins r) st' ?as Returned"
    using calls_ETag [OF assms(3)] by (simp add: etag_calls_inner)
  have label: "bad_label (r\<lparr>request_id := i\<rparr>) = bad_label r" for i by (simp add: bad_label_def)
  have "calls (middlewares True origins next) he r st no_headers
    (st'\<lparr>logs := logs st' @ [PanicRecovered (bad_label r)]\<rparr>)
    (SetHeader ''X-Request-ID'' (request_trace he r) # (cors_calls origins r @
      (if accepts_gzip r then gzip_calls he ?as else ?as)) @ http_Error (StatusText 500) 500) Returned"
    using calls_Recovery(2) [OF calls_Logging(3) [OF calls_inner [OF assms(1) etag]]] assms(2)
    unfolding middlewares_def by (intro calls_RequestID) (simp_all add: request_trace_def label)
  then show ?thesis by (simp add: chain_calls_def)
qed

text \<open>
  C38: Anyone can make the chain panic: where there are metrics, every request whose path is not UTF-8 (one
  escaped byte is enough) panics in \<open>Logging\<close> after the handler has run. What the handler did stays done,
  the request is neither logged nor counted, and the client gets the handler's status with the text
  "Internal Server Error" behind the body, or 500 when the handler had sent nothing.
\<close>

theorem bad_path_panics:
  assumes "Method r \<noteq> ''OPTIONS''" "\<not> countable_request r"
    and "p he (inner_request he r) (svc st) = (s', as, Returned)"
  shows "\<exists>code h b. serve_request (middlewares True origins (serve p)) he r st =
      (st\<lparr>svc := s', logs := logs st @ [PanicRecovered (bad_label r)]\<rparr>, (code, h, b), Returned) \<and>
    (\<not> accepts_gzip r \<longrightarrow> as = render_JSON he 200 v \<longrightarrow>
       hdr_get (Header r) ''If-None-Match'' \<noteq> etag_of he (json_text he v @ newline) \<longrightarrow>
       code = 200 \<and> b = json_text he v @ newline @ ''Internal Server Error'' @ newline)"
proof -
  note c = serve_calls [OF chain_bad_path [OF assms(1,2)
      calls_serve [of p he "inner_request he r" st, OF assms(3)]], of origins]
  let ?cs = "chain_calls he origins r (etag_calls he r (inner_headers he origins r) as) @
      http_Error (StatusText 500) 500"
  have sent: "first_code ?cs = 200" "bodies ?cs = json_text he v @ newline @ ''Internal Server Error'' @ newline"
    if "\<not> accepts_gzip r" "as = render_JSON he 200 v"
      "hdr_get (Header r) ''If-None-Match'' \<noteq> etag_of he (json_text he v @ newline)"
    using that by (auto simp: chain_calls_def etag_calls_def taggable_def render_JSON_def
        http_Error_def StatusText_def newline_def hdrContentTypeJSON_def)
  have ok: "body_allowed 200" by (simp add: body_allowed_def)
  show ?thesis
  proof (intro exI conjI impI)
    show "serve_request (middlewares True origins (serve p)) he r st =
        (st\<lparr>svc := s', logs := logs st @ [PanicRecovered (bad_label r)]\<rparr>,
         (first_code ?cs, sent_headers no_headers ?cs, if body_allowed (first_code ?cs) then bodies ?cs else []),
         Returned)"
      by (simp add: c)
    assume json: "\<not> accepts_gzip r" "as = render_JSON he 200 v"
      "hdr_get (Header r) ''If-None-Match'' \<noteq> etag_of he (json_text he v @ newline)"
    show "first_code ?cs = 200" by (rule sent(1) [OF json])
    show "(if body_allowed (first_code ?cs) then bodies ?cs else []) =
        json_text he v @ newline @ ''Internal Server Error'' @ newline"
      by (simp only: sent [OF json] ok if_True)
  qed
qed

definition bad_path_request :: request where
  "bad_path_request = (get_request [])\<lparr>Path := [CHR ''/'', char_of (255::nat)]\<rparr>"

theorem bad_path_panics_witness:
  "\<exists>h. serve_request (middlewares True [] (serve hello)) sample_http bad_path_request (empty_world ()) =
      ((empty_world ())\<lparr>svc := (), logs := [PanicRecovered (bad_label bad_path_request)]\<rparr>,
       (200, h, ''hi'' @ newline @ ''Internal Server Error'' @ newline), Returned)"
proof -
  have bad: "\<not> countable_request bad_path_request" by code_simp
  have get: "Method bad_path_request \<noteq> ''OPTIONS''" by (simp add: bad_path_request_def)
  have header: "Header bad_path_request = Header (get_request [])" by (simp add: bad_path_request_def)
  have plain: "\<not> accepts_gzip bad_path_request"
    "hdr_get (Header bad_path_request) ''If-None-Match'' \<noteq> etag_of sample_http (''hi'' @ newline)"
    unfolding accepts_gzip_def header by simp_all
  have run: "hello sample_http (inner_request sample_http bad_path_request) (svc (empty_world ())) =
      ((), render_JSON sample_http 200 (JStr ''hi''), Returned)"
    by (simp add: hello_def)
  from bad_path_panics [where p = hello and he = sample_http and r = bad_path_request and
      st = "empty_world ()" and origins = "[]" and v = "JStr ''hi''", OF get bad run] plain
  show ?thesis by (auto simp: sample_http_def)
qed

end
