(* ===== verification/Gql_Model.thy ===== *)
theory Gql_Model
  imports User_Service
begin

text \<open>
  What the gqlgen executor of \<open>graph/generated/generated.go\<close> works with: argument values, marshalers,
  response paths, collected fields, the response context's errors, and the parts of the gqlgen library
  it calls.

  A \<open>graphql.Marshaler\<close> is named after the function that made it. The library itself is the record
  \<open>gql\<close>: collecting the fields of a selection set, unmarshalling arguments, the recovery function,
  \<open>HasFieldError\<close>, and the order in which \<open>FieldSet.Dispatch\<close> finishes its goroutines.
\<close>

subsection \<open>Values\<close>

text \<open>What \<open>map[string]interface{}\<close> holds for a raw argument.\<close>

datatype gval =
    VNil
  | VString string
  | VInt int
  | VFloat string
  | VBool bool
  | VList "gval list"
  | VMap "(string \<times> gval) list"

text \<open>\<open>graph/model/models.go\<close>.\<close>

record model_user =
  mu_ID :: string
  mu_Name :: string
  mu_Email :: string
  mu_CreatedAt :: string
  mu_UpdatedAt :: string
  mu_DeletedAt :: "string option"

text \<open>
  An \<open>interface{}\<close> that holds an unmarshalled argument or a resolver's result, by dynamic type. A nil
  pointer in an interface is not the nil interface \<open>DNil\<close>.
\<close>

datatype dyn =
    DNil
  | DString string
  | DStringPtr "string option"
  | DIntPtr "go_int option"
  | DBool bool
  | DUser "model_user option"
  | DUsers "model_user list"

text \<open>\<open>Null\<close> is \<open>graphql.Null\<close>; a field set pairs its fields' aliases with their values.\<close>

datatype marshaler =
    Null
  | MarshalString string
  | MarshalID string
  | MarshalBoolean bool
  | MarshalInt go_int
  | MArray "marshaler list"
  | FieldSet "(string \<times> marshaler) list"

subsection \<open>Paths and errors\<close>

datatype path_elem = PathName string | PathIndex nat

type_synonym path = "path_elem list"
type_synonym gql_error = "path \<times> gerr"

text \<open>Code that may panic.\<close>

datatype 'a outcome = Value 'a | Panics string

text \<open>The state of an execution: the service's state and the errors of the response context.\<close>

record 's exec =
  st :: 's
  errs :: "gql_error list"

definition add_error :: "gql_error \<Rightarrow> 's exec \<Rightarrow> 's exec" where
  "add_error x t = t\<lparr>errs := errs t @ [x]\<rparr>"

text \<open>\<open>ec.Error(ctx, err)\<close> for an error without a path: it gets the path of the context.\<close>

definition ec_Error :: "path \<Rightarrow> gerr \<Rightarrow> 's exec \<Rightarrow> 's exec" where
  "ec_Error p f t = add_error (p, f) t"

lemma add_error_simps [simp]:
  "st (add_error x t) = st t" "errs (add_error x t) = errs t @ [x]"
  "st (ec_Error p f t) = st t" "errs (ec_Error p f t) = errs t @ [(p, f)]"
  by (simp_all add: add_error_def ec_Error_def)

subsection \<open>Fields\<close>

text \<open>
  A \<open>graphql.CollectedField\<close>: its name, its alias, what \<open>ArgumentMap\<close> gives for the operation's
  variables, and its selection set.
\<close>

record 'sel gfield =
  fld_Name :: string
  Alias :: string
  ArgumentMap :: "string \<Rightarrow> gval option"
  Selections :: 'sel

text \<open>
  \<open>graphql.FieldContext\<close>. Its \<open>Child\<close>, a function to the context of a field below it, is one of two
  closures: the refusal of a type without fields, or the switch over the fields of an object type
  (\<open>child_context\<close>). The type names the closure, as contexts and children refer to each other in cycles.
\<close>

datatype children = NoChildren string | ChildrenOf string

datatype 'sel field_context =
  FieldContext (Object: string) (Field: "'sel gfield") (IsMethod: bool) (IsResolver: bool)
    (Child: children) (Args: "string \<Rightarrow> dyn option")

subsection \<open>The library\<close>

text \<open>
  \<open>schedule\<close> gives the order in which the concurrent fields of a field set, or the elements of a list,
  are executed. \<open>nesting\<close> measures a selection set: how deep selections are nested in it.
\<close>

record 'sel gql =
  CollectFields :: "'sel \<Rightarrow> string list \<Rightarrow> 'sel gfield list"
  HasFieldError :: "gql_error list \<Rightarrow> path \<Rightarrow> bool"
  RecoverFunc :: "string \<Rightarrow> gerr"
  UnmarshalString :: "gval \<Rightarrow> string res"
  UnmarshalID :: "gval \<Rightarrow> string res"
  UnmarshalInt :: "gval \<Rightarrow> go_int res"
  UnmarshalBoolean :: "gval \<Rightarrow> bool res"
  CoerceList :: "gval \<Rightarrow> gval list"
  schedule :: "nat list \<Rightarrow> nat list"
  nesting :: "'sel \<Rightarrow> nat"

text \<open>
  The documented behaviour relied on: a field only has an error when there is an error, every concurrent
  field is executed once, and what is selected below a field is nested less deep than the selection set
  the field is collected from (a document is finite, and validation refuses fragments that spread
  themselves).
\<close>

definition wf_gql :: "'sel gql \<Rightarrow> bool" where
  "wf_gql G \<longleftrightarrow>
     (\<forall>es p. HasFieldError G es p \<longrightarrow> p \<in> fst ` set es) \<and>
     (\<forall>xs. mset (schedule G xs) = mset xs) \<and>
     (\<forall>sel tys. \<forall>f \<in> set (CollectFields G sel tys). nesting G (Selections f) < nesting G sel)"

lemma wf_gqlD:
  assumes "wf_gql G"
  shows "HasFieldError G es p \<Longrightarrow> p \<in> fst ` set es" "mset (schedule G xs) = mset xs"
    "f \<in> set (CollectFields G sel tys) \<Longrightarrow> nesting G (Selections f) < nesting G sel"
  using assms by (auto simp: wf_gql_def)

subsection \<open>Shapes of the generated code\<close>

text \<open>
  The deferred function of every field: a panic becomes an error at the field's path and the field
  null.
\<close>

definition recovering ::
  "'sel gql \<Rightarrow> path \<Rightarrow> 's exec \<times> marshaler outcome \<Rightarrow> 's exec \<times> marshaler" where
  "recovering G p x =
     (case x of
        (t, Value m) \<Rightarrow> (t, m)
      | (t, Panics q) \<Rightarrow> (ec_Error p (RecoverFunc G q) t, Null))"

text \<open>\<open>ec.Errorf\<close> where the field has no error yet.\<close>

definition null_error :: "'sel gql \<Rightarrow> path \<Rightarrow> string \<Rightarrow> 's exec \<Rightarrow> 's exec" where
  "null_error G p msg t = (if HasFieldError G (errs t) p then t else ec_Error p (ErrorNew msg) t)"

text \<open>
  What follows the resolver's call in every field function: an error is recorded and the field null, a
  nil interface is null (with an error where the schema has a \<open>!\<close>), anything else is marshalled.
\<close>

definition resolved_as ::
  "'sel gql \<Rightarrow> ('v \<Rightarrow> bool) \<Rightarrow> bool \<Rightarrow> path \<Rightarrow> ('s exec \<Rightarrow> 'v \<Rightarrow> 's exec \<times> marshaler outcome) \<Rightarrow>
   's exec \<times> 'v res \<Rightarrow> 's exec \<times> marshaler outcome" where
  "resolved_as G is_nil nonnull p marshal x =
     (case x of
        (t, Panic q) \<Rightarrow> (t, Panics q)
      | (t, Err f) \<Rightarrow> (ec_Error p f t, Value Null)
      | (t, Ok v) \<Rightarrow>
          if is_nil v then (if nonnull then null_error G p ''must not be null'' t else t, Value Null)
          else marshal t v)"

definition resolved where
  "resolved G = resolved_as G (\<lambda>v. v = DNil)"

text \<open>
  The loop over the collected fields, left to right: each step gives the field's value and whether it
  is an invalid null.
\<close>

primrec run_fields ::
  "(nat \<Rightarrow> 'sel gfield \<Rightarrow> 's exec \<Rightarrow> 's exec \<times> (marshaler \<times> bool) outcome) \<Rightarrow>
   nat \<Rightarrow> 'sel gfield list \<Rightarrow> 's exec \<Rightarrow> 's exec \<times> (marshaler list \<times> nat) outcome" where
  "run_fields step i [] t = (t, Value ([], 0))"
| "run_fields step i (f # fs) t =
     (case step i f t of
        (t, Panics q) \<Rightarrow> (t, Panics q)
      | (t, Value (m, bad)) \<Rightarrow>
          (case run_fields step (Suc i) fs t of
             (t, Panics q) \<Rightarrow> (t, Panics q)
           | (t, Value (ms, invalids)) \<Rightarrow> (t, Value (m # ms, of_bool bad + invalids))))"

text \<open>The end of an object: an invalid field makes the whole object null.\<close>

definition object_value :: "'sel gfield list \<Rightarrow> marshaler list \<times> nat \<Rightarrow> marshaler" where
  "object_value fs x =
     (case x of (ms, invalids) \<Rightarrow>
        if 0 < invalids then Null else FieldSet (zip (map Alias fs) ms))"

definition object_outcome ::
  "'sel gfield list \<Rightarrow> 's exec \<times> (marshaler list \<times> nat) outcome \<Rightarrow> 's exec \<times> marshaler outcome" where
  "object_outcome fs x =
     (case x of
        (t, Panics q) \<Rightarrow> (t, Panics q)
      | (t, Value y) \<Rightarrow> (t, Value (object_value fs y)))"

text \<open>One turn of the loop; a null where the schema has a \<open>!\<close> counts as invalid.\<close>

definition nonnull_field :: "'s exec \<times> marshaler \<Rightarrow> 's exec \<times> (marshaler \<times> bool) outcome" where
  "nonnull_field x = (case x of (t, m) \<Rightarrow> (t, Value (m, m = Null)))"

definition nullable_field :: "'s exec \<times> marshaler \<Rightarrow> 's exec \<times> (marshaler \<times> bool) outcome" where
  "nullable_field x = (case x of (t, m) \<Rightarrow> (t, Value (m, False)))"

text \<open>The names of a validated document hold no character that \<open>strconv.Quote\<close> escapes.\<close>

definition quoted :: "string \<Rightarrow> string" where
  "quoted s = CHR 0x22 # s @ [CHR 0x22]"

definition unknown_field :: "'sel gfield \<Rightarrow> 's exec \<Rightarrow> 's exec \<times> (marshaler \<times> bool) outcome" where
  "unknown_field f t = (t, Panics (''unknown field '' @ quoted (fld_Name f)))"

definition field_path :: "path \<Rightarrow> 'sel gfield \<Rightarrow> path" where
  "field_path p f = p @ [PathName (Alias f)]"

subsection \<open>Scalars\<close>

definition null_checked ::
  "'sel gql \<Rightarrow> path \<Rightarrow> 's exec \<Rightarrow> marshaler \<Rightarrow> 's exec \<times> marshaler outcome" where
  "null_checked G p t m =
     (if m = Null
      then (null_error G p ''the requested element is null which the schema does not allow'' t, Value m)
      else (t, Value m))"

definition marshalNBoolean2bool where
  "marshalNBoolean2bool G p t v = null_checked G p t (MarshalBoolean v)"

definition marshalNID2string where
  "marshalNID2string G p t v = null_checked G p t (MarshalID v)"

definition marshalNString2string where
  "marshalNString2string G p t v = null_checked G p t (MarshalString v)"

definition marshalNDirectiveLocation2string where
  "marshalNDirectiveLocation2string G p t v = null_checked G p t (MarshalString v)"

definition marshalNTypeKind2string where
  "marshalNTypeKind2string G p t v = null_checked G p t (MarshalString v)"

definition marshalOBoolean2bool where
  "marshalOBoolean2bool t v = (t, Value (MarshalBoolean v))"

definition marshalOBoolean2bool_ptr where
  "marshalOBoolean2bool_ptr t v =
     (t, Value (case v of None \<Rightarrow> Null | Some b \<Rightarrow> MarshalBoolean b))"

definition marshalOInt2int where
  "marshalOInt2int t v =
     (t, Value (case v of None \<Rightarrow> Null | Some n \<Rightarrow> MarshalInt n))"

definition marshalOString2string where
  "marshalOString2string t v =
     (t, Value (case v of None \<Rightarrow> Null | Some s \<Rightarrow> MarshalString s))"

subsection \<open>Lists\<close>

text \<open>
  The shape of every function for a list: one goroutine per element (none for a single one), finishing
  in the order of \<open>schedule\<close>, each in a context with its index. \<open>ret\<close> is \<open>None\<close> once an element has
  panicked and set it to nil; storing into the nil slice then panics too. A nil list ends up empty.
\<close>

definition marshal_element ::
  "'sel gql \<Rightarrow> path \<Rightarrow> (path \<Rightarrow> 's exec \<Rightarrow> 'v \<Rightarrow> 's exec \<times> marshaler outcome) \<Rightarrow> 'v list \<Rightarrow> nat \<Rightarrow>
   's exec \<times> marshaler list option \<Rightarrow> 's exec \<times> marshaler list option" where
  "marshal_element G p elem v i x =
     (case x of (t, ret) \<Rightarrow>
        (case elem (p @ [PathIndex i]) t (v ! i) of
           (t, Panics q) \<Rightarrow> (ec_Error (p @ [PathIndex i]) (RecoverFunc G q) t, None)
         | (t, Value m) \<Rightarrow>
             (case ret of
                Some ms \<Rightarrow> (t, Some (ms[i := m]))
              | None \<Rightarrow> (ec_Error (p @ [PathIndex i]) (RecoverFunc G ''index out of range'') t, None))))"

definition marshal_list ::
  "'sel gql \<Rightarrow> path \<Rightarrow> (path \<Rightarrow> 's exec \<Rightarrow> 'v \<Rightarrow> 's exec \<times> marshaler outcome) \<Rightarrow> 's exec \<Rightarrow> 'v list \<Rightarrow>
   's exec \<times> marshaler outcome" where
  "marshal_list G p elem t v =
     (case fold (marshal_element G p elem v) (schedule G [0..<length v])
             (t, Some (replicate (length v) Null)) of
        (t, None) \<Rightarrow> (t, Value (MArray []))
      | (t, Some ret) \<Rightarrow> (t, Value (if Null \<in> set ret then Null else MArray ret)))"

text \<open>A list without \<open>!\<close>: nil is null.\<close>

definition marshal_nil_list where
  "marshal_nil_list G p elem t v =
     (case v of None \<Rightarrow> (t, Value Null) | Some xs \<Rightarrow> marshal_list G p elem t xs)"

end
