(* ===== verification/Gql_Args.thy ===== *)
theory Gql_Args
  imports Gql_Model
begin

text \<open>
  Unmarshalling of arguments in \<open>graph/generated/generated.go\<close>: the type functions and one function
  per field that builds the map \<open>fc.Args\<close>. An error carries the path of its argument.
\<close>

type_synonym 'a unmarshalled = "(gql_error + 'a) outcome"

subsection \<open>Types\<close>

text \<open>\<open>graphql.ErrorOnPath\<close>.\<close>

definition error_on_path :: "path \<Rightarrow> 'a res \<Rightarrow> 'a unmarshalled" where
  "error_on_path p x =
     (case x of Ok v \<Rightarrow> Value (Inr v) | Err f \<Rightarrow> Value (Inl (p, f)) | Panic q \<Rightarrow> Panics q)"

text \<open>The shape of the functions for types without \<open>!\<close>: nil stays nil.\<close>

definition nullable :: "(path \<Rightarrow> gval \<Rightarrow> 'a unmarshalled) \<Rightarrow> path \<Rightarrow> gval \<Rightarrow> 'a option unmarshalled" where
  "nullable unmarshal p v =
     (if v = VNil then Value (Inr None)
      else case unmarshal p v of
        Panics q \<Rightarrow> Panics q
      | Value (Inl x) \<Rightarrow> Value (Inl x)
      | Value (Inr y) \<Rightarrow> Value (Inr (Some y)))"

definition unmarshalNBoolean2bool :: "'sel gql \<Rightarrow> path \<Rightarrow> gval \<Rightarrow> bool unmarshalled" where
  "unmarshalNBoolean2bool G p v = error_on_path p (UnmarshalBoolean G v)"

definition unmarshalNID2string :: "'sel gql \<Rightarrow> path \<Rightarrow> gval \<Rightarrow> string unmarshalled" where
  "unmarshalNID2string G p v = error_on_path p (UnmarshalID G v)"

definition unmarshalNString2string :: "'sel gql \<Rightarrow> path \<Rightarrow> gval \<Rightarrow> string unmarshalled" where
  "unmarshalNString2string G p v = error_on_path p (UnmarshalString G v)"

definition unmarshalOInt2int :: "'sel gql \<Rightarrow> path \<Rightarrow> gval \<Rightarrow> go_int option unmarshalled" where
  "unmarshalOInt2int G = nullable (\<lambda>p v. error_on_path p (UnmarshalInt G v))"

definition unmarshalOString2string :: "'sel gql \<Rightarrow> path \<Rightarrow> gval \<Rightarrow> string option unmarshalled" where
  "unmarshalOString2string G = nullable (\<lambda>p v. error_on_path p (UnmarshalString G v))"

definition unmarshalOBoolean2bool :: "'sel gql \<Rightarrow> path \<Rightarrow> gval \<Rightarrow> bool unmarshalled" where
  "unmarshalOBoolean2bool G p v = error_on_path p (UnmarshalBoolean G v)"

definition unmarshalOBoolean2bool_ptr :: "'sel gql \<Rightarrow> path \<Rightarrow> gval \<Rightarrow> bool option unmarshalled" where
  "unmarshalOBoolean2bool_ptr G = nullable (\<lambda>p v. error_on_path p (UnmarshalBoolean G v))"

definition unmarshalNDirectiveLocation2string :: "'sel gql \<Rightarrow> path \<Rightarrow> gval \<Rightarrow> string unmarshalled" where
  "unmarshalNDirectiveLocation2string G p v = error_on_path p (UnmarshalString G v)"

definition unmarshalNTypeKind2string :: "'sel gql \<Rightarrow> path \<Rightarrow> gval \<Rightarrow> string unmarshalled" where
  "unmarshalNTypeKind2string G p v = error_on_path p (UnmarshalString G v)"

text \<open>A list, element by element; the first error ends it.\<close>

primrec unmarshal_elements ::
  "(path \<Rightarrow> gval \<Rightarrow> 'a unmarshalled) \<Rightarrow> path \<Rightarrow> nat \<Rightarrow> gval list \<Rightarrow> 'a list unmarshalled" where
  "unmarshal_elements unmarshal p i [] = Value (Inr [])"
| "unmarshal_elements unmarshal p i (v # vs) =
     (case unmarshal (p @ [PathIndex i]) v of
        Panics q \<Rightarrow> Panics q
      | Value (Inl err) \<Rightarrow> Value (Inl err)
      | Value (Inr x) \<Rightarrow>
          (case unmarshal_elements unmarshal p (Suc i) vs of
             Panics q \<Rightarrow> Panics q
           | Value (Inl err) \<Rightarrow> Value (Inl err)
           | Value (Inr xs) \<Rightarrow> Value (Inr (x # xs))))"

definition unmarshalNDirectiveLocation2list :: "'sel gql \<Rightarrow> path \<Rightarrow> gval \<Rightarrow> string list unmarshalled" where
  "unmarshalNDirectiveLocation2list G p v =
     unmarshal_elements (unmarshalNDirectiveLocation2string G) p 0 (if v = VNil then [] else CoerceList G v)"

subsection \<open>Single arguments\<close>

text \<open>An argument that is not given has the zero value; one that is given is unmarshalled on its own path.\<close>

definition field_arg ::
  "(path \<Rightarrow> gval \<Rightarrow> 'a unmarshalled) \<Rightarrow> 'a \<Rightarrow> string \<Rightarrow> path \<Rightarrow> (string \<Rightarrow> gval option) \<Rightarrow> 'a unmarshalled" where
  "field_arg unmarshal zero name p rawArgs =
     (case rawArgs name of
        None \<Rightarrow> Value (Inr zero)
      | Some tmp \<Rightarrow> unmarshal (p @ [PathName name]) tmp)"

definition field_Mutation_createUser_argsName where
  "field_Mutation_createUser_argsName G = field_arg (unmarshalNString2string G) [] ''name''"

definition field_Mutation_createUser_argsEmail where
  "field_Mutation_createUser_argsEmail G = field_arg (unmarshalNString2string G) [] ''email''"

definition field_Mutation_deleteUser_argsID where
  "field_Mutation_deleteUser_argsID G = field_arg (unmarshalNID2string G) [] ''id''"

definition field_Mutation_updateUser_argsID where
  "field_Mutation_updateUser_argsID G = field_arg (unmarshalNID2string G) [] ''id''"

definition field_Mutation_updateUser_argsName where
  "field_Mutation_updateUser_argsName G = field_arg (unmarshalOString2string G) None ''name''"

definition field_Mutation_updateUser_argsEmail where
  "field_Mutation_updateUser_argsEmail G = field_arg (unmarshalOString2string G) None ''email''"

definition field_Query_user_argsID where
  "field_Query_user_argsID G = field_arg (unmarshalNID2string G) [] ''id''"

definition field_Query_users_argsPage where
  "field_Query_users_argsPage G = field_arg (unmarshalOInt2int G) None ''page''"

definition field_Query_users_argsPageSize where
  "field_Query_users_argsPageSize G = field_arg (unmarshalOInt2int G) None ''pageSize''"

definition field_Query_meta_type_argsName where
  "field_Query_meta_type_argsName G = field_arg (unmarshalNString2string G) [] ''name''"

definition field_meta_Type_enumValues_argsIncludeDeprecated where
  "field_meta_Type_enumValues_argsIncludeDeprecated G =
     field_arg (unmarshalOBoolean2bool G) False ''includeDeprecated''"

definition field_meta_Type_fields_argsIncludeDeprecated where
  "field_meta_Type_fields_argsIncludeDeprecated G =
     field_arg (unmarshalOBoolean2bool G) False ''includeDeprecated''"

subsection \<open>The argument maps\<close>

text \<open>An argument that fails ends the function with its error; the next ones are not looked at.\<close>

definition put_arg ::
  "string \<Rightarrow> ('a \<Rightarrow> dyn) \<Rightarrow> 'a unmarshalled \<Rightarrow> (string \<Rightarrow> dyn option) unmarshalled \<Rightarrow>
   (string \<Rightarrow> dyn option) unmarshalled" where
  "put_arg name wrap x rest =
     (case x of
        Panics q \<Rightarrow> Panics q
      | Value (Inl err) \<Rightarrow> Value (Inl err)
      | Value (Inr v) \<Rightarrow>
          (case rest of
             Panics q \<Rightarrow> Panics q
           | Value (Inl err) \<Rightarrow> Value (Inl err)
           | Value (Inr args) \<Rightarrow> Value (Inr (args(name \<mapsto> wrap v)))))"

abbreviation no_args :: "(string \<Rightarrow> dyn option) unmarshalled" where
  "no_args \<equiv> Value (Inr (\<lambda>k. None))"

definition field_Mutation_createUser_args where
  "field_Mutation_createUser_args G p rawArgs =
     put_arg ''name'' DString (field_Mutation_createUser_argsName G p rawArgs)
       (put_arg ''email'' DString (field_Mutation_createUser_argsEmail G p rawArgs) no_args)"

definition field_Mutation_deleteUser_args where
  "field_Mutation_deleteUser_args G p rawArgs =
     put_arg ''id'' DString (field_Mutation_deleteUser_argsID G p rawArgs) no_args"

definition field_Mutation_updateUser_args where
  "field_Mutation_updateUser_args G p rawArgs =
     put_arg ''id'' DString (field_Mutation_updateUser_argsID G p rawArgs)
       (put_arg ''name'' DStringPtr (field_Mutation_updateUser_argsName G p rawArgs)
         (put_arg ''email'' DStringPtr (field_Mutation_updateUser_argsEmail G p rawArgs) no_args))"

definition field_Query_user_args where
  "field_Query_user_args G p rawArgs =
     put_arg ''id'' DString (field_Query_user_argsID G p rawArgs) no_args"

definition field_Query_users_args where
  "field_Query_users_args G p rawArgs =
     put_arg ''page'' DIntPtr (field_Query_users_argsPage G p rawArgs)
       (put_arg ''pageSize'' DIntPtr (field_Query_users_argsPageSize G p rawArgs) no_args)"

definition field_Query_meta_type_args where
  "field_Query_meta_type_args G p rawArgs =
     put_arg ''name'' DString (field_Query_meta_type_argsName G p rawArgs) no_args"

definition field_meta_Type_enumValues_args where
  "field_meta_Type_enumValues_args G p rawArgs =
     put_arg ''includeDeprecated'' DBool (field_meta_Type_enumValues_argsIncludeDeprecated G p rawArgs) no_args"

definition field_meta_Type_fields_args where
  "field_meta_Type_fields_args G p rawArgs =
     put_arg ''includeDeprecated'' DBool (field_meta_Type_fields_argsIncludeDeprecated G p rawArgs) no_args"

text \<open>
  The context of a field with arguments: they are unmarshalled on the field's path; an error or a panic
  there is recorded, and ends the field.
\<close>

definition args_field_context ::
  "'sel gql \<Rightarrow> string \<Rightarrow> bool \<Rightarrow> children \<Rightarrow>
   (path \<Rightarrow> (string \<Rightarrow> gval option) \<Rightarrow> (string \<Rightarrow> dyn option) unmarshalled) \<Rightarrow>
   path \<Rightarrow> 'sel gfield \<Rightarrow> 's exec \<Rightarrow> 's exec \<times> (gql_error + 'sel field_context)" where
  "args_field_context G object resolver child args p f t =
     (case args (field_path p f) (ArgumentMap f) of
        Panics q \<Rightarrow>
          (ec_Error (field_path p f) (RecoverFunc G q) t, Inl (field_path p f, RecoverFunc G q))
      | Value (Inl err) \<Rightarrow> (add_error err t, Inl err)
      | Value (Inr a) \<Rightarrow> (t, Inr (FieldContext object f True resolver child a)))"

subsection \<open>Reading the map back\<close>

text \<open>The type assertions \<open>args["name"].(string)\<close>, \<open>.(*string)\<close>, \<open>.(*int)\<close> and \<open>.(bool)\<close>, which panic on anything else.\<close>

definition assertion_failed :: "'a res" where
  "assertion_failed = Panic ''interface conversion''"

definition as_string :: "(string \<Rightarrow> dyn option) \<Rightarrow> string \<Rightarrow> string res" where
  "as_string args name = (case args name of Some (DString s) \<Rightarrow> Ok s | _ \<Rightarrow> assertion_failed)"

definition as_string_ptr :: "(string \<Rightarrow> dyn option) \<Rightarrow> string \<Rightarrow> string option res" where
  "as_string_ptr args name = (case args name of Some (DStringPtr s) \<Rightarrow> Ok s | _ \<Rightarrow> assertion_failed)"

definition as_int_ptr :: "(string \<Rightarrow> dyn option) \<Rightarrow> string \<Rightarrow> go_int option res" where
  "as_int_ptr args name = (case args name of Some (DIntPtr n) \<Rightarrow> Ok n | _ \<Rightarrow> assertion_failed)"

definition as_bool :: "(string \<Rightarrow> dyn option) \<Rightarrow> string \<Rightarrow> bool res" where
  "as_bool args name = (case args name of Some (DBool b) \<Rightarrow> Ok b | _ \<Rightarrow> assertion_failed)"

primrec bind_res :: "'a res \<Rightarrow> ('a \<Rightarrow> 'b res) \<Rightarrow> 'b res" where
  "bind_res (Ok x) k = k x"
| "bind_res (Err e) k = Err e"
| "bind_res (Panic q) k = Panic q"

text \<open>An argument map that was built holds every argument at its type: the assertions cannot fail.\<close>

lemma put_arg_Inr:
  assumes "put_arg name wrap x rest = Value (Inr args)"
  obtains v rest' where "x = Value (Inr v)" "rest = Value (Inr rest')" "args = rest'(name \<mapsto> wrap v)"
  using assms by (auto simp: put_arg_def split: outcome.splits sum.splits)

lemma createUser_args:
  assumes "field_Mutation_createUser_args G p raw = Value (Inr args)"
  obtains n m where "args = [''email'' \<mapsto> DString m, ''name'' \<mapsto> DString n]"
    "as_string args ''name'' = Ok n" "as_string args ''email'' = Ok m"
    "field_Mutation_createUser_argsName G p raw = Value (Inr n)"
    "field_Mutation_createUser_argsEmail G p raw = Value (Inr m)"
  using assms unfolding field_Mutation_createUser_args_def
  by (auto elim!: put_arg_Inr simp: as_string_def)

lemma deleteUser_args:
  assumes "field_Mutation_deleteUser_args G p raw = Value (Inr args)"
  obtains i where "as_string args ''id'' = Ok i"
    "field_Mutation_deleteUser_argsID G p raw = Value (Inr i)"
  using assms unfolding field_Mutation_deleteUser_args_def
  by (auto elim!: put_arg_Inr simp: as_string_def)

lemma updateUser_args:
  assumes "field_Mutation_updateUser_args G p raw = Value (Inr args)"
  obtains i n m where "as_string args ''id'' = Ok i" "as_string_ptr args ''name'' = Ok n"
    "as_string_ptr args ''email'' = Ok m"
    "field_Mutation_updateUser_argsID G p raw = Value (Inr i)"
    "field_Mutation_updateUser_argsName G p raw = Value (Inr n)"
    "field_Mutation_updateUser_argsEmail G p raw = Value (Inr m)"
  using assms unfolding field_Mutation_updateUser_args_def
  by (auto elim!: put_arg_Inr simp: as_string_def as_string_ptr_def)

lemma user_args:
  assumes "field_Query_user_args G p raw = Value (Inr args)"
  obtains i where "as_string args ''id'' = Ok i" "field_Query_user_argsID G p raw = Value (Inr i)"
  using assms unfolding field_Query_user_args_def
  by (auto elim!: put_arg_Inr simp: as_string_def)

lemma users_args:
  assumes "field_Query_users_args G p raw = Value (Inr args)"
  obtains n m where "as_int_ptr args ''page'' = Ok n" "as_int_ptr args ''pageSize'' = Ok m"
    "field_Query_users_argsPage G p raw = Value (Inr n)"
    "field_Query_users_argsPageSize G p raw = Value (Inr m)"
  using assms unfolding field_Query_users_args_def
  by (auto elim!: put_arg_Inr simp: as_int_ptr_def)

end
