(* ===== verification/Gql_Meta.thy ===== *)
theory Gql_Meta
  imports Gql_Args
begin

text \<open>
  The introspection part of \<open>graph/generated/generated.go\<close>: one definition per field function, field
  context, object function and type function of the types \<open>__Schema\<close>, \<open>__Type\<close>, \<open>__Field\<close>, \<open>__InputValue\<close>,
  \<open>__EnumValue\<close> and \<open>__Directive\<close>, and the two fields of \<open>Query\<close> that reach them. A name's \<open>__\<close> is
  written \<open>meta_\<close>.
\<close>

subsection \<open>The package \<open>introspection\<close>\<close>

text \<open>
  The structs of gqlgen's package \<open>introspection\<close> as the code reads them; a method without arguments is
  one more field. Of \<open>Type\<close> and \<open>Schema\<close> only the methods are known, and they may panic. A slice that may
  be nil is an option.
\<close>

record 'ty input_value =
  iv_Name :: string
  iv_Description :: "string option"
  iv_Type :: "'ty option"
  iv_DefaultValue :: "string option"

record enum_value =
  ev_Name :: string
  ev_Description :: "string option"
  ev_IsDeprecated :: bool
  ev_DeprecationReason :: "string option"

record 'ty meta_fld =
  mf_Name :: string
  mf_Description :: "string option"
  mf_Args :: "'ty input_value list"
  mf_Type :: "'ty option"
  mf_IsDeprecated :: bool
  mf_DeprecationReason :: "string option"

record 'ty directive =
  dr_Name :: string
  dr_Description :: "string option"
  dr_Locations :: "string list"
  dr_Args :: "'ty input_value list"
  dr_IsRepeatable :: bool

text \<open>
  \<open>DisableIntrospection\<close> is the operation context's; \<open>WrapSchema\<close> and \<open>WrapTypeFromDef\<close> are taken at the
  executor's schema, where a name may have no type.
\<close>

record ('ty, 'sc) introspection =
  DisableIntrospection :: bool
  WrapSchema :: 'sc
  WrapTypeFromDef :: "string \<Rightarrow> 'ty option"
  sc_Description :: "'sc \<Rightarrow> string option outcome"
  sc_Types :: "'sc \<Rightarrow> 'ty list outcome"
  sc_QueryType :: "'sc \<Rightarrow> 'ty option outcome"
  sc_MutationType :: "'sc \<Rightarrow> 'ty option outcome"
  sc_SubscriptionType :: "'sc \<Rightarrow> 'ty option outcome"
  sc_Directives :: "'sc \<Rightarrow> 'ty directive list outcome"
  ty_Kind :: "'ty \<Rightarrow> string outcome"
  ty_Name :: "'ty \<Rightarrow> string option outcome"
  ty_Description :: "'ty \<Rightarrow> string option outcome"
  ty_Fields :: "'ty \<Rightarrow> bool \<Rightarrow> 'ty meta_fld list option outcome"
  ty_Interfaces :: "'ty \<Rightarrow> 'ty list option outcome"
  ty_PossibleTypes :: "'ty \<Rightarrow> 'ty list option outcome"
  ty_EnumValues :: "'ty \<Rightarrow> bool \<Rightarrow> enum_value list option outcome"
  ty_InputFields :: "'ty \<Rightarrow> 'ty input_value list option outcome"
  ty_OfType :: "'ty \<Rightarrow> 'ty option outcome"
  ty_SpecifiedByURL :: "'ty \<Rightarrow> string option outcome"

subsection \<open>Field contexts\<close>

definition meta_context :: "string \<Rightarrow> bool \<Rightarrow> children \<Rightarrow> 'sel gfield \<Rightarrow> 'sel field_context" where
  "meta_context object method child f = FieldContext object f method False child (\<lambda>k. None)"

definition fieldContext_meta_Directive_name :: "'sel gfield \<Rightarrow> 'sel field_context" where
  "fieldContext_meta_Directive_name = meta_context ''__Directive'' False (NoChildren ''String'')"

definition fieldContext_meta_Directive_description :: "'sel gfield \<Rightarrow> 'sel field_context" where
  "fieldContext_meta_Directive_description = meta_context ''__Directive'' True (NoChildren ''String'')"

definition fieldContext_meta_Directive_locations :: "'sel gfield \<Rightarrow> 'sel field_context" where
  "fieldContext_meta_Directive_locations = meta_context ''__Directive'' False (NoChildren ''__DirectiveLocation'')"

definition fieldContext_meta_Directive_args :: "'sel gfield \<Rightarrow> 'sel field_context" where
  "fieldContext_meta_Directive_args = meta_context ''__Directive'' False (ChildrenOf ''__InputValue'')"

definition fieldContext_meta_Directive_isRepeatable :: "'sel gfield \<Rightarrow> 'sel field_context" where
  "fieldContext_meta_Directive_isRepeatable = meta_context ''__Directive'' False (NoChildren ''Boolean'')"

definition fieldContext_meta_EnumValue_name :: "'sel gfield \<Rightarrow> 'sel field_context" where
  "fieldContext_meta_EnumValue_name = meta_context ''__EnumValue'' False (NoChildren ''String'')"

definition fieldContext_meta_EnumValue_description :: "'sel gfield \<Rightarrow> 'sel field_context" where
  "fieldContext_meta_EnumValue_description = meta_context ''__EnumValue'' True (NoChildren ''String'')"

definition fieldContext_meta_EnumValue_isDeprecated :: "'sel gfield \<Rightarrow> 'sel field_context" where
  "fieldContext_meta_EnumValue_isDeprecated = meta_context ''__EnumValue'' True (NoChildren ''Boolean'')"

definition fieldContext_meta_EnumValue_deprecationReason :: "'sel gfield \<Rightarrow> 'sel field_context" where
  "fieldContext_meta_EnumValue_deprecationReason = meta_context ''__EnumValue'' True (NoChildren ''String'')"

definition fieldContext_meta_Field_name :: "'sel gfield \<Rightarrow> 'sel field_context" where
  "fieldContext_meta_Field_name = meta_context ''__Field'' False (NoChildren ''String'')"

definition fieldContext_meta_Field_description :: "'sel gfield \<Rightarrow> 'sel field_context" where
  "fieldContext_meta_Field_description = meta_context ''__Field'' True (NoChildren ''String'')"

definition fieldContext_meta_Field_args :: "'sel gfield \<Rightarrow> 'sel field_context" where
  "fieldContext_meta_Field_args = meta_context ''__Field'' False (ChildrenOf ''__InputValue'')"

definition fieldContext_meta_Field_type :: "'sel gfield \<Rightarrow> 'sel field_context" where
  "fieldContext_meta_Field_type = meta_context ''__Field'' False (ChildrenOf ''__Type'')"

definition fieldContext_meta_Field_isDeprecated :: "'sel gfield \<Rightarrow> 'sel field_context" where
  "fieldContext_meta_Field_isDeprecated = meta_context ''__Field'' True (NoChildren ''Boolean'')"

definition fieldContext_meta_Field_deprecationReason :: "'sel gfield \<Rightarrow> 'sel field_context" where
  "fieldContext_meta_Field_deprecationReason = meta_context ''__Field'' True (NoChildren ''String'')"

definition fieldContext_meta_InputValue_name :: "'sel gfield \<Rightarrow> 'sel field_context" where
  "fieldContext_meta_InputValue_name = meta_context ''__InputValue'' False (NoChildren ''String'')"

definition fieldContext_meta_InputValue_description :: "'sel gfield \<Rightarrow> 'sel field_context" where
  "fieldContext_meta_InputValue_description = meta_context ''__InputValue'' True (NoChildren ''String'')"

definition fieldContext_meta_InputValue_type :: "'sel gfield \<Rightarrow> 'sel field_context" where
  "fieldContext_meta_InputValue_type = meta_context ''__InputValue'' False (ChildrenOf ''__Type'')"

definition fieldContext_meta_InputValue_defaultValue :: "'sel gfield \<Rightarrow> 'sel field_context" where
  "fieldContext_meta_InputValue_defaultValue = meta_context ''__InputValue'' False (NoChildren ''String'')"

definition fieldContext_meta_Schema_description :: "'sel gfield \<Rightarrow> 'sel field_context" where
  "fieldContext_meta_Schema_description = meta_context ''__Schema'' True (NoChildren ''String'')"

definition fieldContext_meta_Schema_types :: "'sel gfield \<Rightarrow> 'sel field_context" where
  "fieldContext_meta_Schema_types = meta_context ''__Schema'' True (ChildrenOf ''__Type'')"

definition fieldContext_meta_Schema_queryType :: "'sel gfield \<Rightarrow> 'sel field_context" where
  "fieldContext_meta_Schema_queryType = meta_context ''__Schema'' True (ChildrenOf ''__Type'')"

definition fieldContext_meta_Schema_mutationType :: "'sel gfield \<Rightarrow> 'sel field_context" where
  "fieldContext_meta_Schema_mutationType = meta_context ''__Schema'' True (ChildrenOf ''__Type'')"

definition fieldContext_meta_Schema_subscriptionType :: "'sel gfield \<Rightarrow> 'sel field_context" where
  "fieldContext_meta_Schema_subscriptionType = meta_context ''__Schema'' True (ChildrenOf ''__Type'')"

definition fieldContext_meta_Schema_directives :: "'sel gfield \<Rightarrow> 'sel field_context" where
  "fieldContext_meta_Schema_directives = meta_context ''__Schema'' True (ChildrenOf ''__Directive'')"

definition fieldContext_meta_Type_kind :: "'sel gfield \<Rightarrow> 'sel field_context" where
  "fieldContext_meta_Type_kind = meta_context ''__Type'' True (NoChildren ''__TypeKind'')"

definition fieldContext_meta_Type_name :: "'sel gfield \<Rightarrow> 'sel field_context" where
  "fieldContext_meta_Type_name = meta_context ''__Type'' True (NoChildren ''String'')"

definition fieldContext_meta_Type_description :: "'sel gfield \<Rightarrow> 'sel field_context" where
  "fieldContext_meta_Type_description = meta_context ''__Type'' True (NoChildren ''String'')"

definition fieldContext_meta_Type_fields where
  "fieldContext_meta_Type_fields G =
     args_field_context G ''__Type'' False (ChildrenOf ''__Field'') (field_meta_Type_fields_args G)"

definition fieldContext_meta_Type_interfaces :: "'sel gfield \<Rightarrow> 'sel field_context" where
  "fieldContext_meta_Type_interfaces = meta_context ''__Type'' True (ChildrenOf ''__Type'')"

definition fieldContext_meta_Type_possibleTypes :: "'sel gfield \<Rightarrow> 'sel field_context" where
  "fieldContext_meta_Type_possibleTypes = meta_context ''__Type'' True (ChildrenOf ''__Type'')"

definition fieldContext_meta_Type_enumValues where
  "fieldContext_meta_Type_enumValues G =
     args_field_context G ''__Type'' False (ChildrenOf ''__EnumValue'') (field_meta_Type_enumValues_args G)"

definition fieldContext_meta_Type_inputFields :: "'sel gfield \<Rightarrow> 'sel field_context" where
  "fieldContext_meta_Type_inputFields = meta_context ''__Type'' True (ChildrenOf ''__InputValue'')"

definition fieldContext_meta_Type_ofType :: "'sel gfield \<Rightarrow> 'sel field_context" where
  "fieldContext_meta_Type_ofType = meta_context ''__Type'' True (ChildrenOf ''__Type'')"

definition fieldContext_meta_Type_specifiedByURL :: "'sel gfield \<Rightarrow> 'sel field_context" where
  "fieldContext_meta_Type_specifiedByURL = meta_context ''__Type'' True (NoChildren ''String'')"

text \<open>The two introspection fields of \<open>Query\<close>.\<close>

definition fieldContext_Query_meta_type where
  "fieldContext_Query_meta_type G =
     args_field_context G ''Query'' False (ChildrenOf ''__Type'') (field_Query_meta_type_args G)"

definition fieldContext_Query_meta_schema :: "'sel gfield \<Rightarrow> 'sel field_context" where
  "fieldContext_Query_meta_schema = meta_context ''Query'' True (ChildrenOf ''__Schema'')"

text \<open>The switches that the closures \<open>Child\<close> make.\<close>

definition no_field :: "string \<Rightarrow> 'sel gfield \<Rightarrow> 's exec \<Rightarrow> 's exec \<times> (gql_error + 'sel field_context)" where
  "no_field ty f t =
     (t, Inl ([], ErrorNew (''no field named '' @ quoted (fld_Name f) @ '' was found under type '' @ ty)))"

definition meta_Directive_children where
  "meta_Directive_children f t =
     (if fld_Name f = ''name'' then (t, Inr (fieldContext_meta_Directive_name f))
      else if fld_Name f = ''description'' then (t, Inr (fieldContext_meta_Directive_description f))
      else if fld_Name f = ''locations'' then (t, Inr (fieldContext_meta_Directive_locations f))
      else if fld_Name f = ''args'' then (t, Inr (fieldContext_meta_Directive_args f))
      else if fld_Name f = ''isRepeatable'' then (t, Inr (fieldContext_meta_Directive_isRepeatable f))
      else no_field ''__Directive'' f t)"

definition meta_EnumValue_children where
  "meta_EnumValue_children f t =
     (if fld_Name f = ''name'' then (t, Inr (fieldContext_meta_EnumValue_name f))
      else if fld_Name f = ''description'' then (t, Inr (fieldContext_meta_EnumValue_description f))
      else if fld_Name f = ''isDeprecated'' then (t, Inr (fieldContext_meta_EnumValue_isDeprecated f))
      else if fld_Name f = ''deprecationReason'' then (t, Inr (fieldContext_meta_EnumValue_deprecationReason f))
      else no_field ''__EnumValue'' f t)"

definition meta_Field_children where
  "meta_Field_children f t =
     (if fld_Name f = ''name'' then (t, Inr (fieldContext_meta_Field_name f))
      else if fld_Name f = ''description'' then (t, Inr (fieldContext_meta_Field_description f))
      else if fld_Name f = ''args'' then (t, Inr (fieldContext_meta_Field_args f))
      else if fld_Name f = ''type'' then (t, Inr (fieldContext_meta_Field_type f))
      else if fld_Name f = ''isDeprecated'' then (t, Inr (fieldContext_meta_Field_isDeprecated f))
      else if fld_Name f = ''deprecationReason'' then (t, Inr (fieldContext_meta_Field_deprecationReason f))
      else no_field ''__Field'' f t)"

definition meta_InputValue_children where
  "meta_InputValue_children f t =
     (if fld_Name f = ''name'' then (t, Inr (fieldContext_meta_InputValue_name f))
      else if fld_Name f = ''description'' then (t, Inr (fieldContext_meta_InputValue_description f))
      else if fld_Name f = ''type'' then (t, Inr (fieldContext_meta_InputValue_type f))
      else if fld_Name f = ''defaultValue'' then (t, Inr (fieldContext_meta_InputValue_defaultValue f))
      else no_field ''__InputValue'' f t)"

definition meta_Schema_children where
  "meta_Schema_children f t =
     (if fld_Name f = ''description'' then (t, Inr (fieldContext_meta_Schema_description f))
      else if fld_Name f = ''types'' then (t, Inr (fieldContext_meta_Schema_types f))
      else if fld_Name f = ''queryType'' then (t, Inr (fieldContext_meta_Schema_queryType f))
      else if fld_Name f = ''mutationType'' then (t, Inr (fieldContext_meta_Schema_mutationType f))
      else if fld_Name f = ''subscriptionType'' then (t, Inr (fieldContext_meta_Schema_subscriptionType f))
      else if fld_Name f = ''directives'' then (t, Inr (fieldContext_meta_Schema_directives f))
      else no_field ''__Schema'' f t)"

definition meta_Type_children where
  "meta_Type_children G p f t =
     (if fld_Name f = ''kind'' then (t, Inr (fieldContext_meta_Type_kind f))
      else if fld_Name f = ''name'' then (t, Inr (fieldContext_meta_Type_name f))
      else if fld_Name f = ''description'' then (t, Inr (fieldContext_meta_Type_description f))
      else if fld_Name f = ''fields'' then fieldContext_meta_Type_fields G p f t
      else if fld_Name f = ''interfaces'' then (t, Inr (fieldContext_meta_Type_interfaces f))
      else if fld_Name f = ''possibleTypes'' then (t, Inr (fieldContext_meta_Type_possibleTypes f))
      else if fld_Name f = ''enumValues'' then fieldContext_meta_Type_enumValues G p f t
      else if fld_Name f = ''inputFields'' then (t, Inr (fieldContext_meta_Type_inputFields f))
      else if fld_Name f = ''ofType'' then (t, Inr (fieldContext_meta_Type_ofType f))
      else if fld_Name f = ''specifiedByURL'' then (t, Inr (fieldContext_meta_Type_specifiedByURL f))
      else no_field ''__Type'' f t)"

subsection \<open>Marshal functions\<close>

text \<open>
  An object function that a field calls runs on the field's own selection set: \<open>d\<close> stands for the object
  functions there, and is tied to them at the end.
\<close>

datatype ('ty, 'sc) node =
    DirectiveNode "'ty directive"
  | EnumValueNode enum_value
  | FieldNode "'ty meta_fld"
  | InputValueNode "'ty input_value"
  | SchemaNode 'sc
  | TypeNode 'ty

type_synonym ('sel, 'ty, 'sc, 's) objects =
  "path \<Rightarrow> 'sel \<Rightarrow> ('ty, 'sc) node \<Rightarrow> 's exec \<Rightarrow> 's exec \<times> marshaler outcome"

definition marshalNmeta_Directive2Directive where
  "marshalNmeta_Directive2Directive d p sel t v = d p sel (DirectiveNode v) t"

definition marshalNmeta_EnumValue2EnumValue where
  "marshalNmeta_EnumValue2EnumValue d p sel t v = d p sel (EnumValueNode v) t"

definition marshalNmeta_Field2Field where
  "marshalNmeta_Field2Field d p sel t v = d p sel (FieldNode v) t"

definition marshalNmeta_InputValue2InputValue where
  "marshalNmeta_InputValue2InputValue d p sel t v = d p sel (InputValueNode v) t"

definition marshalNmeta_Type2Type where
  "marshalNmeta_Type2Type d p sel t v = d p sel (TypeNode v) t"

definition marshalNmeta_Directive2list where
  "marshalNmeta_Directive2list G d p sel = marshal_list G p (\<lambda>q. marshalNmeta_Directive2Directive d q sel)"

definition marshalNmeta_InputValue2list where
  "marshalNmeta_InputValue2list G d p sel = marshal_list G p (\<lambda>q. marshalNmeta_InputValue2InputValue d q sel)"

definition marshalNmeta_Type2list where
  "marshalNmeta_Type2list G d p sel = marshal_list G p (\<lambda>q. marshalNmeta_Type2Type d q sel)"

definition marshalOmeta_EnumValue2list where
  "marshalOmeta_EnumValue2list G d p sel = marshal_nil_list G p (\<lambda>q. marshalNmeta_EnumValue2EnumValue d q sel)"

definition marshalOmeta_Field2list where
  "marshalOmeta_Field2list G d p sel = marshal_nil_list G p (\<lambda>q. marshalNmeta_Field2Field d q sel)"

definition marshalOmeta_InputValue2list where
  "marshalOmeta_InputValue2list G d p sel = marshal_nil_list G p (\<lambda>q. marshalNmeta_InputValue2InputValue d q sel)"

definition marshalOmeta_Type2list where
  "marshalOmeta_Type2list G d p sel = marshal_nil_list G p (\<lambda>q. marshalNmeta_Type2Type d q sel)"

definition marshalNDirectiveLocation2list where
  "marshalNDirectiveLocation2list G p = marshal_list G p (marshalNDirectiveLocation2string G)"

definition marshalNmeta_Type2Type_ptr where
  "marshalNmeta_Type2Type_ptr G d p sel t v =
     (case v of
        None \<Rightarrow> (null_error G p ''the requested element is null which the schema does not allow'' t, Value Null)
      | Some ty \<Rightarrow> d p sel (TypeNode ty) t)"

definition marshalOmeta_Type2Type_ptr where
  "marshalOmeta_Type2Type_ptr d p sel t v =
     (case v of None \<Rightarrow> (t, Value Null) | Some x \<Rightarrow> d p sel (TypeNode x) t)"

definition marshalOmeta_Schema2Schema_ptr where
  "marshalOmeta_Schema2Schema_ptr d p sel t v =
     (case v of None \<Rightarrow> (t, Value Null) | Some x \<Rightarrow> d p sel (SchemaNode x) t)"

subsection \<open>Field functions\<close>

text \<open>
  \<open>ResolverMiddleware\<close> puts the value into an \<open>interface{}\<close> of its static type, which is not the nil
  interface even where it holds a nil pointer or slice.
\<close>

primrec as_res :: "'a outcome \<Rightarrow> 'a res" where
  "as_res (Value v) = Ok v"
| "as_res (Panics q) = Panic q"

definition meta_field ::
  "'sel gql \<Rightarrow> bool \<Rightarrow> (path \<Rightarrow> 's exec \<Rightarrow> 'v \<Rightarrow> 's exec \<times> marshaler outcome) \<Rightarrow> path \<Rightarrow> 'v res \<Rightarrow> 'sel gfield \<Rightarrow>
   's exec \<Rightarrow> 's exec \<times> marshaler" where
  "meta_field G nonnull marshal p v f t =
     (let q = field_path p f in
      recovering G q (resolved_as G (\<lambda>v. False) nonnull q (marshal q) (t, v)))"

definition meta_Directive_name where
  "meta_Directive_name G p obj f t =
     meta_field G True (marshalNString2string G) p (Ok (dr_Name obj)) f t"

definition meta_Directive_description where
  "meta_Directive_description G p obj f t =
     meta_field G False (\<lambda>q. marshalOString2string) p (Ok (dr_Description obj)) f t"

definition meta_Directive_locations where
  "meta_Directive_locations G p obj f t =
     meta_field G True (marshalNDirectiveLocation2list G) p (Ok (dr_Locations obj)) f t"

definition meta_Directive_args where
  "meta_Directive_args G d p obj f t =
     meta_field G True (\<lambda>q. marshalNmeta_InputValue2list G d q (Selections f)) p (Ok (dr_Args obj)) f t"

definition meta_Directive_isRepeatable where
  "meta_Directive_isRepeatable G p obj f t =
     meta_field G True (marshalNBoolean2bool G) p (Ok (dr_IsRepeatable obj)) f t"

definition meta_EnumValue_name where
  "meta_EnumValue_name G p obj f t =
     meta_field G True (marshalNString2string G) p (Ok (ev_Name obj)) f t"

definition meta_EnumValue_description where
  "meta_EnumValue_description G p obj f t =
     meta_field G False (\<lambda>q. marshalOString2string) p (Ok (ev_Description obj)) f t"

definition meta_EnumValue_isDeprecated where
  "meta_EnumValue_isDeprecated G p obj f t =
     meta_field G True (marshalNBoolean2bool G) p (Ok (ev_IsDeprecated obj)) f t"

definition meta_EnumValue_deprecationReason where
  "meta_EnumValue_deprecationReason G p obj f t =
     meta_field G False (\<lambda>q. marshalOString2string) p (Ok (ev_DeprecationReason obj)) f t"

definition meta_Field_name where
  "meta_Field_name G p obj f t =
     meta_field G True (marshalNString2string G) p (Ok (mf_Name obj)) f t"

definition meta_Field_description where
  "meta_Field_description G p obj f t =
     meta_field G False (\<lambda>q. marshalOString2string) p (Ok (mf_Description obj)) f t"

definition meta_Field_args where
  "meta_Field_args G d p obj f t =
     meta_field G True (\<lambda>q. marshalNmeta_InputValue2list G d q (Selections f)) p (Ok (mf_Args obj)) f t"

definition meta_Field_type where
  "meta_Field_type G d p obj f t =
     meta_field G True (\<lambda>q. marshalNmeta_Type2Type_ptr G d q (Selections f)) p (Ok (mf_Type obj)) f t"

definition meta_Field_isDeprecated where
  "meta_Field_isDeprecated G p obj f t =
     meta_field G True (marshalNBoolean2bool G) p (Ok (mf_IsDeprecated obj)) f t"

definition meta_Field_deprecationReason where
  "meta_Field_deprecationReason G p obj f t =
     meta_field G False (\<lambda>q. marshalOString2string) p (Ok (mf_DeprecationReason obj)) f t"

definition meta_InputValue_name where
  "meta_InputValue_name G p obj f t =
     meta_field G True (marshalNString2string G) p (Ok (iv_Name obj)) f t"

definition meta_InputValue_description where
  "meta_InputValue_description G p obj f t =
     meta_field G False (\<lambda>q. marshalOString2string) p (Ok (iv_Description obj)) f t"

definition meta_InputValue_type where
  "meta_InputValue_type G d p obj f t =
     meta_field G True (\<lambda>q. marshalNmeta_Type2Type_ptr G d q (Selections f)) p (Ok (iv_Type obj)) f t"

definition meta_InputValue_defaultValue where
  "meta_InputValue_defaultValue G p obj f t =
     meta_field G False (\<lambda>q. marshalOString2string) p (Ok (iv_DefaultValue obj)) f t"

definition meta_Schema_description where
  "meta_Schema_description G I p obj f t =
     meta_field G False (\<lambda>q. marshalOString2string) p (as_res (sc_Description I obj)) f t"

definition meta_Schema_types where
  "meta_Schema_types G I d p obj f t =
     meta_field G True (\<lambda>q. marshalNmeta_Type2list G d q (Selections f)) p (as_res (sc_Types I obj)) f t"

definition meta_Schema_queryType where
  "meta_Schema_queryType G I d p obj f t =
     meta_field G True (\<lambda>q. marshalNmeta_Type2Type_ptr G d q (Selections f)) p (as_res (sc_QueryType I obj)) f t"

definition meta_Schema_mutationType where
  "meta_Schema_mutationType G I d p obj f t =
     meta_field G False (\<lambda>q. marshalOmeta_Type2Type_ptr d q (Selections f)) p (as_res (sc_MutationType I obj)) f t"

definition meta_Schema_subscriptionType where
  "meta_Schema_subscriptionType G I d p obj f t =
     meta_field G False (\<lambda>q. marshalOmeta_Type2Type_ptr d q (Selections f)) p (as_res (sc_SubscriptionType I obj)) f t"

definition meta_Schema_directives where
  "meta_Schema_directives G I d p obj f t =
     meta_field G True (\<lambda>q. marshalNmeta_Directive2list G d q (Selections f)) p (as_res (sc_Directives I obj)) f t"

definition meta_Type_kind where
  "meta_Type_kind G I p obj f t =
     meta_field G True (marshalNTypeKind2string G) p (as_res (ty_Kind I obj)) f t"

definition meta_Type_name where
  "meta_Type_name G I p obj f t =
     meta_field G False (\<lambda>q. marshalOString2string) p (as_res (ty_Name I obj)) f t"

definition meta_Type_description where
  "meta_Type_description G I p obj f t =
     meta_field G False (\<lambda>q. marshalOString2string) p (as_res (ty_Description I obj)) f t"

definition meta_Type_fields where
  "meta_Type_fields G I d p obj f t =
     (case fieldContext_meta_Type_fields G p f t of
        (t, Inl x) \<Rightarrow> (t, Null)
      | (t, Inr fc) \<Rightarrow>
          meta_field G False (\<lambda>q. marshalOmeta_Field2list G d q (Selections f)) p
            (bind_res (as_bool (Args fc) ''includeDeprecated'') (\<lambda>b. as_res (ty_Fields I obj b))) f t)"

definition meta_Type_interfaces where
  "meta_Type_interfaces G I d p obj f t =
     meta_field G False (\<lambda>q. marshalOmeta_Type2list G d q (Selections f)) p (as_res (ty_Interfaces I obj)) f t"

definition meta_Type_possibleTypes where
  "meta_Type_possibleTypes G I d p obj f t =
     meta_field G False (\<lambda>q. marshalOmeta_Type2list G d q (Selections f)) p (as_res (ty_PossibleTypes I obj)) f t"

definition meta_Type_enumValues where
  "meta_Type_enumValues G I d p obj f t =
     (case fieldContext_meta_Type_enumValues G p f t of
        (t, Inl x) \<Rightarrow> (t, Null)
      | (t, Inr fc) \<Rightarrow>
          meta_field G False (\<lambda>q. marshalOmeta_EnumValue2list G d q (Selections f)) p
            (bind_res (as_bool (Args fc) ''includeDeprecated'') (\<lambda>b. as_res (ty_EnumValues I obj b))) f t)"

definition meta_Type_inputFields where
  "meta_Type_inputFields G I d p obj f t =
     meta_field G False (\<lambda>q. marshalOmeta_InputValue2list G d q (Selections f)) p (as_res (ty_InputFields I obj)) f t"

definition meta_Type_ofType where
  "meta_Type_ofType G I d p obj f t =
     meta_field G False (\<lambda>q. marshalOmeta_Type2Type_ptr d q (Selections f)) p (as_res (ty_OfType I obj)) f t"

definition meta_Type_specifiedByURL where
  "meta_Type_specifiedByURL G I p obj f t =
     meta_field G False (\<lambda>q. marshalOString2string) p (as_res (ty_SpecifiedByURL I obj)) f t"

subsection \<open>Object functions\<close>

definition meta_Directive_field where
  "meta_Directive_field G d p obj (i :: nat) f t =
     (if fld_Name f = ''__typename'' then (t, Value (MarshalString ''__Directive'', False))
      else if fld_Name f = ''name'' then nonnull_field (meta_Directive_name G p obj f t)
      else if fld_Name f = ''description'' then nullable_field (meta_Directive_description G p obj f t)
      else if fld_Name f = ''locations'' then nonnull_field (meta_Directive_locations G p obj f t)
      else if fld_Name f = ''args'' then nonnull_field (meta_Directive_args G d p obj f t)
      else if fld_Name f = ''isRepeatable'' then nonnull_field (meta_Directive_isRepeatable G p obj f t)
      else unknown_field f t)"

definition meta_Directive where
  "meta_Directive G d p sel obj t =
     (let fs = CollectFields G sel [''__Directive'']
      in object_outcome fs (run_fields (meta_Directive_field G d p obj) 0 fs t))"

definition meta_EnumValue_field where
  "meta_EnumValue_field G p obj (i :: nat) f t =
     (if fld_Name f = ''__typename'' then (t, Value (MarshalString ''__EnumValue'', False))
      else if fld_Name f = ''name'' then nonnull_field (meta_EnumValue_name G p obj f t)
      else if fld_Name f = ''description'' then nullable_field (meta_EnumValue_description G p obj f t)
      else if fld_Name f = ''isDeprecated'' then nonnull_field (meta_EnumValue_isDeprecated G p obj f t)
      else if fld_Name f = ''deprecationReason'' then nullable_field (meta_EnumValue_deprecationReason G p obj f t)
      else unknown_field f t)"

definition meta_EnumValue where
  "meta_EnumValue G p sel obj t =
     (let fs = CollectFields G sel [''__EnumValue'']
      in object_outcome fs (run_fields (meta_EnumValue_field G p obj) 0 fs t))"

definition meta_Field_field where
  "meta_Field_field G d p obj (i :: nat) f t =
     (if fld_Name f = ''__typename'' then (t, Value (MarshalString ''__Field'', False))
      else if fld_Name f = ''name'' then nonnull_field (meta_Field_name G p obj f t)
      else if fld_Name f = ''description'' then nullable_field (meta_Field_description G p obj f t)
      else if fld_Name f = ''args'' then nonnull_field (meta_Field_args G d p obj f t)
      else if fld_Name f = ''type'' then nonnull_field (meta_Field_type G d p obj f t)
      else if fld_Name f = ''isDeprecated'' then nonnull_field (meta_Field_isDeprecated G p obj f t)
      else if fld_Name f = ''deprecationReason'' then nullable_field (meta_Field_deprecationReason G p obj f t)
      else unknown_field f t)"

definition meta_Field where
  "meta_Field G d p sel obj t =
     (let fs = CollectFields G sel [''__Field'']
      in object_outcome fs (run_fields (meta_Field_field G d p obj) 0 fs t))"

definition meta_InputValue_field where
  "meta_InputValue_field G d p obj (i :: nat) f t =
     (if fld_Name f = ''__typename'' then (t, Value (MarshalString ''__InputValue'', False))
      else if fld_Name f = ''name'' then nonnull_field (meta_InputValue_name G p obj f t)
      else if fld_Name f = ''description'' then nullable_field (meta_InputValue_description G p obj f t)
      else if fld_Name f = ''type'' then nonnull_field (meta_InputValue_type G d p obj f t)
      else if fld_Name f = ''defaultValue'' then nullable_field (meta_InputValue_defaultValue G p obj f t)
      else unknown_field f t)"

definition meta_InputValue where
  "meta_InputValue G d p sel obj t =
     (let fs = CollectFields G sel [''__InputValue'']
      in object_outcome fs (run_fields (meta_InputValue_field G d p obj) 0 fs t))"

definition meta_Schema_field where
  "meta_Schema_field G I d p obj (i :: nat) f t =
     (if fld_Name f = ''__typename'' then (t, Value (MarshalString ''__Schema'', False))
      else if fld_Name f = ''description'' then nullable_field (meta_Schema_description G I p obj f t)
      else if fld_Name f = ''types'' then nonnull_field (meta_Schema_types G I d p obj f t)
      else if fld_Name f = ''queryType'' then nonnull_field (meta_Schema_queryType G I d p obj f t)
      else if fld_Name f = ''mutationType'' then nullable_field (meta_Schema_mutationType G I d p obj f t)
      else if fld_Name f = ''subscriptionType'' then nullable_field (meta_Schema_subscriptionType G I d p obj f t)
      else if fld_Name f = ''directives'' then nonnull_field (meta_Schema_directives G I d p obj f t)
      else unknown_field f t)"

definition meta_Schema where
  "meta_Schema G I d p sel obj t =
     (let fs = CollectFields G sel [''__Schema'']
      in object_outcome fs (run_fields (meta_Schema_field G I d p obj) 0 fs t))"

definition meta_Type_field where
  "meta_Type_field G I d p obj (i :: nat) f t =
     (if fld_Name f = ''__typename'' then (t, Value (MarshalString ''__Type'', False))
      else if fld_Name f = ''kind'' then nonnull_field (meta_Type_kind G I p obj f t)
      else if fld_Name f = ''name'' then nullable_field (meta_Type_name G I p obj f t)
      else if fld_Name f = ''description'' then nullable_field (meta_Type_description G I p obj f t)
      else if fld_Name f = ''fields'' then nullable_field (meta_Type_fields G I d p obj f t)
      else if fld_Name f = ''interfaces'' then nullable_field (meta_Type_interfaces G I d p obj f t)
      else if fld_Name f = ''possibleTypes'' then nullable_field (meta_Type_possibleTypes G I d p obj f t)
      else if fld_Name f = ''enumValues'' then nullable_field (meta_Type_enumValues G I d p obj f t)
      else if fld_Name f = ''inputFields'' then nullable_field (meta_Type_inputFields G I d p obj f t)
      else if fld_Name f = ''ofType'' then nullable_field (meta_Type_ofType G I d p obj f t)
      else if fld_Name f = ''specifiedByURL'' then nullable_field (meta_Type_specifiedByURL G I p obj f t)
      else unknown_field f t)"

definition meta_Type where
  "meta_Type G I d p sel obj t =
     (let fs = CollectFields G sel [''__Type'']
      in object_outcome fs (run_fields (meta_Type_field G I d p obj) 0 fs t))"

text \<open>
  The object functions, with those of the selections below tied in. \<open>nesting\<close> is enough: a selection set
  is nested deeper than those below it.
\<close>

primrec meta_object ::
  "nat \<Rightarrow> 'sel gql \<Rightarrow> ('ty, 'sc) introspection \<Rightarrow> ('sel, 'ty, 'sc, 's) objects" where
  "meta_object 0 G I = (\<lambda>p sel x t. (t, Panics ''nesting''))"
| "meta_object (Suc n) G I = (\<lambda>p sel x t.
     case x of
       DirectiveNode obj \<Rightarrow> meta_Directive G (meta_object n G I) p sel obj t
     | EnumValueNode obj \<Rightarrow> meta_EnumValue G p sel obj t
     | FieldNode obj \<Rightarrow> meta_Field G (meta_object n G I) p sel obj t
     | InputValueNode obj \<Rightarrow> meta_InputValue G (meta_object n G I) p sel obj t
     | SchemaNode obj \<Rightarrow> meta_Schema G I (meta_object n G I) p sel obj t
     | TypeNode obj \<Rightarrow> meta_Type G I (meta_object n G I) p sel obj t)"

definition meta_objects :: "'sel gql \<Rightarrow> ('ty, 'sc) introspection \<Rightarrow> ('sel, 'ty, 'sc, 's) objects" where
  "meta_objects G I p sel = meta_object (Suc (nesting G sel)) G I p sel"

subsection \<open>The fields of \<open>Query\<close>\<close>

definition introspectSchema :: "('ty, 'sc) introspection \<Rightarrow> 'sc option res" where
  "introspectSchema I =
     (if DisableIntrospection I then Err (ErrorNew ''introspection disabled'')
      else Ok (Some (WrapSchema I)))"

definition introspectType :: "('ty, 'sc) introspection \<Rightarrow> string \<Rightarrow> 'ty option res" where
  "introspectType I name =
     (if DisableIntrospection I then Err (ErrorNew ''introspection disabled'')
      else Ok (WrapTypeFromDef I name))"

definition Query_meta_type ::
  "'sel gql \<Rightarrow> ('ty, 'sc) introspection \<Rightarrow> path \<Rightarrow> 'sel gfield \<Rightarrow> 's exec \<Rightarrow> 's exec \<times> marshaler" where
  "Query_meta_type G I p f t =
     (case fieldContext_Query_meta_type G p f t of
        (t, Inl x) \<Rightarrow> (t, Null)
      | (t, Inr fc) \<Rightarrow>
          meta_field G False (\<lambda>q. marshalOmeta_Type2Type_ptr (meta_objects G I) q (Selections f)) p
            (bind_res (as_string (Args fc) ''name'') (introspectType I)) f t)"

definition Query_meta_schema ::
  "'sel gql \<Rightarrow> ('ty, 'sc) introspection \<Rightarrow> path \<Rightarrow> 'sel gfield \<Rightarrow> 's exec \<Rightarrow> 's exec \<times> marshaler" where
  "Query_meta_schema G I p f t =
     meta_field G False (\<lambda>q. marshalOmeta_Schema2Schema_ptr (meta_objects G I) q (Selections f)) p
       (introspectSchema I) f t"

end
