(* ===== verification/Gql_Exec.thy ===== *)
theory Gql_Exec
  imports Gql_Meta
begin

text \<open>
  The executor of \<open>graph/generated/generated.go\<close> for the types \<open>User\<close>, \<open>Query\<close> and \<open>Mutation\<close>: one
  definition per field function, field context, object function and type function. The resolvers are
  the argument \<open>rs\<close>, the record behind the interfaces \<open>MutationResolver\<close> and \<open>QueryResolver\<close>.

  No field or root middleware is installed (\<open>graph/server/handler.go\<close>), so \<open>ResolverMiddleware\<close> and
  \<open>RootResolverMiddleware\<close> call their argument. The schema has no \<open>@defer\<close>: the map \<open>deferred\<close> of the
  object functions stays empty.
\<close>

record 's resolvers =
  rs_CreateUser :: "env \<Rightarrow> 's \<Rightarrow> string \<Rightarrow> string \<Rightarrow> 's \<times> model_user option res"
  rs_UpdateUser :: "env \<Rightarrow> 's \<Rightarrow> string \<Rightarrow> string option \<Rightarrow> string option \<Rightarrow> 's \<times> model_user option res"
  rs_DeleteUser :: "env \<Rightarrow> 's \<Rightarrow> string \<Rightarrow> 's \<times> bool res"
  rs_Users :: "env \<Rightarrow> 's \<Rightarrow> go_int option \<Rightarrow> go_int option \<Rightarrow> 's \<times> model_user list res"
  rs_User :: "env \<Rightarrow> 's \<Rightarrow> string \<Rightarrow> 's \<times> model_user option res"

text \<open>A resolver's result in the \<open>interface{}\<close> that \<open>ResolverMiddleware\<close> hands on.\<close>

primrec map_res :: "('a \<Rightarrow> 'b) \<Rightarrow> 'a res \<Rightarrow> 'b res" where
  "map_res f (Ok x) = Ok (f x)"
| "map_res f (Err e) = Err e"
| "map_res f (Panic q) = Panic q"

definition on_service :: "('s \<Rightarrow> 's \<times> 'a res) \<Rightarrow> ('a \<Rightarrow> dyn) \<Rightarrow> 's exec \<Rightarrow> 's exec \<times> dyn res" where
  "on_service call wrap t = (case call (st t) of (s, x) \<Rightarrow> (t\<lparr>st := s\<rparr>, map_res wrap x))"

text \<open>The type assertions on a resolver's result.\<close>

definition dyn_string where
  "dyn_string marshal t v = (case v of DString s \<Rightarrow> marshal t s | _ \<Rightarrow> (t, Panics ''interface conversion''))"

definition dyn_string_ptr where
  "dyn_string_ptr marshal t v =
     (case v of DStringPtr s \<Rightarrow> marshal t s | _ \<Rightarrow> (t, Panics ''interface conversion''))"

definition dyn_bool where
  "dyn_bool marshal t v = (case v of DBool b \<Rightarrow> marshal t b | _ \<Rightarrow> (t, Panics ''interface conversion''))"

definition dyn_user where
  "dyn_user marshal t v = (case v of DUser u \<Rightarrow> marshal t u | _ \<Rightarrow> (t, Panics ''interface conversion''))"

definition dyn_users where
  "dyn_users marshal t v = (case v of DUsers us \<Rightarrow> marshal t us | _ \<Rightarrow> (t, Panics ''interface conversion''))"

subsection \<open>The fields of \<open>User\<close>\<close>

text \<open>The field context of a plain struct field.\<close>

definition struct_field :: "string \<Rightarrow> 'sel gfield \<Rightarrow> 'sel field_context" where
  "struct_field ty f = FieldContext ''User'' f False False (NoChildren ty) (\<lambda>k. None)"

definition fieldContext_User_id :: "'sel gfield \<Rightarrow> 'sel field_context" where
  "fieldContext_User_id = struct_field ''ID''"

definition fieldContext_User_name :: "'sel gfield \<Rightarrow> 'sel field_context" where
  "fieldContext_User_name = struct_field ''String''"

definition fieldContext_User_email :: "'sel gfield \<Rightarrow> 'sel field_context" where
  "fieldContext_User_email = struct_field ''String''"

definition fieldContext_User_createdAt :: "'sel gfield \<Rightarrow> 'sel field_context" where
  "fieldContext_User_createdAt = struct_field ''String''"

definition fieldContext_User_updatedAt :: "'sel gfield \<Rightarrow> 'sel field_context" where
  "fieldContext_User_updatedAt = struct_field ''String''"

definition fieldContext_User_deletedAt :: "'sel gfield \<Rightarrow> 'sel field_context" where
  "fieldContext_User_deletedAt = struct_field ''String''"

definition User_id :: "'sel gql \<Rightarrow> path \<Rightarrow> model_user \<Rightarrow> 'sel gfield \<Rightarrow> 's exec \<Rightarrow> 's exec \<times> marshaler" where
  "User_id G p obj f t =
     recovering G (field_path p f)
       (resolved G True (field_path p f) (dyn_string (marshalNID2string G (field_path p f)))
          (t, Ok (DString (mu_ID obj))))"

definition User_name :: "'sel gql \<Rightarrow> path \<Rightarrow> model_user \<Rightarrow> 'sel gfield \<Rightarrow> 's exec \<Rightarrow> 's exec \<times> marshaler" where
  "User_name G p obj f t =
     recovering G (field_path p f)
       (resolved G True (field_path p f) (dyn_string (marshalNString2string G (field_path p f)))
          (t, Ok (DString (mu_Name obj))))"

definition User_email :: "'sel gql \<Rightarrow> path \<Rightarrow> model_user \<Rightarrow> 'sel gfield \<Rightarrow> 's exec \<Rightarrow> 's exec \<times> marshaler" where
  "User_email G p obj f t =
     recovering G (field_path p f)
       (resolved G True (field_path p f) (dyn_string (marshalNString2string G (field_path p f)))
          (t, Ok (DString (mu_Email obj))))"

definition User_createdAt :: "'sel gql \<Rightarrow> path \<Rightarrow> model_user \<Rightarrow> 'sel gfield \<Rightarrow> 's exec \<Rightarrow> 's exec \<times> marshaler" where
  "User_createdAt G p obj f t =
     recovering G (field_path p f)
       (resolved G True (field_path p f) (dyn_string (marshalNString2string G (field_path p f)))
          (t, Ok (DString (mu_CreatedAt obj))))"

definition User_updatedAt :: "'sel gql \<Rightarrow> path \<Rightarrow> model_user \<Rightarrow> 'sel gfield \<Rightarrow> 's exec \<Rightarrow> 's exec \<times> marshaler" where
  "User_updatedAt G p obj f t =
     recovering G (field_path p f)
       (resolved G True (field_path p f) (dyn_string (marshalNString2string G (field_path p f)))
          (t, Ok (DString (mu_UpdatedAt obj))))"

definition User_deletedAt :: "'sel gql \<Rightarrow> path \<Rightarrow> model_user \<Rightarrow> 'sel gfield \<Rightarrow> 's exec \<Rightarrow> 's exec \<times> marshaler" where
  "User_deletedAt G p obj f t =
     recovering G (field_path p f)
       (resolved G False (field_path p f) (dyn_string_ptr marshalOString2string)
          (t, Ok (DStringPtr (mu_DeletedAt obj))))"

subsection \<open>Objects of type \<open>User\<close>\<close>

definition User_field ::
  "'sel gql \<Rightarrow> path \<Rightarrow> model_user \<Rightarrow> nat \<Rightarrow> 'sel gfield \<Rightarrow> 's exec \<Rightarrow> 's exec \<times> (marshaler \<times> bool) outcome" where
  "User_field G p obj i f t =
     (if fld_Name f = ''__typename'' then (t, Value (MarshalString ''User'', False))
      else if fld_Name f = ''id'' then nonnull_field (User_id G p obj f t)
      else if fld_Name f = ''name'' then nonnull_field (User_name G p obj f t)
      else if fld_Name f = ''email'' then nonnull_field (User_email G p obj f t)
      else if fld_Name f = ''createdAt'' then nonnull_field (User_createdAt G p obj f t)
      else if fld_Name f = ''updatedAt'' then nonnull_field (User_updatedAt G p obj f t)
      else if fld_Name f = ''deletedAt'' then nullable_field (User_deletedAt G p obj f t)
      else unknown_field f t)"

definition User_object :: "'sel gql \<Rightarrow> path \<Rightarrow> 'sel \<Rightarrow> model_user \<Rightarrow> 's exec \<Rightarrow> 's exec \<times> marshaler outcome" where
  "User_object G p sel obj t =
     (let fs = CollectFields G sel [''User'']
      in object_outcome fs (run_fields (User_field G p obj) 0 fs t))"

definition marshalNUser2User where
  "marshalNUser2User G p sel t v = User_object G p sel v t"

definition marshalNUser2User_ptr where
  "marshalNUser2User_ptr G p sel t v =
     (case v of
        None \<Rightarrow> (null_error G p ''the requested element is null which the schema does not allow'' t, Value Null)
      | Some u \<Rightarrow> User_object G p sel u t)"

definition marshalOUser2User_ptr where
  "marshalOUser2User_ptr G p sel t v =
     (case v of None \<Rightarrow> (t, Value Null) | Some u \<Rightarrow> User_object G p sel u t)"

definition marshalNUser2User_list where
  "marshalNUser2User_list G p sel = marshal_list G p (\<lambda>q. marshalNUser2User G q sel)"

subsection \<open>The fields of \<open>Mutation\<close> and \<open>Query\<close>\<close>

definition fieldContext_Mutation_createUser where
  "fieldContext_Mutation_createUser G =
     args_field_context G ''Mutation'' True (ChildrenOf ''User'') (field_Mutation_createUser_args G)"

definition fieldContext_Mutation_updateUser where
  "fieldContext_Mutation_updateUser G =
     args_field_context G ''Mutation'' True (ChildrenOf ''User'') (field_Mutation_updateUser_args G)"

definition fieldContext_Mutation_deleteUser where
  "fieldContext_Mutation_deleteUser G =
     args_field_context G ''Mutation'' True (NoChildren ''Boolean'') (field_Mutation_deleteUser_args G)"

definition fieldContext_Query_users where
  "fieldContext_Query_users G =
     args_field_context G ''Query'' True (ChildrenOf ''User'') (field_Query_users_args G)"

definition fieldContext_Query_user where
  "fieldContext_Query_user G =
     args_field_context G ''Query'' True (ChildrenOf ''User'') (field_Query_user_args G)"

text \<open>The switch of the closures \<open>Child\<close> of the fields of type \<open>User\<close>, and every closure by its tag.\<close>

definition user_children :: "'sel gfield \<Rightarrow> 's exec \<Rightarrow> 's exec \<times> (gql_error + 'sel field_context)" where
  "user_children f t =
     (if fld_Name f = ''id'' then (t, Inr (fieldContext_User_id f))
      else if fld_Name f = ''name'' then (t, Inr (fieldContext_User_name f))
      else if fld_Name f = ''email'' then (t, Inr (fieldContext_User_email f))
      else if fld_Name f = ''createdAt'' then (t, Inr (fieldContext_User_createdAt f))
      else if fld_Name f = ''updatedAt'' then (t, Inr (fieldContext_User_updatedAt f))
      else if fld_Name f = ''deletedAt'' then (t, Inr (fieldContext_User_deletedAt f))
      else no_field ''User'' f t)"

definition child_context ::
  "'sel gql \<Rightarrow> children \<Rightarrow> path \<Rightarrow> 'sel gfield \<Rightarrow> 's exec \<Rightarrow> 's exec \<times> (gql_error + 'sel field_context)" where
  "child_context G c p f t =
     (case c of
        NoChildren ty \<Rightarrow>
          (t, Inl ([], ErrorNew (''field of type '' @ ty @ '' does not have child fields'')))
      | ChildrenOf ty \<Rightarrow>
          if ty = ''User'' then user_children f t
          else if ty = ''__Directive'' then meta_Directive_children f t
          else if ty = ''__EnumValue'' then meta_EnumValue_children f t
          else if ty = ''__Field'' then meta_Field_children f t
          else if ty = ''__InputValue'' then meta_InputValue_children f t
          else if ty = ''__Schema'' then meta_Schema_children f t
          else meta_Type_children G p f t)"

text \<open>
  The calls of the resolvers, with the type assertions on the arguments first; a failed assertion is a
  panic inside the function that \<open>ResolverMiddleware\<close> runs.
\<close>

definition with_arg :: "'a res \<Rightarrow> ('a \<Rightarrow> 's exec \<times> dyn res) \<Rightarrow> 's exec \<Rightarrow> 's exec \<times> dyn res" where
  "with_arg x k t = (case x of Ok v \<Rightarrow> k v | Err e \<Rightarrow> (t, Err e) | Panic q \<Rightarrow> (t, Panic q))"

definition call_CreateUser where
  "call_CreateUser rs e fc t =
     with_arg (as_string (Args fc) ''name'') (\<lambda>name.
       with_arg (as_string (Args fc) ''email'') (\<lambda>email.
         on_service (\<lambda>s. rs_CreateUser rs e s name email) DUser t) t) t"

definition call_UpdateUser where
  "call_UpdateUser rs e fc t =
     with_arg (as_string (Args fc) ''id'') (\<lambda>i.
       with_arg (as_string_ptr (Args fc) ''name'') (\<lambda>name.
         with_arg (as_string_ptr (Args fc) ''email'') (\<lambda>email.
           on_service (\<lambda>s. rs_UpdateUser rs e s i name email) DUser t) t) t) t"

definition call_DeleteUser where
  "call_DeleteUser rs e fc t =
     with_arg (as_string (Args fc) ''id'') (\<lambda>i. on_service (\<lambda>s. rs_DeleteUser rs e s i) DBool t) t"

definition call_Users where
  "call_Users rs e fc t =
     with_arg (as_int_ptr (Args fc) ''page'') (\<lambda>page.
       with_arg (as_int_ptr (Args fc) ''pageSize'') (\<lambda>pageSize.
         on_service (\<lambda>s. rs_Users rs e s page pageSize) DUsers t) t) t"

definition call_User where
  "call_User rs e fc t =
     with_arg (as_string (Args fc) ''id'') (\<lambda>i. on_service (\<lambda>s. rs_User rs e s i) DUser t) t"

definition Mutation_createUser :: "'sel gql \<Rightarrow> 's resolvers \<Rightarrow> env \<Rightarrow> path \<Rightarrow> 'sel gfield \<Rightarrow> 's exec \<Rightarrow> 's exec \<times> marshaler" where
  "Mutation_createUser G rs e p f t =
     (case fieldContext_Mutation_createUser G p f t of
        (t, Inl x) \<Rightarrow> (t, Null)
      | (t, Inr fc) \<Rightarrow>
          recovering G (field_path p f)
            (resolved G True (field_path p f)
              (dyn_user (marshalNUser2User_ptr G (field_path p f) (Selections f)))
              (call_CreateUser rs e fc t)))"

definition Mutation_updateUser :: "'sel gql \<Rightarrow> 's resolvers \<Rightarrow> env \<Rightarrow> path \<Rightarrow> 'sel gfield \<Rightarrow> 's exec \<Rightarrow> 's exec \<times> marshaler" where
  "Mutation_updateUser G rs e p f t =
     (case fieldContext_Mutation_updateUser G p f t of
        (t, Inl x) \<Rightarrow> (t, Null)
      | (t, Inr fc) \<Rightarrow>
          recovering G (field_path p f)
            (resolved G True (field_path p f)
              (dyn_user (marshalNUser2User_ptr G (field_path p f) (Selections f)))
              (call_UpdateUser rs e fc t)))"

definition Mutation_deleteUser :: "'sel gql \<Rightarrow> 's resolvers \<Rightarrow> env \<Rightarrow> path \<Rightarrow> 'sel gfield \<Rightarrow> 's exec \<Rightarrow> 's exec \<times> marshaler" where
  "Mutation_deleteUser G rs e p f t =
     (case fieldContext_Mutation_deleteUser G p f t of
        (t, Inl x) \<Rightarrow> (t, Null)
      | (t, Inr fc) \<Rightarrow>
          recovering G (field_path p f)
            (resolved G True (field_path p f)
              (dyn_bool (marshalNBoolean2bool G (field_path p f)))
              (call_DeleteUser rs e fc t)))"

definition Query_users :: "'sel gql \<Rightarrow> 's resolvers \<Rightarrow> env \<Rightarrow> path \<Rightarrow> 'sel gfield \<Rightarrow> 's exec \<Rightarrow> 's exec \<times> marshaler" where
  "Query_users G rs e p f t =
     (case fieldContext_Query_users G p f t of
        (t, Inl x) \<Rightarrow> (t, Null)
      | (t, Inr fc) \<Rightarrow>
          recovering G (field_path p f)
            (resolved G True (field_path p f)
              (dyn_users (marshalNUser2User_list G (field_path p f) (Selections f)))
              (call_Users rs e fc t)))"

definition Query_user :: "'sel gql \<Rightarrow> 's resolvers \<Rightarrow> env \<Rightarrow> path \<Rightarrow> 'sel gfield \<Rightarrow> 's exec \<Rightarrow> 's exec \<times> marshaler" where
  "Query_user G rs e p f t =
     (case fieldContext_Query_user G p f t of
        (t, Inl x) \<Rightarrow> (t, Null)
      | (t, Inr fc) \<Rightarrow>
          recovering G (field_path p f)
            (resolved G False (field_path p f)
              (dyn_user (marshalOUser2User_ptr G (field_path p f) (Selections f)))
              (call_User rs e fc t)))"

subsection \<open>The root objects\<close>

text \<open>
  Mutations run one after the other in the order of the fields. Each root field has its own
  environment: its own clock and its own \<open>uuid.New\<close>.
\<close>

definition Mutation_field ::
  "'sel gql \<Rightarrow> 's resolvers \<Rightarrow> (nat \<Rightarrow> env) \<Rightarrow> nat \<Rightarrow> 'sel gfield \<Rightarrow> 's exec \<Rightarrow>
   's exec \<times> (marshaler \<times> bool) outcome" where
  "Mutation_field G rs es i f t =
     (if fld_Name f = ''__typename'' then (t, Value (MarshalString ''Mutation'', False))
      else if fld_Name f = ''createUser'' then nonnull_field (Mutation_createUser G rs (es i) [] f t)
      else if fld_Name f = ''updateUser'' then nonnull_field (Mutation_updateUser G rs (es i) [] f t)
      else if fld_Name f = ''deleteUser'' then nonnull_field (Mutation_deleteUser G rs (es i) [] f t)
      else unknown_field f t)"

definition Mutation_object ::
  "'sel gql \<Rightarrow> 's resolvers \<Rightarrow> (nat \<Rightarrow> env) \<Rightarrow> 'sel \<Rightarrow> 's exec \<Rightarrow> 's exec \<times> marshaler outcome" where
  "Mutation_object G rs es sel t =
     (let fs = CollectFields G sel [''Mutation'']
      in object_outcome fs (run_fields (Mutation_field G rs es) 0 fs t))"

text \<open>
  Queries: the loop gives \<open>__typename\<close> and the introspection fields their values and leaves \<open>users\<close> and
  \<open>user\<close> to \<open>Dispatch\<close>, which runs them concurrently; a field function recovers from its own panics, so
  nothing reaches the recovery of \<open>innerFunc\<close>. A value that is not there yet is \<open>Null\<close>.
\<close>

definition delayed :: "'sel gfield \<Rightarrow> bool" where
  "delayed f \<longleftrightarrow> fld_Name f \<in> {''users'', ''user''}"

definition Query_loop ::
  "'sel gql \<Rightarrow> ('ty, 'sc) introspection \<Rightarrow> nat \<Rightarrow> 'sel gfield \<Rightarrow> 's exec \<Rightarrow>
   's exec \<times> (marshaler \<times> bool) outcome" where
  "Query_loop G I i f t =
     (if fld_Name f = ''__typename'' then (t, Value (MarshalString ''Query'', False))
      else if delayed f then (t, Value (Null, False))
      else if fld_Name f = ''__type'' then nullable_field (Query_meta_type G I [] f t)
      else if fld_Name f = ''__schema'' then nullable_field (Query_meta_schema G I [] f t)
      else unknown_field f t)"

definition Query_delayed ::
  "'sel gql \<Rightarrow> 's resolvers \<Rightarrow> (nat \<Rightarrow> env) \<Rightarrow> 'sel gfield list \<Rightarrow> nat \<Rightarrow>
   's exec \<times> marshaler list \<times> nat \<Rightarrow> 's exec \<times> marshaler list \<times> nat" where
  "Query_delayed G rs es fs i x =
     (case x of (t, ms, invalids) \<Rightarrow>
        if fld_Name (fs ! i) = ''users''
        then (case Query_users G rs (es i) [] (fs ! i) t of
                (t, m) \<Rightarrow> (t, ms[i := m], of_bool (m = Null) + invalids))
        else (case Query_user G rs (es i) [] (fs ! i) t of (t, m) \<Rightarrow> (t, ms[i := m], invalids)))"

definition Query_object ::
  "'sel gql \<Rightarrow> ('ty, 'sc) introspection \<Rightarrow> 's resolvers \<Rightarrow> (nat \<Rightarrow> env) \<Rightarrow> 'sel \<Rightarrow> 's exec \<Rightarrow> 's exec \<times> marshaler outcome" where
  "Query_object G I rs es sel t =
     (let fs = CollectFields G sel [''Query'']
      in case run_fields (Query_loop G I) 0 fs t of
           (t, Panics q) \<Rightarrow> (t, Panics q)
         | (t, Value (ms, invalids)) \<Rightarrow>
             (case fold (Query_delayed G rs es fs)
                     (schedule G [i \<leftarrow> [0..<length fs]. delayed (fs ! i)]) (t, ms, invalids) of
                (t, y) \<Rightarrow> (t, Value (object_value fs y))))"

subsection \<open>Executing an operation\<close>

datatype operation = OpQuery | OpMutation | OpSubscription

text \<open>
  A \<open>graphql.Response\<close>: its data (\<open>None\<close> where there is none) before it is written out, and its own
  errors; the errors of the fields stay in the response context.
\<close>

record gql_response =
  Data :: "marshaler option"
  Errors :: "gql_error list"

text \<open>
  The response handler of \<open>Exec\<close> with its variable \<open>first\<close>: every call gives a response or nil. The
  counter \<open>pendingDeferred\<close> is never raised, so a query's second call finds no deferred result.
\<close>

definition respond ::
  "'s exec \<times> marshaler outcome \<Rightarrow> (bool \<times> 's exec) \<times> gql_response option outcome" where
  "respond x =
     (case x of
        (t, Panics q) \<Rightarrow> ((False, t), Panics q)
      | (t, Value m) \<Rightarrow> ((False, t), Value (Some \<lparr>Data = Some m, Errors = []\<rparr>)))"

definition Exec ::
  "'sel gql \<Rightarrow> ('ty, 'sc) introspection \<Rightarrow> 's resolvers \<Rightarrow> (nat \<Rightarrow> env) \<Rightarrow> operation \<Rightarrow> 'sel \<Rightarrow>
   bool \<times> 's exec \<Rightarrow> (bool \<times> 's exec) \<times> gql_response option outcome" where
  "Exec G I rs es op sel h =
     (case h of (first, t) \<Rightarrow>
        if \<not> first then ((False, t), Value None)
        else case op of
          OpQuery \<Rightarrow> respond (Query_object G I rs es sel t)
        | OpMutation \<Rightarrow> respond (Mutation_object G rs es sel t)
        | OpSubscription \<Rightarrow>
            ((False, t),
             Value (Some \<lparr>Data = None, Errors = [([], ErrorNew ''unsupported GraphQL operation'')]\<rparr>)))"

subsection \<open>Complexity\<close>

text \<open>\<open>ComplexityRoot\<close>: a nil function is \<open>None\<close>.\<close>

record complexity_root =
  cx_CreateUser :: "(go_int \<Rightarrow> string \<Rightarrow> string \<Rightarrow> go_int) option"
  cx_DeleteUser :: "(go_int \<Rightarrow> string \<Rightarrow> go_int) option"
  cx_UpdateUser :: "(go_int \<Rightarrow> string \<Rightarrow> string option \<Rightarrow> string option \<Rightarrow> go_int) option"
  cx_User :: "(go_int \<Rightarrow> string \<Rightarrow> go_int) option"
  cx_Users :: "(go_int \<Rightarrow> go_int option \<Rightarrow> go_int option \<Rightarrow> go_int) option"
  cx_createdAt :: "(go_int \<Rightarrow> go_int) option"
  cx_deletedAt :: "(go_int \<Rightarrow> go_int) option"
  cx_email :: "(go_int \<Rightarrow> go_int) option"
  cx_id :: "(go_int \<Rightarrow> go_int) option"
  cx_name :: "(go_int \<Rightarrow> go_int) option"
  cx_updatedAt :: "(go_int \<Rightarrow> go_int) option"

text \<open>The bodies of the cases: nil, failed arguments, or the function on the asserted arguments.\<close>

definition cx_field ::
  "'f option \<Rightarrow> (string \<Rightarrow> dyn option) unmarshalled \<Rightarrow> ('f \<Rightarrow> (string \<Rightarrow> dyn option) \<Rightarrow> go_int res) \<Rightarrow>
   (go_int \<times> bool) outcome" where
  "cx_field fn args apply_fn =
     (case fn of
        None \<Rightarrow> Value (0, False)
      | Some c \<Rightarrow>
          (case args of
             Panics q \<Rightarrow> Panics q
           | Value (Inl err) \<Rightarrow> Value (0, False)
           | Value (Inr a) \<Rightarrow>
               (case apply_fn c a of
                  Ok n \<Rightarrow> Value (n, True)
                | Err f \<Rightarrow> Value (0, False)
                | Panic q \<Rightarrow> Panics q)))"

definition cx_leaf :: "(go_int \<Rightarrow> go_int) option \<Rightarrow> go_int \<Rightarrow> (go_int \<times> bool) outcome" where
  "cx_leaf fn n = (case fn of None \<Rightarrow> Value (0, False) | Some c \<Rightarrow> Value (c n, True))"

definition Complexity ::
  "complexity_root \<Rightarrow> 'sel gql \<Rightarrow> string \<Rightarrow> string \<Rightarrow> go_int \<Rightarrow> (string \<Rightarrow> gval option) \<Rightarrow>
   (go_int \<times> bool) outcome" where
  "Complexity cx G typeName field n rawArgs =
     (let k = typeName @ ''.'' @ field in
      if k = ''Mutation.createUser'' then
        cx_field (cx_CreateUser cx) (field_Mutation_createUser_args G [] rawArgs)
          (\<lambda>c a. bind_res (as_string a ''name'') (\<lambda>name. bind_res (as_string a ''email'') (\<lambda>email.
             Ok (c n name email))))
      else if k = ''Mutation.deleteUser'' then
        cx_field (cx_DeleteUser cx) (field_Mutation_deleteUser_args G [] rawArgs)
          (\<lambda>c a. bind_res (as_string a ''id'') (\<lambda>i. Ok (c n i)))
      else if k = ''Mutation.updateUser'' then
        cx_field (cx_UpdateUser cx) (field_Mutation_updateUser_args G [] rawArgs)
          (\<lambda>c a. bind_res (as_string a ''id'') (\<lambda>i. bind_res (as_string_ptr a ''name'') (\<lambda>name.
             bind_res (as_string_ptr a ''email'') (\<lambda>email. Ok (c n i name email)))))
      else if k = ''Query.user'' then
        cx_field (cx_User cx) (field_Query_user_args G [] rawArgs)
          (\<lambda>c a. bind_res (as_string a ''id'') (\<lambda>i. Ok (c n i)))
      else if k = ''Query.users'' then
        cx_field (cx_Users cx) (field_Query_users_args G [] rawArgs)
          (\<lambda>c a. bind_res (as_int_ptr a ''page'') (\<lambda>page. bind_res (as_int_ptr a ''pageSize'') (\<lambda>size.
             Ok (c n page size))))
      else if k = ''User.createdAt'' then cx_leaf (cx_createdAt cx) n
      else if k = ''User.deletedAt'' then cx_leaf (cx_deletedAt cx) n
      else if k = ''User.email'' then cx_leaf (cx_email cx) n
      else if k = ''User.id'' then cx_leaf (cx_id cx) n
      else if k = ''User.name'' then cx_leaf (cx_name cx) n
      else if k = ''User.updatedAt'' then cx_leaf (cx_updatedAt cx) n
      else Value (0, False))"

end
