(* ===== verification/Gql_Resolvers.thy ===== *)
theory Gql_Resolvers
  imports Gql_Exec Handlers
begin

text \<open>
  The resolvers: those of \<open>graph/resolver/user.resolvers.go\<close>, the generated ones of
  \<open>schema.resolvers.go\<close> that the server is wired to, and the resolve functions of the second GraphQL
  stack, \<open>internal/http/graphql/schema.go\<close>, which nothing mounts. \<open>uuid.Parse\<close>, the text of a
  \<open>uuid.UUID\<close> and \<open>time.RFC3339\<close> come from \<open>codecs\<close> and \<open>http_env\<close>.
\<close>

subsection \<open>\<open>user.resolvers.go\<close>\<close>

definition convertUser :: "http_env \<Rightarrow> user option \<Rightarrow> model_user option" where
  "convertUser he v =
     (case v of
        None \<Rightarrow> None
      | Some u \<Rightarrow>
          Some \<lparr>mu_ID = uuid_text he (ID u), mu_Name = Name u, mu_Email = Email u,
            mu_CreatedAt = rfc3339 he (CreatedAt u), mu_UpdatedAt = rfc3339 he (UpdatedAt u),
            mu_DeletedAt = map_option (rfc3339 he) (DeletedAt u)\<rparr>)"

definition q_Users ::
  "http_env \<Rightarrow> ('s, 't) svc_ops \<Rightarrow> env \<Rightarrow> 's \<Rightarrow> go_int option \<Rightarrow> go_int option \<Rightarrow>
   's \<times> model_user option list res" where
  "q_Users he ops e s page pageSize =
     (let p = (case page of None \<Rightarrow> 1 | Some p \<Rightarrow> p);
          ps = (case pageSize of None \<Rightarrow> 20 | Some ps \<Rightarrow> ps)
      in case svc_List ops e s p ps of
           (s, Err f) \<Rightarrow> (s, Err f)
         | (s, Panic q) \<Rightarrow> (s, Panic q)
         | (s, Ok (us, n)) \<Rightarrow> (s, Ok (map (\<lambda>u. convertUser he (Some u)) us)))"

definition q_User ::
  "http_env \<Rightarrow> codecs \<Rightarrow> ('s, 't) svc_ops \<Rightarrow> env \<Rightarrow> 's \<Rightarrow> string \<Rightarrow> 's \<times> model_user option res" where
  "q_User he cd ops e s i =
     (case uuid_Parse cd i of
        Inl f \<Rightarrow> (s, Err f)
      | Inr uid \<Rightarrow>
          (case svc_Get ops e s uid of
             (s, Err f) \<Rightarrow> (s, Err f)
           | (s, Panic q) \<Rightarrow> (s, Panic q)
           | (s, Ok u) \<Rightarrow> (s, Ok (convertUser he (Some u)))))"

definition m_CreateUser ::
  "http_env \<Rightarrow> ('s, 't) svc_ops \<Rightarrow> env \<Rightarrow> 's \<Rightarrow> string \<Rightarrow> string \<Rightarrow> 's \<times> model_user option res" where
  "m_CreateUser he ops e s name email =
     (case svc_Create ops e s name email of
        (s, Err f) \<Rightarrow> (s, Err f)
      | (s, Panic q) \<Rightarrow> (s, Panic q)
      | (s, Ok u) \<Rightarrow> (s, Ok (convertUser he (Some u))))"

definition m_UpdateUser ::
  "http_env \<Rightarrow> codecs \<Rightarrow> ('s, 't) svc_ops \<Rightarrow> env \<Rightarrow> 's \<Rightarrow> string \<Rightarrow> string option \<Rightarrow> string option \<Rightarrow>
   's \<times> model_user option res" where
  "m_UpdateUser he cd ops e s i name email =
     (case uuid_Parse cd i of
        Inl f \<Rightarrow> (s, Err f)
      | Inr uid \<Rightarrow>
          (case svc_Update ops e s uid name email of
             (s, Err f) \<Rightarrow> (s, Err f)
           | (s, Panic q) \<Rightarrow> (s, Panic q)
           | (s, Ok u) \<Rightarrow> (s, Ok (convertUser he (Some u)))))"

definition m_DeleteUser ::
  "codecs \<Rightarrow> ('s, 't) svc_ops \<Rightarrow> env \<Rightarrow> 's \<Rightarrow> string \<Rightarrow> 's \<times> bool res" where
  "m_DeleteUser cd ops e s i =
     (case uuid_Parse cd i of
        Inl f \<Rightarrow> (s, Err f)
      | Inr uid \<Rightarrow>
          (case svc_Delete ops e s uid of
             (s, Err f) \<Rightarrow> (s, Err f)
           | (s, Panic q) \<Rightarrow> (s, Panic q)
           | (s, Ok v) \<Rightarrow> (s, Ok True)))"

text \<open>
  These methods as the resolvers of the executor. \<open>Users\<close> of the generated interface returns a slice of
  values where \<open>user.resolvers.go\<close> returns one of pointers; the pointers are never nil.
\<close>

definition user_resolvers :: "http_env \<Rightarrow> codecs \<Rightarrow> ('s, 't) svc_ops \<Rightarrow> 's resolvers" where
  "user_resolvers he cd ops =
     \<lparr>rs_CreateUser = m_CreateUser he ops, rs_UpdateUser = m_UpdateUser he cd ops,
      rs_DeleteUser = m_DeleteUser cd ops,
      rs_Users = (\<lambda>e s page size. case q_Users he ops e s page size of
        (s, x) \<Rightarrow> (s, map_res (map the) x)),
      rs_User = q_User he cd ops\<rparr>"

subsection \<open>\<open>schema.resolvers.go\<close>\<close>

definition mutationResolver_CreateUser :: "env \<Rightarrow> 's \<Rightarrow> string \<Rightarrow> string \<Rightarrow> 's \<times> model_user option res" where
  "mutationResolver_CreateUser e s name email = (s, Panic ''not implemented: CreateUser - createUser'')"

definition mutationResolver_UpdateUser ::
  "env \<Rightarrow> 's \<Rightarrow> string \<Rightarrow> string option \<Rightarrow> string option \<Rightarrow> 's \<times> model_user option res" where
  "mutationResolver_UpdateUser e s i name email =
     (s, Panic ''not implemented: UpdateUser - updateUser'')"

definition mutationResolver_DeleteUser :: "env \<Rightarrow> 's \<Rightarrow> string \<Rightarrow> 's \<times> bool res" where
  "mutationResolver_DeleteUser e s i = (s, Panic ''not implemented: DeleteUser - deleteUser'')"

definition queryResolver_Users ::
  "env \<Rightarrow> 's \<Rightarrow> go_int option \<Rightarrow> go_int option \<Rightarrow> 's \<times> model_user list res" where
  "queryResolver_Users e s page pageSize = (s, Panic ''not implemented: Users - users'')"

definition queryResolver_User :: "env \<Rightarrow> 's \<Rightarrow> string \<Rightarrow> 's \<times> model_user option res" where
  "queryResolver_User e s i = (s, Panic ''not implemented: User - user'')"

text \<open>
  \<open>Resolver.Mutation\<close> and \<open>Resolver.Query\<close>: what \<open>graph/server/handler.go\<close> builds the schema with. The
  embedded \<open>UserService\<close> is not used by any of the methods.
\<close>

definition Resolver :: "'s resolvers" where
  "Resolver =
     \<lparr>rs_CreateUser = mutationResolver_CreateUser, rs_UpdateUser = mutationResolver_UpdateUser,
      rs_DeleteUser = mutationResolver_DeleteUser, rs_Users = queryResolver_Users,
      rs_User = queryResolver_User\<rparr>"

lemmas Resolver_defs =
  mutationResolver_CreateUser_def mutationResolver_UpdateUser_def mutationResolver_DeleteUser_def
  queryResolver_Users_def queryResolver_User_def

subsection \<open>\<open>internal/http/graphql/schema.go\<close>\<close>

text \<open>
  The types of the schema, with the arguments of a field; the same description fits
  \<open>graph/schema.graphqls\<close>, which \<open>generated.go\<close> holds as \<open>sources\<close>.
\<close>

datatype gtype = Named string | ListOf gtype | NonNull gtype

type_synonym field_type = "string \<times> (string \<times> gtype) list \<times> gtype"

definition userType :: "field_type list" where
  "userType =
     [(''id'', [], NonNull (Named ''ID'')), (''name'', [], NonNull (Named ''String'')),
      (''email'', [], NonNull (Named ''String'')), (''createdAt'', [], NonNull (Named ''String'')),
      (''updatedAt'', [], NonNull (Named ''String'')), (''deletedAt'', [], Named ''String'')]"

definition queryType :: "field_type list" where
  "queryType =
     [(''users'', [(''page'', Named ''Int''), (''pageSize'', Named ''Int'')],
       NonNull (ListOf (NonNull (Named ''User'')))),
      (''user'', [(''id'', NonNull (Named ''ID''))], Named ''User'')]"

definition mutationType :: "field_type list" where
  "mutationType =
     [(''createUser'', [(''name'', NonNull (Named ''String'')), (''email'', NonNull (Named ''String''))],
       Named ''User''),
      (''updateUser'', [(''id'', NonNull (Named ''ID'')), (''name'', Named ''String''),
         (''email'', Named ''String'')], Named ''User''),
      (''deleteUser'', [(''id'', NonNull (Named ''ID''))], NonNull (Named ''Boolean''))]"

definition schema_User :: "field_type list" where
  "schema_User =
     [(''id'', [], NonNull (Named ''ID'')), (''name'', [], NonNull (Named ''String'')),
      (''email'', [], NonNull (Named ''String'')), (''createdAt'', [], NonNull (Named ''String'')),
      (''updatedAt'', [], NonNull (Named ''String'')), (''deletedAt'', [], Named ''String'')]"

definition schema_Query :: "field_type list" where
  "schema_Query =
     [(''users'', [(''page'', Named ''Int''), (''pageSize'', Named ''Int'')],
       NonNull (ListOf (NonNull (Named ''User'')))),
      (''user'', [(''id'', NonNull (Named ''ID''))], Named ''User'')]"

definition schema_Mutation :: "field_type list" where
  "schema_Mutation =
     [(''createUser'', [(''name'', NonNull (Named ''String'')), (''email'', NonNull (Named ''String''))],
       NonNull (Named ''User'')),
      (''updateUser'', [(''id'', NonNull (Named ''ID'')), (''name'', Named ''String''),
         (''email'', Named ''String'')], NonNull (Named ''User'')),
      (''deleteUser'', [(''id'', NonNull (Named ''ID''))], NonNull (Named ''Boolean''))]"

text \<open>The package's own \<open>convertUser\<close>, a map; a nil user is a nil map.\<close>

definition schema_convertUser :: "http_env \<Rightarrow> user option \<Rightarrow> gval" where
  "schema_convertUser he v =
     (case v of
        None \<Rightarrow> VMap []
      | Some u \<Rightarrow>
          VMap ([(''id'', VString (uuid_text he (ID u))), (''name'', VString (Name u)),
                 (''email'', VString (Email u)), (''createdAt'', VString (rfc3339 he (CreatedAt u))),
                 (''updatedAt'', VString (rfc3339 he (UpdatedAt u)))] @
                (case DeletedAt u of
                   None \<Rightarrow> []
                 | Some d \<Rightarrow> [(''deletedAt'', VString (rfc3339 he d))])))"

text \<open>
  \<open>p.Args[k].(int)\<close> with the dropped second value, \<open>p.Args[k].(string)\<close> which panics, and with the
  second value.
\<close>

definition arg_int :: "(string \<Rightarrow> gval option) \<Rightarrow> string \<Rightarrow> go_int" where
  "arg_int args k = (case args k of Some (VInt n) \<Rightarrow> word_of_int n | _ \<Rightarrow> 0)"

definition arg_string :: "(string \<Rightarrow> gval option) \<Rightarrow> string \<Rightarrow> string res" where
  "arg_string args k = (case args k of Some (VString s) \<Rightarrow> Ok s | _ \<Rightarrow> Panic ''interface conversion'')"

definition arg_string_ptr :: "(string \<Rightarrow> gval option) \<Rightarrow> string \<Rightarrow> string option" where
  "arg_string_ptr args k = (case args k of Some (VString s) \<Rightarrow> Some s | _ \<Rightarrow> None)"

definition resolve_users ::
  "http_env \<Rightarrow> ('s, 't) svc_ops \<Rightarrow> env \<Rightarrow> 's \<Rightarrow> (string \<Rightarrow> gval option) \<Rightarrow> 's \<times> gval res" where
  "resolve_users he ops e s args =
     (let page = arg_int args ''page''; pageSize = arg_int args ''pageSize'';
          page = (if page = 0 then 1 else page);
          pageSize = (if pageSize = 0 then 20 else pageSize)
      in case svc_List ops e s page pageSize of
           (s, Err f) \<Rightarrow> (s, Err f)
         | (s, Panic q) \<Rightarrow> (s, Panic q)
         | (s, Ok (us, n)) \<Rightarrow> (s, Ok (VList (map (\<lambda>u. schema_convertUser he (Some u)) us))))"

text \<open>The parsing of the identifier that \<open>user\<close>, \<open>updateUser\<close> and \<open>deleteUser\<close> begin with.\<close>

definition with_uuid :: "codecs \<Rightarrow> (string \<Rightarrow> gval option) \<Rightarrow> 's \<Rightarrow> (uuid \<Rightarrow> 's \<times> 'a res) \<Rightarrow> 's \<times> 'a res" where
  "with_uuid cd args s k =
     (case arg_string args ''id'' of
        Err f \<Rightarrow> (s, Err f)
      | Panic q \<Rightarrow> (s, Panic q)
      | Ok i \<Rightarrow> (case uuid_Parse cd i of Inl f \<Rightarrow> (s, Err f) | Inr uid \<Rightarrow> k uid))"

definition resolve_user ::
  "http_env \<Rightarrow> codecs \<Rightarrow> ('s, 't) svc_ops \<Rightarrow> env \<Rightarrow> 's \<Rightarrow> (string \<Rightarrow> gval option) \<Rightarrow> 's \<times> gval res" where
  "resolve_user he cd ops e s args =
     with_uuid cd args s (\<lambda>uid.
       case svc_Get ops e s uid of
         (s, Err f) \<Rightarrow> (s, Err f)
       | (s, Panic q) \<Rightarrow> (s, Panic q)
       | (s, Ok u) \<Rightarrow> (s, Ok (schema_convertUser he (Some u))))"

definition resolve_createUser ::
  "http_env \<Rightarrow> ('s, 't) svc_ops \<Rightarrow> env \<Rightarrow> 's \<Rightarrow> (string \<Rightarrow> gval option) \<Rightarrow> 's \<times> gval res" where
  "resolve_createUser he ops e s args =
     (case arg_string args ''name'' of
        Err f \<Rightarrow> (s, Err f)
      | Panic q \<Rightarrow> (s, Panic q)
      | Ok name \<Rightarrow>
          (case arg_string args ''email'' of
             Err f \<Rightarrow> (s, Err f)
           | Panic q \<Rightarrow> (s, Panic q)
           | Ok email \<Rightarrow>
               (case svc_Create ops e s name email of
                  (s, Err f) \<Rightarrow> (s, Err f)
                | (s, Panic q) \<Rightarrow> (s, Panic q)
                | (s, Ok u) \<Rightarrow> (s, Ok (schema_convertUser he (Some u))))))"

definition resolve_updateUser ::
  "http_env \<Rightarrow> codecs \<Rightarrow> ('s, 't) svc_ops \<Rightarrow> env \<Rightarrow> 's \<Rightarrow> (string \<Rightarrow> gval option) \<Rightarrow> 's \<times> gval res" where
  "resolve_updateUser he cd ops e s args =
     with_uuid cd args s (\<lambda>uid.
       case svc_Update ops e s uid (arg_string_ptr args ''name'') (arg_string_ptr args ''email'') of
         (s, Err f) \<Rightarrow> (s, Err f)
       | (s, Panic q) \<Rightarrow> (s, Panic q)
       | (s, Ok u) \<Rightarrow> (s, Ok (schema_convertUser he (Some u))))"

definition resolve_deleteUser ::
  "codecs \<Rightarrow> ('s, 't) svc_ops \<Rightarrow> env \<Rightarrow> 's \<Rightarrow> (string \<Rightarrow> gval option) \<Rightarrow> 's \<times> gval res" where
  "resolve_deleteUser cd ops e s args =
     with_uuid cd args s (\<lambda>uid.
       case svc_Delete ops e s uid of
         (s, Err f) \<Rightarrow> (s, Err f)
       | (s, Panic q) \<Rightarrow> (s, Panic q)
       | (s, Ok v) \<Rightarrow> (s, Ok (VBool True)))"

end
