(* ===== verification/Gql_Meta_Facts.thy ===== *)
theory Gql_Meta_Facts
  imports Gql_Meta
begin

text \<open>
  Introspection only reads the schema: its functions leave the service alone, only add errors, and their
  values depend neither on the execution's state nor on the order in which the elements of a list are
  finished. The measure \<open>nesting\<close> is enough for the recursion.
\<close>

subsection \<open>Computations with the same value\<close>

definition twin :: "('s exec \<Rightarrow> 's exec \<times> 'a) \<Rightarrow> ('r exec \<Rightarrow> 'r exec \<times> 'a) \<Rightarrow> bool" where
  "twin c d \<longleftrightarrow>
     (\<forall>t. st (fst (c t)) = st t \<and> set (errs t) \<subseteq> set (errs (fst (c t)))) \<and>
     (\<forall>t u. snd (c t) = snd (d u))"

lemma twinI:
  assumes "\<And>t. st (fst (c t)) = st t" "\<And>t. set (errs t) \<subseteq> set (errs (fst (c t)))"
    and "\<And>t u. snd (c t) = snd (d u)"
  shows "twin c d"
  using assms by (simp add: twin_def)

lemma twinE:
  assumes "twin c d"
  obtains t' u' x where "c t = (t', x)" "d u = (u', x)" "st t' = st t" "set (errs t) \<subseteq> set (errs t')"
proof -
  have "st (fst (c t)) = st t" "set (errs t) \<subseteq> set (errs (fst (c t)))" "snd (c t) = snd (d u)"
    using assms unfolding twin_def by blast+
  then show thesis by (metis prod.collapse that)
qed

lemma twinI':
  assumes "\<And>t u. \<exists>t' u' x. c t = (t', x) \<and> d u = (u', x) \<and> st t' = st t \<and> set (errs t) \<subseteq> set (errs t')"
  shows "twin c d"
proof (rule twinI)
  fix t u
  obtain t' u' x where "c t = (t', x)" "d u = (u', x)" "st t' = st t" "set (errs t) \<subseteq> set (errs t')"
    using assms by blast
  then show "st (fst (c t)) = st t" "set (errs t) \<subseteq> set (errs (fst (c t)))" "snd (c t) = snd (d u)"
    by simp_all
qed

lemma twinD:
  assumes "twin c d"
  shows "st (fst (c t)) = st t" "x \<in> set (errs t) \<Longrightarrow> x \<in> set (errs (fst (c t)))" "snd (c t) = snd (d u)"
  using assms by (auto simp: twin_def)

named_theorems twin_intros

lemma twin_value [twin_intros]: "twin (\<lambda>t. (t, x)) (\<lambda>t. (t, x))"
  by (simp add: twin_def)

text \<open>One computation after another.\<close>

lemma twin_bind:
  assumes "twin c d" "\<And>x. twin (k x) (l x)"
  shows "twin (\<lambda>t. case c t of (t, x) \<Rightarrow> k x t) (\<lambda>t. case d t of (t, x) \<Rightarrow> l x t)"
proof (rule twinI)
  fix t u
  show "st (fst (case c t of (t, x) \<Rightarrow> k x t)) = st t"
    by (simp add: case_prod_beta twinD(1) [OF assms(2)] twinD(1) [OF assms(1)])
  show "set (errs t) \<subseteq> set (errs (fst (case c t of (t, x) \<Rightarrow> k x t)))"
    using twinD(2) [OF assms(1)] twinD(2) [OF assms(2)] by (auto simp: case_prod_beta)
  have "snd (c t) = snd (d u)" by (rule twinD(3) [OF assms(1)])
  then show "snd (case c t of (t, x) \<Rightarrow> k x t) = snd (case d u of (t, x) \<Rightarrow> l x t)"
    using twinD(3) [OF assms(2)] by (simp add: case_prod_beta)
qed

lemma twin_map:
  assumes "twin c d"
  shows "twin (\<lambda>t. case c t of (t, x) \<Rightarrow> (t, g x)) (\<lambda>t. case d t of (t, x) \<Rightarrow> (t, g x))"
  by (rule twin_bind [OF assms twin_value])

lemma twin_ec_Error: "twin (\<lambda>t. (ec_Error p e t, x)) (\<lambda>t. (ec_Error p e' t, x))"
  by (auto intro: twinI)

lemma twin_null_error [twin_intros]: "twin (\<lambda>t. (null_error G p msg t, x)) (\<lambda>t. (null_error H p msg t, x))"
  by (auto intro!: twinI simp: null_error_def)

lemma twin_recovering [twin_intros]:
  assumes "twin c d"
  shows "twin (\<lambda>t. recovering G p (c t)) (\<lambda>t. recovering H p (d t))"
proof -
  have "twin (\<lambda>t. case x of Value m \<Rightarrow> (t, m) | Panics q \<Rightarrow> (ec_Error p (RecoverFunc G q) t, Null))
      (\<lambda>t. case x of Value m \<Rightarrow> (t, m) | Panics q \<Rightarrow> (ec_Error p (RecoverFunc H q) t, Null))" for x
    by (cases x) (simp_all add: twin_value twin_ec_Error)
  from twin_bind [OF assms this] show ?thesis
    by (simp add: recovering_def case_prod_beta)
qed

lemma twin_resolved_as [twin_intros]:
  assumes "\<And>v. twin (\<lambda>t. marshal t v) (\<lambda>t. marshal' t v)"
  shows "twin (\<lambda>t. resolved_as G is_nil nonnull p marshal (t, x)) (\<lambda>t. resolved_as H is_nil nonnull p marshal' (t, x))"
proof (cases x)
  case (Ok v)
  then show ?thesis
    using assms [of v] by (cases "is_nil v"; cases nonnull) (simp_all add: resolved_as_def twin_value twin_null_error)
qed (simp_all add: resolved_as_def twin_value twin_ec_Error)

lemma twin_meta_field [twin_intros]:
  assumes "\<And>v. twin (\<lambda>t. marshal (field_path p f) t v) (\<lambda>t. marshal' (field_path p f) t v)"
  shows "twin (meta_field G nonnull marshal p x f) (meta_field H nonnull marshal' p x f)"
  unfolding meta_field_def Let_def using assms by (intro twin_intros)

lemma twin_nullable [twin_intros]:
  assumes "twin c d"
  shows "twin (\<lambda>t. nullable_field (c t)) (\<lambda>t. nullable_field (d t))"
    "twin (\<lambda>t. nonnull_field (c t)) (\<lambda>t. nonnull_field (d t))"
  unfolding nullable_field_def nonnull_field_def
  by (rule twin_map [OF assms, of "\<lambda>m. Value (m, False)"], rule twin_map [OF assms, of "\<lambda>m. Value (m, m = Null)"])

lemma twin_unknown [twin_intros]: "twin (unknown_field f) (unknown_field f)"
  by (simp add: twin_def unknown_field_def)

lemma twin_if [twin_intros]:
  "(b \<Longrightarrow> twin c d) \<Longrightarrow> (\<not> b \<Longrightarrow> twin c' d') \<Longrightarrow> twin (\<lambda>t. if b then c t else c' t) (\<lambda>t. if b then d t else d' t)"
  by (cases b) simp_all

lemma twin_option [twin_intros]:
  "twin c d \<Longrightarrow> (\<And>y. x = Some y \<Longrightarrow> twin (k y) (l y)) \<Longrightarrow>
   twin (\<lambda>t. case x of None \<Rightarrow> c t | Some y \<Rightarrow> k y t) (\<lambda>t. case x of None \<Rightarrow> d t | Some y \<Rightarrow> l y t)"
  by (cases x) simp_all

lemma twin_run_fields:
  assumes "\<And>i f. twin (step i f) (step' i f)"
  shows "twin (run_fields step i fs) (run_fields step' i fs)"
proof (induction fs arbitrary: i)
  case Nil
  then show ?case by (simp add: twin_value)
next
  case (Cons f fs)
  show ?case
  proof (rule twinI')
    fix t u
    obtain t1 u1 x where x: "step i f t = (t1, x)" "step' i f u = (u1, x)" "st t1 = st t"
        "set (errs t) \<subseteq> set (errs t1)"
      using twinE [OF assms] .
    obtain t2 u2 y where y: "run_fields step (Suc i) fs t1 = (t2, y)" "run_fields step' (Suc i) fs u1 = (u2, y)"
        "st t2 = st t1" "set (errs t1) \<subseteq> set (errs t2)"
      using twinE [OF Cons.IH] .
    show "\<exists>t' u' z. run_fields step i (f # fs) t = (t', z) \<and> run_fields step' i (f # fs) u = (u', z) \<and>
        st t' = st t \<and> set (errs t) \<subseteq> set (errs t')"
      using x y by (cases x; cases y) auto
  qed
qed

lemma twin_object_outcome:
  assumes "twin c d"
  shows "twin (\<lambda>t. object_outcome fs (c t)) (\<lambda>t. object_outcome fs (d t))"
proof -
  have "twin (\<lambda>t. case x of Panics q \<Rightarrow> (t, Panics q) | Value y \<Rightarrow> (t, Value (object_value fs y)))
      (\<lambda>t. case x of Panics q \<Rightarrow> (t, Panics q) | Value y \<Rightarrow> (t, Value (object_value fs y)))" for x
    by (cases x) (simp_all add: twin_value)
  from twin_bind [OF assms this] show ?thesis by (simp add: object_outcome_def)
qed

subsection \<open>Lists\<close>

text \<open>A computation with one value.\<close>

definition yields :: "('s exec \<Rightarrow> 's exec \<times> 'a) \<Rightarrow> 'a \<Rightarrow> bool" where
  "yields c y \<longleftrightarrow> (\<forall>t. \<exists>t'. c t = (t', y) \<and> st t' = st t \<and> set (errs t) \<subseteq> set (errs t'))"

lemma twin_yields: "twin c d \<Longrightarrow> yields c (snd (d u))"
  unfolding yields_def by (metis twinE snd_conv)

primrec value_or_null :: "marshaler outcome \<Rightarrow> marshaler" where
  "value_or_null (Value m) = m"
| "value_or_null (Panics q) = Null"

primrec panicked :: "'a outcome \<Rightarrow> bool" where
  "panicked (Value m) = False"
| "panicked (Panics q) = True"

lemma marshal_element_step:
  assumes "elem (p @ [PathIndex i]) t (v ! i) = (t', y)"
  shows "\<exists>es. marshal_element G p elem v i (t, ret) =
    (t'\<lparr>errs := errs t' @ es\<rparr>,
     if ret = None \<or> panicked y then None else Some ((the ret)[i := value_or_null y]))"
proof (cases y)
  case (Panics q)
  then show ?thesis
    using assms by (simp add: marshal_element_def ec_Error_def add_error_def) (metis exec.surjective exec.update_convs(2))
next
  case (Value m)
  then show ?thesis
    using assms by (auto simp: marshal_element_def ec_Error_def add_error_def split: option.split intro: exI [of _ "[]"])
qed

lemma fold_list_update:
  "length (fold (\<lambda>i ms. ms[i := g i]) xs ms) = length ms"
  "j < length ms \<Longrightarrow> fold (\<lambda>i ms. ms[i := g i]) xs ms ! j = (if j \<in> set xs then g j else ms ! j)"
  by (induction xs arbitrary: ms) (auto simp: nth_list_update)

text \<open>The elements, in any order: one panic loses the list, otherwise every value is at its index.\<close>

lemma fold_marshal:
  assumes "\<And>i. i \<in> set xs \<Longrightarrow> yields (\<lambda>t. elem (p @ [PathIndex i]) t (v ! i)) (y i)"
  shows "\<exists>t'. fold (marshal_element G p elem v) xs (t, ret) =
      (t', if ret = None \<or> (\<exists>i \<in> set xs. panicked (y i)) then None
           else Some (fold (\<lambda>i ms. ms[i := value_or_null (y i)]) xs (the ret))) \<and>
    st t' = st t \<and> set (errs t) \<subseteq> set (errs t')"
  using assms
proof (induction xs arbitrary: t ret)
  case Nil
  then show ?case by auto
next
  case (Cons i xs)
  obtain t1 where t1: "elem (p @ [PathIndex i]) t (v ! i) = (t1, y i)" "st t1 = st t" "set (errs t) \<subseteq> set (errs t1)"
    using Cons.prems [of i] by (auto simp: yields_def)
  obtain es where es: "marshal_element G p elem v i (t, ret) = (t1\<lparr>errs := errs t1 @ es\<rparr>,
      if ret = None \<or> panicked (y i) then None else Some ((the ret)[i := value_or_null (y i)]))"
    using marshal_element_step [of elem p i t v, OF t1(1)] by blast
  let ?ret = "if ret = None \<or> panicked (y i) then None else Some ((the ret)[i := value_or_null (y i)])"
  from Cons.IH [of "t1\<lparr>errs := errs t1 @ es\<rparr>" ?ret] Cons.prems
  obtain t' where t': "fold (marshal_element G p elem v) xs (t1\<lparr>errs := errs t1 @ es\<rparr>, ?ret) =
      (t', if ?ret = None \<or> (\<exists>i \<in> set xs. panicked (y i)) then None
           else Some (fold (\<lambda>i ms. ms[i := value_or_null (y i)]) xs (the ?ret)))"
    "st t' = st t1" "set (errs t1 @ es) \<subseteq> set (errs t')" by auto
  then show ?case using t1(2,3) by (auto simp: es)
qed

lemma marshal_list_value:
  assumes "wf_gql G" "\<And>i. i < length v \<Longrightarrow> yields (\<lambda>t. elem (p @ [PathIndex i]) t (v ! i)) (y i)"
  shows "\<exists>t'. marshal_list G p elem t v =
      (t', Value (if \<exists>i < length v. panicked (y i) then MArray []
           else if \<exists>i < length v. value_or_null (y i) = Null then Null
           else MArray (map (\<lambda>i. value_or_null (y i)) [0..<length v]))) \<and>
    st t' = st t \<and> set (errs t) \<subseteq> set (errs t')"
proof -
  let ?xs = "schedule G [0..<length v]"
  have xs: "set ?xs = {0..<length v}"
    using wf_gqlD(2) [OF assms(1)] by (metis set_mset_mset set_upt)
  have all: "fold (\<lambda>i ms. ms[i := value_or_null (y i)]) ?xs (replicate (length v) Null) =
      map (\<lambda>i. value_or_null (y i)) [0..<length v]"
    by (intro nth_equalityI) (simp_all add: fold_list_update xs)
  have "yields (\<lambda>t. elem (p @ [PathIndex i]) t (v ! i)) (y i)" if "i \<in> set ?xs" for i
    using assms(2) that xs by simp
  from fold_marshal [of ?xs elem p v y G t "Some (replicate (length v) Null)", OF this]
  obtain t' where "fold (marshal_element G p elem v) ?xs (t, Some (replicate (length v) Null)) =
      (t', if \<exists>i < length v. panicked (y i) then None else Some (map (\<lambda>i. value_or_null (y i)) [0..<length v]))"
    "st t' = st t" "set (errs t) \<subseteq> set (errs t')"
    by (force simp: xs all)
  moreover have "Null \<in> set (map (\<lambda>i. value_or_null (y i)) [0..<length v]) \<longleftrightarrow> (\<exists>i < length v. value_or_null (y i) = Null)"
    by auto (metis atLeastLessThan_iff imageI zero_le)
  moreover define P where "P \<longleftrightarrow> (\<exists>i < length v. panicked (y i))"
  ultimately show ?thesis
    unfolding P_def [symmetric] by (cases P) (simp_all add: marshal_list_def)
qed

lemma twin_marshal_list [twin_intros]:
  assumes "wf_gql G" "wf_gql H"
    and "\<And>q x. twin (\<lambda>t. elem q t x) (\<lambda>t. elem' q t x)" "\<And>q x. twin (\<lambda>t. elem' q t x) (\<lambda>t. elem' q t x)"
  shows "twin (\<lambda>t. marshal_list G p elem t v) (\<lambda>t. marshal_list H p elem' t v)"
proof (rule twinI')
  fix t u
  define y where "y i = snd (elem' (p @ [PathIndex i]) u (v ! i))" for i
  have "yields (\<lambda>t. elem (p @ [PathIndex i]) t (v ! i)) (y i)"
    "yields (\<lambda>t. elem' (p @ [PathIndex i]) t (v ! i)) (y i)" for i
    unfolding y_def by (rule twin_yields [OF assms(3)], rule twin_yields [OF assms(4)])
  from marshal_list_value [of G v elem p y t, OF assms(1) this(1)]
    marshal_list_value [of H v elem' p y u, OF assms(2) this(2)]
  show "\<exists>t' u' x. marshal_list G p elem t v = (t', x) \<and> marshal_list H p elem' u v = (u', x) \<and>
      st t' = st t \<and> set (errs t) \<subseteq> set (errs t')"
    by blast
qed

lemma twin_marshal_nil_list [twin_intros]:
  assumes "wf_gql G" "wf_gql H"
    and "\<And>q x. twin (\<lambda>t. elem q t x) (\<lambda>t. elem' q t x)" "\<And>q x. twin (\<lambda>t. elem' q t x) (\<lambda>t. elem' q t x)"
  shows "twin (\<lambda>t. marshal_nil_list G p elem t v) (\<lambda>t. marshal_nil_list H p elem' t v)"
  using twin_marshal_list [OF assms] by (cases v) (simp_all add: marshal_nil_list_def twin_value)

subsection \<open>The schedule\<close>

text \<open>Two libraries that differ in nothing but the order in which goroutines finish.\<close>

definition same_but_schedule :: "'sel gql \<Rightarrow> 'sel gql \<Rightarrow> bool" where
  "same_but_schedule G H \<longleftrightarrow> H = G\<lparr>schedule := schedule H\<rparr>"

lemma unmarshal_schedule [simp]:
  "unmarshalNString2string (G\<lparr>schedule := z\<rparr>) = unmarshalNString2string G"
  "unmarshalNID2string (G\<lparr>schedule := z\<rparr>) = unmarshalNID2string G"
  "unmarshalOInt2int (G\<lparr>schedule := z\<rparr>) = unmarshalOInt2int G"
  "unmarshalOString2string (G\<lparr>schedule := z\<rparr>) = unmarshalOString2string G"
  "unmarshalOBoolean2bool (G\<lparr>schedule := z\<rparr>) = unmarshalOBoolean2bool G"
  by (intro ext, simp add: unmarshalNString2string_def unmarshalNID2string_def unmarshalOInt2int_def
      unmarshalOString2string_def unmarshalOBoolean2bool_def)+

lemma same_args:
  assumes "same_but_schedule G H"
  shows "field_Query_meta_type_args H = field_Query_meta_type_args G"
    "field_meta_Type_enumValues_args H = field_meta_Type_enumValues_args G"
    "field_meta_Type_fields_args H = field_meta_Type_fields_args G"
    "CollectFields H = CollectFields G" "nesting H = nesting G"
proof -
  obtain z where z: "H = G\<lparr>schedule := z\<rparr>" using assms unfolding same_but_schedule_def by blast
  show "field_Query_meta_type_args H = field_Query_meta_type_args G"
    "field_meta_Type_enumValues_args H = field_meta_Type_enumValues_args G"
    "field_meta_Type_fields_args H = field_meta_Type_fields_args G"
    "CollectFields H = CollectFields G" "nesting H = nesting G"
    unfolding z
    by (intro ext, simp_all add: field_Query_meta_type_args_def field_Query_meta_type_argsName_def
        field_meta_Type_enumValues_args_def field_meta_Type_enumValues_argsIncludeDeprecated_def
        field_meta_Type_fields_args_def field_meta_Type_fields_argsIncludeDeprecated_def)+
qed

lemma twin_args_context [twin_intros]:
  assumes "\<And>fc. twin (k fc) (l fc)"
  shows "twin
    (\<lambda>t. case args_field_context G ob r ch args p f t of (t, Inl x) \<Rightarrow> (t, Null) | (t, Inr fc) \<Rightarrow> k fc t)
    (\<lambda>t. case args_field_context H ob r ch args p f t of (t, Inl x) \<Rightarrow> (t, Null) | (t, Inr fc) \<Rightarrow> l fc t)"
proof (cases "args (field_path p f) (ArgumentMap f)")
  case (Value y)
  then show ?thesis
    using assms by (cases y) (auto simp: args_field_context_def intro!: twinI)
qed (auto simp: args_field_context_def intro!: twinI)

lemma twin_scalars [twin_intros]:
  "twin (\<lambda>t. marshalNString2string G p t s) (\<lambda>t. marshalNString2string H p t s)"
  "twin (\<lambda>t. marshalNBoolean2bool G p t b) (\<lambda>t. marshalNBoolean2bool H p t b)"
  "twin (\<lambda>t. marshalNTypeKind2string G p t s) (\<lambda>t. marshalNTypeKind2string H p t s)"
  "twin (\<lambda>t. marshalNDirectiveLocation2string G p t s) (\<lambda>t. marshalNDirectiveLocation2string H p t s)"
  "twin (\<lambda>t. marshalOString2string t v) (\<lambda>t. marshalOString2string t v)"
  by (simp_all add: twin_value marshalNString2string_def marshalNBoolean2bool_def marshalNTypeKind2string_def
      marshalNDirectiveLocation2string_def marshalOString2string_def null_checked_def)

subsection \<open>Objects\<close>

lemmas marshal_defs =
  marshalNmeta_Directive2Directive_def marshalNmeta_EnumValue2EnumValue_def marshalNmeta_Field2Field_def
  marshalNmeta_InputValue2InputValue_def marshalNmeta_Type2Type_def marshalNmeta_Directive2list_def
  marshalNmeta_InputValue2list_def marshalNmeta_Type2list_def marshalOmeta_EnumValue2list_def
  marshalOmeta_Field2list_def marshalOmeta_InputValue2list_def marshalOmeta_Type2list_def
  marshalNDirectiveLocation2list_def marshalNmeta_Type2Type_ptr_def marshalOmeta_Type2Type_ptr_def
  marshalOmeta_Schema2Schema_ptr_def

lemmas Directive_defs =
  meta_Directive_name_def meta_Directive_description_def meta_Directive_locations_def
  meta_Directive_args_def meta_Directive_isRepeatable_def

lemmas EnumValue_defs =
  meta_EnumValue_name_def meta_EnumValue_description_def meta_EnumValue_isDeprecated_def
  meta_EnumValue_deprecationReason_def

lemmas Field_defs =
  meta_Field_name_def meta_Field_description_def meta_Field_args_def meta_Field_type_def
  meta_Field_isDeprecated_def meta_Field_deprecationReason_def

lemmas InputValue_defs =
  meta_InputValue_name_def meta_InputValue_description_def meta_InputValue_type_def
  meta_InputValue_defaultValue_def

lemmas Schema_defs =
  meta_Schema_description_def meta_Schema_types_def meta_Schema_queryType_def
  meta_Schema_mutationType_def meta_Schema_subscriptionType_def meta_Schema_directives_def

lemmas Type_defs =
  meta_Type_kind_def meta_Type_name_def meta_Type_description_def meta_Type_fields_def
  meta_Type_interfaces_def meta_Type_possibleTypes_def meta_Type_enumValues_def
  meta_Type_inputFields_def meta_Type_ofType_def meta_Type_specifiedByURL_def
  fieldContext_meta_Type_fields_def fieldContext_meta_Type_enumValues_def

text \<open>The object functions of two executions, where those of the selections below are twins.\<close>

locale twin_objects =
  fixes G H :: "'sel gql"
    and I :: "('ty, 'sc) introspection"
    and d :: "('sel, 'ty, 'sc, 's) objects"
    and d' :: "('sel, 'ty, 'sc, 'r) objects"
  assumes wf: "wf_gql G" "wf_gql H"
    and same: "same_but_schedule G H"
    and below: "twin (d p sel x) (d' p sel x)" "twin (d' p sel x) (d' p sel x)"
begin

lemma twin_Directive_field: "twin (meta_Directive_field G d p obj i f) (meta_Directive_field H d' p obj i f)"
  unfolding meta_Directive_field_def Directive_defs marshal_defs same_args [OF same] by (intro twin_intros wf below)

lemma twin_EnumValue_field: "twin (meta_EnumValue_field G p obj i f) (meta_EnumValue_field H p obj i f)"
  unfolding meta_EnumValue_field_def EnumValue_defs marshal_defs same_args [OF same] by (intro twin_intros wf below)

lemma twin_Field_field: "twin (meta_Field_field G d p obj i f) (meta_Field_field H d' p obj i f)"
  unfolding meta_Field_field_def Field_defs marshal_defs same_args [OF same] by (intro twin_intros wf below)

lemma twin_InputValue_field: "twin (meta_InputValue_field G d p obj i f) (meta_InputValue_field H d' p obj i f)"
  unfolding meta_InputValue_field_def InputValue_defs marshal_defs same_args [OF same] by (intro twin_intros wf below)

lemma twin_Schema_field: "twin (meta_Schema_field G I d p obj i f) (meta_Schema_field H I d' p obj i f)"
  unfolding meta_Schema_field_def Schema_defs marshal_defs same_args [OF same] by (intro twin_intros wf below)

lemma twin_Type_field: "twin (meta_Type_field G I d p obj i f) (meta_Type_field H I d' p obj i f)"
  unfolding meta_Type_field_def Type_defs marshal_defs same_args [OF same] by (intro twin_intros wf below)

text \<open>A switch gives an object.\<close>

lemma twin_object:
  assumes "\<And>i f. twin (step i f) (step' i f)"
  shows "twin (\<lambda>t. let fs = CollectFields G sel ty in object_outcome fs (run_fields step 0 fs t))
    (\<lambda>t. let fs = CollectFields H sel ty in object_outcome fs (run_fields step' 0 fs t))"
  unfolding Let_def same_args [OF same] by (intro twin_object_outcome twin_run_fields assms)

lemma twin_Directive: "twin (meta_Directive G d p sel obj) (meta_Directive H d' p sel obj)"
  unfolding meta_Directive_def by (intro twin_object twin_Directive_field)

lemma twin_EnumValue: "twin (meta_EnumValue G p sel obj) (meta_EnumValue H p sel obj)"
  unfolding meta_EnumValue_def by (intro twin_object twin_EnumValue_field)

lemma twin_Field: "twin (meta_Field G d p sel obj) (meta_Field H d' p sel obj)"
  unfolding meta_Field_def by (intro twin_object twin_Field_field)

lemma twin_InputValue: "twin (meta_InputValue G d p sel obj) (meta_InputValue H d' p sel obj)"
  unfolding meta_InputValue_def by (intro twin_object twin_InputValue_field)

lemma twin_Schema: "twin (meta_Schema G I d p sel obj) (meta_Schema H I d' p sel obj)"
  unfolding meta_Schema_def by (intro twin_object twin_Schema_field)

lemma twin_Type: "twin (meta_Type G I d p sel obj) (meta_Type H I d' p sel obj)"
  unfolding meta_Type_def by (intro twin_object twin_Type_field)

end

text \<open>The knot: the object functions of one execution are twins of those of any other.\<close>

lemma same_but_schedule_refl: "same_but_schedule G G"
  by (simp add: same_but_schedule_def)

lemma twin_meta_object_step:
  assumes "twin_objects G H
      (meta_object n G I :: ('sel, 'ty, 'sc, 's) objects) (meta_object n H I :: ('sel, 'ty, 'sc, 'r) objects)"
  shows "twin (meta_object (Suc n) G I p sel x :: 's exec \<Rightarrow> _) (meta_object (Suc n) H I p sel x :: 'r exec \<Rightarrow> _)"
proof -
  note objects =
    twin_objects.twin_Directive [OF assms] twin_objects.twin_EnumValue [OF assms]
    twin_objects.twin_Field [OF assms] twin_objects.twin_InputValue [OF assms]
    twin_objects.twin_Schema [OF assms] twin_objects.twin_Type [OF assms]
  show ?thesis by (cases x) (simp_all add: objects)
qed

lemma twin_meta_object_self:
  assumes "wf_gql G"
  shows "twin (meta_object n G I p sel x :: 's exec \<Rightarrow> _) (meta_object n G I p sel x :: 's exec \<Rightarrow> _)"
proof (induction n arbitrary: p sel x)
  case 0
  then show ?case by (simp add: twin_value)
next
  case (Suc n)
  then have "twin_objects G G (meta_object n G I :: (_, _, _, 's) objects) (meta_object n G I :: (_, _, _, 's) objects)"
    using assms by unfold_locales (simp_all add: same_but_schedule_refl)
  then show ?case by (rule twin_meta_object_step)
qed

lemma twin_meta_object:
  assumes "wf_gql G" "wf_gql H" "same_but_schedule G H"
  shows "twin (meta_object n G I p sel x :: 's exec \<Rightarrow> _) (meta_object n H I p sel x :: 'r exec \<Rightarrow> _)"
proof (induction n arbitrary: p sel x)
  case 0
  then show ?case by (simp add: twin_value)
next
  case (Suc n)
  then have "twin_objects G H
      (meta_object n G I :: (_, _, _, 's) objects) (meta_object n H I :: (_, _, _, 'r) objects)"
    using assms twin_meta_object_self [OF assms(2)] by unfold_locales simp_all
  then show ?case by (rule twin_meta_object_step)
qed

lemma twin_meta_objects:
  assumes "wf_gql G" "wf_gql H" "same_but_schedule G H"
  shows "twin (meta_objects G I p sel x) (meta_objects H I p sel x)"
  unfolding meta_objects_def same_args(5) [OF assms(3)] by (rule twin_meta_object [OF assms])

lemma twin_Query_meta:
  assumes "wf_gql G" "wf_gql H" "same_but_schedule G H"
  shows "twin (Query_meta_type G I p f) (Query_meta_type H I p f)"
    "twin (Query_meta_schema G I p f) (Query_meta_schema H I p f)"
  unfolding Query_meta_type_def Query_meta_schema_def fieldContext_Query_meta_type_def
    marshalOmeta_Type2Type_ptr_def marshalOmeta_Schema2Schema_ptr_def same_args [OF assms(3)]
  by (intro twin_intros twin_meta_objects assms)+

subsection \<open>The recursion\<close>

text \<open>An object function uses those below it only on the selections of its fields.\<close>

lemma run_fields_cong:
  assumes "\<And>i f t. f \<in> set fs \<Longrightarrow> step i f t = step' i f t"
  shows "run_fields step i fs t = run_fields step' i fs t"
  using assms by (induction fs arbitrary: i t) (auto split: prod.split outcome.split)

lemma Directive_field_below:
  assumes "\<And>q x t. d q (Selections f) x t = d' q (Selections f) x t"
  shows "meta_Directive_field G d p obj i f t = meta_Directive_field G d' p obj i f t"
  unfolding meta_Directive_field_def Directive_defs marshal_defs assms ..

lemma Field_field_below:
  assumes "\<And>q x t. d q (Selections f) x t = d' q (Selections f) x t"
  shows "meta_Field_field G d p obj i f t = meta_Field_field G d' p obj i f t"
  unfolding meta_Field_field_def Field_defs marshal_defs assms ..

lemma InputValue_field_below:
  assumes "\<And>q x t. d q (Selections f) x t = d' q (Selections f) x t"
  shows "meta_InputValue_field G d p obj i f t = meta_InputValue_field G d' p obj i f t"
  unfolding meta_InputValue_field_def InputValue_defs marshal_defs assms ..

lemma Schema_field_below:
  assumes "\<And>q x t. d q (Selections f) x t = d' q (Selections f) x t"
  shows "meta_Schema_field G I d p obj i f t = meta_Schema_field G I d' p obj i f t"
  unfolding meta_Schema_field_def Schema_defs marshal_defs assms ..

lemma Type_field_below:
  assumes "\<And>q x t. d q (Selections f) x t = d' q (Selections f) x t"
  shows "meta_Type_field G I d p obj i f t = meta_Type_field G I d' p obj i f t"
  unfolding meta_Type_field_def Type_defs marshal_defs assms ..

lemma object_below:
  assumes "\<And>f q x t. f \<in> set (CollectFields G sel ty) \<Longrightarrow> d q (Selections f) x t = d' q (Selections f) x t"
    and "\<And>i f t. (\<And>q x t. d q (Selections f) x t = d' q (Selections f) x t) \<Longrightarrow> step d i f t = step d' i f t"
  shows "(let fs = CollectFields G sel ty in object_outcome fs (run_fields (step d) 0 fs t)) =
    (let fs = CollectFields G sel ty in object_outcome fs (run_fields (step d') 0 fs t))"
  unfolding Let_def using assms by (intro arg_cong [where f = "object_outcome _"] run_fields_cong) blast

definition meta_node ::
  "'sel gql \<Rightarrow> ('ty, 'sc) introspection \<Rightarrow> ('sel, 'ty, 'sc, 's) objects \<Rightarrow> ('sel, 'ty, 'sc, 's) objects" where
  "meta_node G I d p sel x t =
     (case x of
        DirectiveNode obj \<Rightarrow> meta_Directive G d p sel obj t
      | EnumValueNode obj \<Rightarrow> meta_EnumValue G p sel obj t
      | FieldNode obj \<Rightarrow> meta_Field G d p sel obj t
      | InputValueNode obj \<Rightarrow> meta_InputValue G d p sel obj t
      | SchemaNode obj \<Rightarrow> meta_Schema G I d p sel obj t
      | TypeNode obj \<Rightarrow> meta_Type G I d p sel obj t)"

lemma meta_object_Suc: "meta_object (Suc n) G I p sel x t = meta_node G I (meta_object n G I) p sel x t"
  by (simp add: meta_node_def)

lemma meta_node_below:
  assumes "\<And>ty f q x t. f \<in> set (CollectFields G sel ty) \<Longrightarrow> d q (Selections f) x t = d' q (Selections f) x t"
  shows "meta_node G I d p sel x t = meta_node G I d' p sel x t"
proof -
  note object = object_below [where G = G and d = d and d' = d', OF assms]
  show ?thesis
  proof (cases x)
    case (DirectiveNode obj)
    then show ?thesis
      unfolding meta_node_def meta_Directive_def
      by simp (rule object [where step = "\<lambda>d. meta_Directive_field G d p obj"], simp,
        rule Directive_field_below, simp)
  next
    case (EnumValueNode obj)
    then show ?thesis by (simp add: meta_node_def)
  next
    case (FieldNode obj)
    then show ?thesis
      unfolding meta_node_def meta_Field_def
      by simp (rule object [where step = "\<lambda>d. meta_Field_field G d p obj"], simp,
        rule Field_field_below, simp)
  next
    case (InputValueNode obj)
    then show ?thesis
      unfolding meta_node_def meta_InputValue_def
      by simp (rule object [where step = "\<lambda>d. meta_InputValue_field G d p obj"], simp,
        rule InputValue_field_below, simp)
  next
    case (SchemaNode obj)
    then show ?thesis
      unfolding meta_node_def meta_Schema_def
      by simp (rule object [where step = "\<lambda>d. meta_Schema_field G I d p obj"], simp,
        rule Schema_field_below, simp)
  next
    case (TypeNode obj)
    then show ?thesis
      unfolding meta_node_def meta_Type_def
      by simp (rule object [where step = "\<lambda>d. meta_Type_field G I d p obj"], simp,
        rule Type_field_below, simp)
  qed
qed

lemma meta_object_enough:
  assumes "wf_gql G"
  shows "nesting G sel < n \<Longrightarrow> nesting G sel < m \<Longrightarrow>
    meta_object n G I p sel x (t :: 's exec) = meta_object m G I p sel x t"
proof (induction n arbitrary: m p sel x t)
  case (Suc n)
  then obtain k where k: "m = Suc k" by (cases m) auto
  have "meta_object n G I q (Selections f) y u = meta_object k G I q (Selections f) y u"
    if "f \<in> set (CollectFields G sel ty)" for ty f q y and u :: "'s exec"
    using Suc.prems wf_gqlD(3) [OF assms that] k by (intro Suc.IH) auto
  then show ?case unfolding k meta_object_Suc by (rule meta_node_below)
qed simp

lemma meta_objects_unfold:
  assumes "wf_gql G"
  shows "meta_objects G I p sel x t = meta_node G I (meta_objects G I) p sel x t"
  unfolding meta_objects_def meta_object_Suc
proof (rule meta_node_below)
  fix ty f q y u
  assume "f \<in> set (CollectFields G sel ty)"
  then show "meta_object (nesting G sel) G I q (Selections f) y u =
      meta_node G I (meta_object (nesting G (Selections f)) G I) q (Selections f) y u"
    unfolding meta_object_Suc [symmetric] using wf_gqlD(3) [OF assms]
    by (intro meta_object_enough [OF assms]) auto
qed

end
