(* ===== verification/Gql_Facts.thy ===== *)
theory Gql_Facts
  imports Gql_Resolvers Gql_Meta_Facts
begin

text \<open>
  What the executor's functions compute for documents that passed validation: every function is
  reduced to a pure value and the resolvers' effect on the service, the errors left aside.
\<close>

subsection \<open>Validated documents\<close>

text \<open>Names that validation has found in the schema, for every selection set the executor collects.\<close>

definition user_sel_ok :: "'sel gql \<Rightarrow> 'sel \<Rightarrow> bool" where
  "user_sel_ok G sel \<longleftrightarrow>
     (\<forall>f \<in> set (CollectFields G sel [''User'']).
        fld_Name f \<in> {''__typename'', ''id'', ''name'', ''email'', ''createdAt'', ''updatedAt'', ''deletedAt''})"

definition valid_mutation :: "'sel gql \<Rightarrow> 'sel \<Rightarrow> bool" where
  "valid_mutation G sel \<longleftrightarrow>
     (\<forall>f \<in> set (CollectFields G sel [''Mutation'']).
        fld_Name f \<in> {''__typename'', ''deleteUser''} \<or>
        fld_Name f \<in> {''createUser'', ''updateUser''} \<and> user_sel_ok G (Selections f))"

definition valid_query :: "'sel gql \<Rightarrow> 'sel \<Rightarrow> bool" where
  "valid_query G sel \<longleftrightarrow>
     (\<forall>f \<in> set (CollectFields G sel [''Query'']).
        fld_Name f \<in> {''__typename'', ''__type'', ''__schema''} \<or>
        fld_Name f \<in> {''users'', ''user''} \<and> user_sel_ok G (Selections f))"

subsection \<open>Users\<close>

text \<open>The value of one field of a user, and of a selection of fields.\<close>

definition user_value :: "model_user \<Rightarrow> 'sel gfield \<Rightarrow> marshaler" where
  "user_value u f =
     (if fld_Name f = ''__typename'' then MarshalString ''User''
      else if fld_Name f = ''id'' then MarshalID (mu_ID u)
      else if fld_Name f = ''name'' then MarshalString (mu_Name u)
      else if fld_Name f = ''email'' then MarshalString (mu_Email u)
      else if fld_Name f = ''createdAt'' then MarshalString (mu_CreatedAt u)
      else if fld_Name f = ''updatedAt'' then MarshalString (mu_UpdatedAt u)
      else case mu_DeletedAt u of None \<Rightarrow> Null | Some d \<Rightarrow> MarshalString d)"

definition user_object :: "'sel gql \<Rightarrow> 'sel \<Rightarrow> model_user \<Rightarrow> marshaler" where
  "user_object G sel u =
     (let fs = CollectFields G sel [''User'']
      in FieldSet (zip (map Alias fs) (map (user_value u) fs)))"

lemma run_fields_pure:
  assumes "\<And>f i t. f \<in> set fs \<Longrightarrow> step i f t = (t, Value (v f, False))"
  shows "run_fields step i fs t = (t, Value (map v fs, 0))"
  using assms by (induction fs arbitrary: i t) simp_all

lemmas scalar_defs =
  recovering_def resolved_def resolved_as_def null_checked_def dyn_string_def dyn_string_ptr_def
  marshalNID2string_def marshalNString2string_def marshalOString2string_def

lemma User_fields [simp]:
  "User_id G p u f t = (t, MarshalID (mu_ID u))"
  "User_name G p u f t = (t, MarshalString (mu_Name u))"
  "User_email G p u f t = (t, MarshalString (mu_Email u))"
  "User_createdAt G p u f t = (t, MarshalString (mu_CreatedAt u))"
  "User_updatedAt G p u f t = (t, MarshalString (mu_UpdatedAt u))"
  "User_deletedAt G p u f t = (t, case mu_DeletedAt u of None \<Rightarrow> Null | Some d \<Rightarrow> MarshalString d)"
  by (simp_all add: User_id_def User_name_def User_email_def User_createdAt_def User_updatedAt_def
      User_deletedAt_def scalar_defs)

lemma User_value:
  assumes "user_sel_ok G sel"
  shows "User_object G p sel u t = (t, Value (user_object G sel u))"
proof -
  have "run_fields (User_field G p u) 0 fs t = (t, Value (map (user_value u) fs, 0))"
    if "fs = CollectFields G sel [''User'']" for fs
    using assms that unfolding user_sel_ok_def
    by (intro run_fields_pure) (auto simp: User_field_def user_value_def nonnull_field_def nullable_field_def)
  then show ?thesis by (simp add: User_object_def Let_def object_outcome_def object_value_def user_object_def)
qed

lemma user_object_not_Null [simp]: "user_object G sel u \<noteq> Null"
  by (simp add: user_object_def Let_def)

text \<open>The list comes out in its own order, whatever the order in which its elements are finished.\<close>

lemma marshal_list_values:
  assumes "wf_gql G" "\<And>q t u. elem q t u = (t, Value (g u))" "\<And>u. g u \<noteq> Null"
  shows "marshal_list G p elem t v = (t, Value (MArray (map g v)))"
proof -
  have set: "set (schedule G [0..<length v]) = {0..<length v}"
    using wf_gqlD(2) [OF assms(1)] by (metis set_mset_mset set_upt)
  have fold: "fold (marshal_element G p elem v) xs (t, Some ms) = (t, Some (fold (\<lambda>i ms. ms[i := g (v ! i)]) xs ms))" for xs ms
    by (induction xs arbitrary: ms) (simp_all add: marshal_element_def assms(2))
  have "fold (\<lambda>i ms. ms[i := g (v ! i)]) (schedule G [0..<length v]) (replicate (length v) Null) = map g v"
    by (intro nth_equalityI) (simp_all add: fold_list_update set)
  moreover have "Null \<notin> set (map g v)" using assms(3) by auto (metis)
  ultimately show ?thesis by (simp only: marshal_list_def fold) simp
qed

lemma marshal_users:
  assumes "wf_gql G" "user_sel_ok G sel"
  shows "marshalNUser2User_list G p sel t v = (t, Value (MArray (map (user_object G sel) v)))"
  unfolding marshalNUser2User_list_def
  by (rule marshal_list_values [OF assms(1)]) (simp_all add: marshalNUser2User_def User_value [OF assms(2)])

subsection \<open>Root fields\<close>

text \<open>An error at the field or below it.\<close>

definition reported :: "'sel gfield \<Rightarrow> 's exec \<Rightarrow> bool" where
  "reported f t \<longleftrightarrow> (\<exists>p g. (PathName (Alias f) # p, g) \<in> set (errs t))"

text \<open>What a resolver field comes to: the arguments, the call, the value rendered; no result, no value.\<close>

definition answer :: "('a \<Rightarrow> marshaler) \<Rightarrow> 's \<times> 'a res \<Rightarrow> 's \<times> marshaler" where
  "answer render x = (case x of (s, Ok v) \<Rightarrow> (s, render v) | (s, Err f) \<Rightarrow> (s, Null) | (s, Panic q) \<Rightarrow> (s, Null))"

definition user_or_null :: "'sel gql \<Rightarrow> 'sel \<Rightarrow> model_user option \<Rightarrow> marshaler" where
  "user_or_null G sel v = (case v of None \<Rightarrow> Null | Some u \<Rightarrow> user_object G sel u)"

text \<open>The value of an argument, where it could be unmarshalled.\<close>

definition given :: "'a unmarshalled \<Rightarrow> 'a option" where
  "given x = (case x of Value (Inr v) \<Rightarrow> Some v | Value (Inl err) \<Rightarrow> None | Panics q \<Rightarrow> None)"

definition root_answer ::
  "'sel gql \<Rightarrow> 's resolvers \<Rightarrow> env \<Rightarrow> 'sel gfield \<Rightarrow> 's \<Rightarrow> 's \<times> marshaler" where
  "root_answer G rs e f s =
     (let p = [PathName (Alias f)]; a = ArgumentMap f; user = user_or_null G (Selections f)
      in if fld_Name f = ''createUser'' then
           (case (given (field_Mutation_createUser_argsName G p a), given (field_Mutation_createUser_argsEmail G p a)) of
              (Some n, Some m) \<Rightarrow> answer user (rs_CreateUser rs e s n m)
            | _ \<Rightarrow> (s, Null))
         else if fld_Name f = ''updateUser'' then
           (case (given (field_Mutation_updateUser_argsID G p a), given (field_Mutation_updateUser_argsName G p a),
                  given (field_Mutation_updateUser_argsEmail G p a)) of
              (Some i, Some n, Some m) \<Rightarrow> answer user (rs_UpdateUser rs e s i n m)
            | _ \<Rightarrow> (s, Null))
         else if fld_Name f = ''deleteUser'' then
           (case given (field_Mutation_deleteUser_argsID G p a) of
              Some i \<Rightarrow> answer MarshalBoolean (rs_DeleteUser rs e s i)
            | None \<Rightarrow> (s, Null))
         else if fld_Name f = ''users'' then
           (case (given (field_Query_users_argsPage G p a), given (field_Query_users_argsPageSize G p a)) of
              (Some n, Some m) \<Rightarrow> answer (\<lambda>us. MArray (map (user_object G (Selections f)) us)) (rs_Users rs e s n m)
            | _ \<Rightarrow> (s, Null))
         else
           (case given (field_Query_user_argsID G p a) of
              Some i \<Rightarrow> answer user (rs_User rs e s i)
            | None \<Rightarrow> (s, Null)))"

text \<open>
  A field function agrees with its specification, keeps the errors recorded before, and reports a null
  where the schema has a \<open>!\<close>.
\<close>

definition field_sound :: "bool \<Rightarrow> 'sel gfield \<Rightarrow> 's exec \<Rightarrow> 's \<times> marshaler \<Rightarrow> 's exec \<times> marshaler \<Rightarrow> bool" where
  "field_sound nonnull f t x y \<longleftrightarrow>
     (case y of (t', m) \<Rightarrow>
        (st t', m) = x \<and> set (errs t) \<subseteq> set (errs t') \<and> (nonnull \<longrightarrow> m = Null \<longrightarrow> reported f t'))"

text \<open>The errors of an argument lie on its path.\<close>

definition on_path :: "path \<Rightarrow> 'a unmarshalled \<Rightarrow> bool" where
  "on_path p x \<longleftrightarrow> (\<forall>q g. x = Value (Inl (q, g)) \<longrightarrow> take (length p) q = p)"

named_theorems on_path

lemma on_path_error [on_path]: "on_path p (error_on_path (p @ q) x)"
  by (simp add: on_path_def error_on_path_def split: res.splits)

lemma on_path_nullable [on_path]:
  "(\<And>v. on_path p (unmarshal q v)) \<Longrightarrow> on_path p (nullable unmarshal q v)"
  by (auto simp: on_path_def nullable_def split: outcome.splits sum.splits)

lemma on_path_field_arg [on_path]:
  "(\<And>q v. on_path p (unmarshal (p @ q) v)) \<Longrightarrow> on_path p (field_arg unmarshal zero name p raw)"
  by (auto simp: field_arg_def on_path_def split: option.splits)

lemma on_path_put_arg [on_path]:
  "on_path p x \<Longrightarrow> on_path p rest \<Longrightarrow> on_path p (put_arg name wrap x rest)"
  by (auto simp: on_path_def put_arg_def split: outcome.splits sum.splits)

lemma on_path_Inr [on_path]: "on_path p (Value (Inr a))"
  by (simp add: on_path_def)

lemmas arg_defs =
  field_Mutation_createUser_argsName_def field_Mutation_createUser_argsEmail_def
  field_Mutation_deleteUser_argsID_def field_Mutation_updateUser_argsID_def
  field_Mutation_updateUser_argsName_def field_Mutation_updateUser_argsEmail_def
  field_Query_user_argsID_def field_Query_users_argsPage_def field_Query_users_argsPageSize_def
  unmarshalNID2string_def unmarshalNString2string_def unmarshalOInt2int_def unmarshalOString2string_def

lemma on_path_args:
  "on_path p (field_Mutation_createUser_args G p raw)"
  "on_path p (field_Mutation_updateUser_args G p raw)"
  "on_path p (field_Mutation_deleteUser_args G p raw)"
  "on_path p (field_Query_users_args G p raw)"
  "on_path p (field_Query_user_args G p raw)"
  unfolding field_Mutation_createUser_args_def field_Mutation_updateUser_args_def
    field_Mutation_deleteUser_args_def field_Query_users_args_def field_Query_user_args_def
  by (auto simp: arg_defs intro!: on_path)

lemma put_arg_given:
  "given (put_arg name wrap x rest) =
    (case (given x, given rest) of (Some v, Some a) \<Rightarrow> Some (a(name \<mapsto> wrap v)) | _ \<Rightarrow> None)"
  by (auto simp: put_arg_def given_def split: outcome.splits sum.splits)

lemma given_Inr [simp]: "given (Value (Inr a)) = Some a"
  by (simp add: given_def)

lemma reported_at [simp]: "errs t' = errs t @ [(field_path [] f, g)] \<Longrightarrow> reported f t'"
  by (auto simp: reported_def field_path_def)

lemma context_fails:
  assumes "given (args (field_path [] f) (ArgumentMap f)) = None"
    and "on_path (field_path [] f) (args (field_path [] f) (ArgumentMap f))"
  shows "\<exists>x. args_field_context G object r child args [] f t = (add_error x t, Inl x) \<and>
    reported f (add_error x t)"
proof (cases "args (field_path [] f) (ArgumentMap f)")
  case (Panics q)
  then have "args_field_context G object r child args [] f t =
      (add_error (field_path [] f, RecoverFunc G q) t, Inl (field_path [] f, RecoverFunc G q))"
    by (simp add: args_field_context_def ec_Error_def)
  moreover have "reported f (add_error (field_path [] f, RecoverFunc G q) t)"
    by (rule reported_at) simp
  ultimately show ?thesis by blast
next
  case (Value y)
  then obtain q g where y: "y = Inl (q, g)"
    using assms(1) by (cases y) (auto simp: given_def)
  then have "take 1 q = [PathName (Alias f)]"
    using assms(2) Value by (simp add: on_path_def field_path_def)
  then obtain q' where "q = PathName (Alias f) # q'" by (cases q) auto
  then show ?thesis by (auto simp: args_field_context_def Value y reported_def)
qed

lemma context_runs:
  "given (args (field_path [] f) (ArgumentMap f)) = Some a \<Longrightarrow>
   args_field_context G object True child args [] f t = (t, Inr (FieldContext object f True True child a))"
  by (auto simp: args_field_context_def given_def split: outcome.splits sum.splits)

text \<open>
  Every root field function has this shape; what is left to show of one is that its call is the
  resolver's and that its type function renders the result.
\<close>

lemma root_field_sound:
  assumes fails: "given (args (field_path [] f) (ArgumentMap f)) = None \<Longrightarrow> x = (st t, Null)"
    and on_path: "on_path (field_path [] f) (args (field_path [] f) (ArgumentMap f))"
    and runs: "\<And>a. given (args (field_path [] f) (ArgumentMap f)) = Some a \<Longrightarrow>
      \<exists>c. call (FieldContext object f True True child a) t = on_service c wrap t \<and>
        x = answer render (c (st t))"
    and renders: "\<And>u v. wrap v \<noteq> DNil \<and> (\<exists>u'. marshal u (wrap v) = (u', Value (render v)) \<and> st u' = st u \<and>
      set (errs u) \<subseteq> set (errs u') \<and> (nonnull \<longrightarrow> render v = Null \<longrightarrow> reported f u'))"
  shows "field_sound nonnull f t x
    (case args_field_context G object True child args [] f t of
       (t, Inl x) \<Rightarrow> (t, Null)
     | (t, Inr fc) \<Rightarrow>
         recovering G (field_path [] f) (resolved G nonnull' (field_path [] f) marshal (call fc t)))"
proof (cases "given (args (field_path [] f) (ArgumentMap f))")
  case None
  from context_fails [of args f G object True child t, OF None on_path] fails [OF None] show ?thesis
    by (auto simp: field_sound_def)
next
  case (Some a)
  obtain c where c: "call (FieldContext object f True True child a) t = on_service c wrap t"
      "x = answer render (c (st t))"
    using runs [OF Some] by blast
  obtain s y where y: "c (st t) = (s, y)" by fastforce
  show ?thesis
  proof (cases y)
    case (Ok v)
    obtain u' where "wrap v \<noteq> DNil" "marshal (t\<lparr>st := s\<rparr>) (wrap v) = (u', Value (render v))" "st u' = s"
        "set (errs t) \<subseteq> set (errs u')" "nonnull \<longrightarrow> render v = Null \<longrightarrow> reported f u'"
      using renders [of v "t\<lparr>st := s\<rparr>"] by auto
    then show ?thesis
      using c y Ok
      by (simp add: context_runs [of args, OF Some] on_service_def resolved_def resolved_as_def recovering_def
          field_sound_def answer_def)
  next
    case (Err g)
    then show ?thesis
      using c y
      by (auto simp: context_runs [of args, OF Some] on_service_def resolved_def resolved_as_def recovering_def
          field_sound_def answer_def intro!: reported_at)
  next
    case (Panic q)
    then show ?thesis
      using c y
      by (auto simp: context_runs [of args, OF Some] on_service_def resolved_def resolved_as_def recovering_def
          field_sound_def answer_def intro!: reported_at)
  qed
qed

subsection \<open>The five resolver fields\<close>

lemma null_error_facts [simp]:
  "st (null_error G p msg t) = st t"
  "set (errs t) \<subseteq> set (errs (null_error G p msg t))"
  by (auto simp: null_error_def)

lemma null_error_reported:
  "wf_gql G \<Longrightarrow> reported f (null_error G (field_path [] f) msg t)"
  using wf_gqlD(1) [of G "errs t" "field_path [] f"]
  by (force simp: null_error_def reported_def field_path_def)

lemma renders_user_ptr:
  assumes "wf_gql G" "user_sel_ok G sel"
  shows "\<exists>u'. dyn_user (marshalNUser2User_ptr G (field_path [] f) sel) u (DUser v) =
      (u', Value (user_or_null G sel v)) \<and> st u' = st u \<and> set (errs u) \<subseteq> set (errs u') \<and>
      (user_or_null G sel v = Null \<longrightarrow> reported f u')"
  using null_error_reported [OF assms(1)] null_error_facts(2)
  by (cases v) (simp_all add: dyn_user_def marshalNUser2User_ptr_def user_or_null_def User_value [OF assms(2)])

lemma renders_user_opt:
  assumes "user_sel_ok G sel"
  shows "dyn_user (marshalOUser2User_ptr G p sel) u (DUser v) = (u, Value (user_or_null G sel v))"
  by (cases v) (simp_all add: dyn_user_def marshalOUser2User_ptr_def user_or_null_def User_value [OF assms])

lemmas call_defs =
  with_arg_def as_string_def as_string_ptr_def as_int_ptr_def call_CreateUser_def call_UpdateUser_def
  call_DeleteUser_def call_Users_def call_User_def

lemma called: "x = answer r (F (st t)) \<Longrightarrow> \<exists>c. on_service F w t = on_service c w t \<and> x = answer r (c (st t))"
  by blast

lemma Mutation_createUser_sound:
  assumes "wf_gql G" "user_sel_ok G (Selections f)" "fld_Name f = ''createUser''"
  shows "field_sound True f t (root_answer G rs e f (st t)) (Mutation_createUser G rs e [] f t)"
  unfolding Mutation_createUser_def fieldContext_Mutation_createUser_def
  by (rule root_field_sound [where args = "field_Mutation_createUser_args G" and wrap = DUser and render = "user_or_null G (Selections f)", OF _ on_path_args(1)])
    (use assms renders_user_ptr [OF assms(1,2)] in \<open>auto intro!: called simp: root_answer_def Let_def
      field_Mutation_createUser_args_def put_arg_given call_defs field_path_def split: option.splits\<close>)

lemma Mutation_updateUser_sound:
  assumes "wf_gql G" "user_sel_ok G (Selections f)" "fld_Name f = ''updateUser''"
  shows "field_sound True f t (root_answer G rs e f (st t)) (Mutation_updateUser G rs e [] f t)"
  unfolding Mutation_updateUser_def fieldContext_Mutation_updateUser_def
  by (rule root_field_sound [where args = "field_Mutation_updateUser_args G" and wrap = DUser and render = "user_or_null G (Selections f)", OF _ on_path_args(2)])
    (use assms renders_user_ptr [OF assms(1,2)] in \<open>auto intro!: called simp: root_answer_def Let_def
      field_Mutation_updateUser_args_def put_arg_given call_defs field_path_def split: option.splits\<close>)

lemma Mutation_deleteUser_sound:
  assumes "fld_Name f = ''deleteUser''"
  shows "field_sound True f t (root_answer G rs e f (st t)) (Mutation_deleteUser G rs e [] f t)"
  unfolding Mutation_deleteUser_def fieldContext_Mutation_deleteUser_def
  by (rule root_field_sound [where args = "field_Mutation_deleteUser_args G" and wrap = DBool and render = MarshalBoolean, OF _ on_path_args(3)])
    (use assms in \<open>auto intro!: called simp: root_answer_def Let_def dyn_bool_def marshalNBoolean2bool_def
      null_checked_def field_Mutation_deleteUser_args_def put_arg_given call_defs field_path_def
      split: option.splits\<close>)

lemma Query_users_sound:
  assumes "wf_gql G" "user_sel_ok G (Selections f)" "fld_Name f = ''users''"
  shows "field_sound True f t (root_answer G rs e f (st t)) (Query_users G rs e [] f t)"
  unfolding Query_users_def fieldContext_Query_users_def
  by (rule root_field_sound [where args = "field_Query_users_args G" and wrap = DUsers and render = "\<lambda>us. MArray (map (user_object G (Selections f)) us)", OF _ on_path_args(4)])
    (use assms marshal_users [OF assms(1,2)] in \<open>auto intro!: called simp: root_answer_def Let_def
      dyn_users_def field_Query_users_args_def put_arg_given call_defs field_path_def
      split: option.splits\<close>)

lemma Query_user_sound:
  assumes "user_sel_ok G (Selections f)" "fld_Name f = ''user''"
  shows "field_sound False f t (root_answer G rs e f (st t)) (Query_user G rs e [] f t)"
  unfolding Query_user_def fieldContext_Query_user_def
  by (rule root_field_sound [where args = "field_Query_user_args G" and wrap = DUser and render = "user_or_null G (Selections f)", OF _ on_path_args(5)])
    (use assms renders_user_opt [OF assms(1)] in \<open>auto intro!: called simp: root_answer_def Let_def
      field_Query_user_args_def put_arg_given call_defs field_path_def split: option.splits\<close>)

end
