(* ===== verification/Gql_Props.thy ===== *)
theory Gql_Props
  imports Gql_Facts Mem_Service
begin

text \<open>
  The properties of the GraphQL endpoint: the answers are typed by the schema, nulls are reported,
  mutations run in order and are not undone, queries do not depend on the order of their goroutines,
  and what the endpoint does as it is wired.
\<close>

subsection \<open>Mutations\<close>

primrec mutation_spec ::
  "'sel gql \<Rightarrow> 's resolvers \<Rightarrow> (nat \<Rightarrow> env) \<Rightarrow> nat \<Rightarrow> 'sel gfield list \<Rightarrow> 's \<Rightarrow> 's \<times> marshaler list" where
  "mutation_spec G rs es i [] s = (s, [])"
| "mutation_spec G rs es i (f # fs) s =
     (case (if fld_Name f = ''__typename'' then (s, MarshalString ''Mutation'')
            else root_answer G rs (es i) f s) of
        (s, m) \<Rightarrow> (case mutation_spec G rs es (Suc i) fs s of (s, ms) \<Rightarrow> (s, m # ms)))"

lemma reported_mono: "reported f t \<Longrightarrow> set (errs t) \<subseteq> set (errs t') \<Longrightarrow> reported f t'"
  unfolding reported_def by blast

lemma field_soundE:
  assumes "field_sound nonnull f t x y"
  obtains t' m where "y = (t', m)" "x = (st t', m)" "set (errs t) \<subseteq> set (errs t')"
    "nonnull \<Longrightarrow> m = Null \<Longrightarrow> reported f t'"
  using assms by (cases y) (auto simp: field_sound_def)

lemma Mutation_field_sound:
  assumes "wf_gql G" "fld_Name f \<in> {''deleteUser''} \<or>
      fld_Name f \<in> {''createUser'', ''updateUser''} \<and> user_sel_ok G (Selections f)"
  obtains t' m where "Mutation_field G rs es i f t = (t', Value (m, m = Null))"
    "root_answer G rs (es i) f (st t) = (st t', m)" "set (errs t) \<subseteq> set (errs t')"
    "m = Null \<Longrightarrow> reported f t'"
proof -
  from assms(2) consider "fld_Name f = ''deleteUser''"
    | "fld_Name f = ''createUser''" "user_sel_ok G (Selections f)"
    | "fld_Name f = ''updateUser''" "user_sel_ok G (Selections f)" by blast
  then show ?thesis
  proof cases
    case 1
    from Mutation_deleteUser_sound [OF this, of t G rs "es i"] 1 show ?thesis
      by (elim field_soundE) (auto simp: Mutation_field_def nonnull_field_def intro: that)
  next
    case 2
    from Mutation_createUser_sound [OF assms(1) 2(2,1), of t rs "es i"] 2(1) show ?thesis
      by (elim field_soundE) (auto simp: Mutation_field_def nonnull_field_def intro: that)
  next
    case 3
    from Mutation_updateUser_sound [OF assms(1) 3(2,1), of t rs "es i"] 3(1) show ?thesis
      by (elim field_soundE) (auto simp: Mutation_field_def nonnull_field_def intro: that)
  qed
qed

lemma run_mutation:
  assumes "wf_gql G" "mutation_spec G rs es i fs (st t) = (s, ms)"
    and "\<forall>f \<in> set fs. fld_Name f \<in> {''__typename'', ''deleteUser''} \<or>
      fld_Name f \<in> {''createUser'', ''updateUser''} \<and> user_sel_ok G (Selections f)"
  shows "\<exists>t' k. run_fields (Mutation_field G rs es) i fs t = (t', Value (ms, k)) \<and> st t' = s \<and>
    set (errs t) \<subseteq> set (errs t') \<and> (0 < k \<longleftrightarrow> Null \<in> set ms) \<and>
    (Null \<in> set ms \<longrightarrow> (\<exists>f \<in> set fs. reported f t'))"
  using assms(2,3)
proof (induction fs arbitrary: i t s ms)
  case Nil
  then show ?case by simp
next
  case (Cons f fs)
  obtain t1 m where f: "Mutation_field G rs es i f t = (t1, Value (m, m = Null))"
      "(if fld_Name f = ''__typename'' then (st t, MarshalString ''Mutation'')
        else root_answer G rs (es i) f (st t)) = (st t1, m)"
      "set (errs t) \<subseteq> set (errs t1)" "m = Null \<Longrightarrow> reported f t1"
  proof (cases "fld_Name f = ''__typename''")
    case True
    then show ?thesis by (intro that [of t "MarshalString ''Mutation''"]) (simp_all add: Mutation_field_def)
  next
    case False
    then have "fld_Name f \<in> {''deleteUser''} \<or>
        fld_Name f \<in> {''createUser'', ''updateUser''} \<and> user_sel_ok G (Selections f)"
      using Cons.prems(2) by auto
    then show ?thesis
      by (rule Mutation_field_sound [OF assms(1), of _ rs es i t]) (use False in \<open>auto intro: that\<close>)
  qed
  obtain ms' where ms': "mutation_spec G rs es (Suc i) fs (st t1) = (s, ms')" "ms = m # ms'"
    using Cons.prems(1) f(2) by (auto split: prod.splits)
  from Cons.IH [OF ms'(1)] Cons.prems(2) obtain t' k where
    IH: "run_fields (Mutation_field G rs es) (Suc i) fs t1 = (t', Value (ms', k))" "st t' = s"
      "set (errs t1) \<subseteq> set (errs t')" "0 < k \<longleftrightarrow> Null \<in> set ms'"
      "Null \<in> set ms' \<longrightarrow> (\<exists>f \<in> set fs. reported f t')"
    by auto
  show ?case
    using f IH reported_mono [OF f(4) IH(3)] by (auto simp: ms'(2))
qed

text \<open>A mutation, reduced to its root fields' answers in the order of the document.\<close>

lemma Mutation_answers:
  assumes "wf_gql G" "valid_mutation G sel"
    and "mutation_spec G rs es 0 (CollectFields G sel [''Mutation'']) (st t) = (s, ms)"
  shows "\<exists>t'. Mutation_object G rs es sel t =
      (t', Value (if Null \<in> set ms then Null
                  else FieldSet (zip (map Alias (CollectFields G sel [''Mutation''])) ms))) \<and>
    st t' = s \<and>
    (Null \<in> set ms \<longrightarrow> (\<exists>f \<in> set (CollectFields G sel [''Mutation'']). reported f t'))"
  using run_mutation [OF assms(1,3)] assms(2)
  by (auto simp: valid_mutation_def Mutation_object_def Let_def object_outcome_def object_value_def)

subsection \<open>Queries\<close>

definition query_step ::
  "'sel gql \<Rightarrow> 's resolvers \<Rightarrow> (nat \<Rightarrow> env) \<Rightarrow> 'sel gfield list \<Rightarrow> nat \<Rightarrow> 's \<times> marshaler list \<Rightarrow>
   's \<times> marshaler list" where
  "query_step G rs es fs i x =
     (case x of (s, ms) \<Rightarrow>
        (case root_answer G rs (es i) (fs ! i) s of (s, m) \<Rightarrow> (s, ms[i := m])))"

lemma Query_delayed_sound:
  assumes "wf_gql G" "fld_Name (fs ! i) \<in> {''users'', ''user''}" "user_sel_ok G (Selections (fs ! i))"
  obtains t' m where
    "Query_delayed G rs es fs i (t, ms, k) =
      (t', ms[i := m], of_bool (fld_Name (fs ! i) = ''users'' \<and> m = Null) + k)"
    "root_answer G rs (es i) (fs ! i) (st t) = (st t', m)" "set (errs t) \<subseteq> set (errs t')"
    "fld_Name (fs ! i) = ''users'' \<Longrightarrow> m = Null \<Longrightarrow> reported (fs ! i) t'"
proof (cases "fld_Name (fs ! i) = ''users''")
  case True
  from Query_users_sound [OF assms(1,3) True, of t rs "es i"] True show ?thesis
    by (elim field_soundE) (auto simp: Query_delayed_def intro: that)
next
  case False
  with assms(2) have "fld_Name (fs ! i) = ''user''" by simp
  from Query_user_sound [OF assms(3) this, of t rs "es i"] False show ?thesis
    by (elim field_soundE) (auto simp: Query_delayed_def intro: that)
qed

text \<open>The dispatched fields, in any order without repetition.\<close>

lemma fold_delayed:
  assumes "wf_gql G" "distinct xs" "\<forall>i \<in> set xs. i < length ms"
    and "\<forall>i \<in> set xs. fld_Name (fs ! i) \<in> {''users'', ''user''} \<and> user_sel_ok G (Selections (fs ! i))"
    and "fold (query_step G rs es fs) xs (st t, ms) = (s, ms')"
  shows "\<exists>t' k'. fold (Query_delayed G rs es fs) xs (t, ms, k) = (t', ms', k') \<and> st t' = s \<and>
    length ms' = length ms \<and> (\<forall>j. j \<notin> set xs \<longrightarrow> ms' ! j = ms ! j) \<and>
    set (errs t) \<subseteq> set (errs t') \<and>
    (0 < k' \<longleftrightarrow> 0 < k \<or> (\<exists>i \<in> set xs. fld_Name (fs ! i) = ''users'' \<and> ms' ! i = Null)) \<and>
    (\<forall>i \<in> set xs. fld_Name (fs ! i) = ''users'' \<longrightarrow> ms' ! i = Null \<longrightarrow> reported (fs ! i) t')"
  using assms(2-)
proof (induction xs arbitrary: t ms k)
  case Nil
  then show ?case by simp
next
  case (Cons i xs)
  obtain t1 m where f: "Query_delayed G rs es fs i (t, ms, k) =
      (t1, ms[i := m], of_bool (fld_Name (fs ! i) = ''users'' \<and> m = Null) + k)"
    "root_answer G rs (es i) (fs ! i) (st t) = (st t1, m)" "set (errs t) \<subseteq> set (errs t1)"
    "fld_Name (fs ! i) = ''users'' \<Longrightarrow> m = Null \<Longrightarrow> reported (fs ! i) t1"
    using Query_delayed_sound [OF assms(1), of fs i rs es t ms k] Cons.prems(3) by auto
  have step: "fold (query_step G rs es fs) xs (st t1, ms[i := m]) = (s, ms')"
    using Cons.prems(4) f(2) by (simp add: query_step_def [of G rs es fs i])
  let ?k = "of_bool (fld_Name (fs ! i) = ''users'' \<and> m = Null) + k"
  from Cons.IH [OF _ _ _ step, of ?k] Cons.prems obtain t' k' where
    IH: "fold (Query_delayed G rs es fs) xs (t1, ms[i := m], ?k) = (t', ms', k')"
      "st t' = s" "length ms' = length ms" "\<forall>j. j \<notin> set xs \<longrightarrow> ms' ! j = ms[i := m] ! j"
      "set (errs t1) \<subseteq> set (errs t')"
      "0 < k' \<longleftrightarrow> 0 < ?k \<or> (\<exists>i \<in> set xs. fld_Name (fs ! i) = ''users'' \<and> ms' ! i = Null)"
      "\<forall>i \<in> set xs. fld_Name (fs ! i) = ''users'' \<longrightarrow> ms' ! i = Null \<longrightarrow> reported (fs ! i) t'"
    by auto
  have i: "ms' ! i = m" using IH(4) Cons.prems(1,2) by auto
  have "fold (Query_delayed G rs es fs) (i # xs) (t, ms, k) = (t', ms', k')" using f(1) IH(1) by simp
  moreover have "\<forall>j. j \<notin> set (i # xs) \<longrightarrow> ms' ! j = ms ! j" using IH(4) by simp
  moreover have "set (errs t) \<subseteq> set (errs t')" using f(3) IH(5) by blast
  moreover have "0 < k' \<longleftrightarrow> 0 < k \<or> (\<exists>i \<in> set (i # xs). fld_Name (fs ! i) = ''users'' \<and> ms' ! i = Null)"
    using IH(6) i by auto
  moreover have "\<forall>i \<in> set (i # xs). fld_Name (fs ! i) = ''users'' \<longrightarrow> ms' ! i = Null \<longrightarrow> reported (fs ! i) t'"
    using IH(7) i reported_mono [OF f(4) IH(5)] by auto
  ultimately show ?case using IH(2,3) by blast
qed

text \<open>The values of the loop before the dispatch; those of the introspection fields need no service.\<close>

abbreviation no_service :: "unit exec" where
  "no_service \<equiv> \<lparr>st = (), errs = []\<rparr>"

definition loop_value :: "'sel gql \<Rightarrow> ('ty, 'sc) introspection \<Rightarrow> 'sel gfield \<Rightarrow> marshaler" where
  "loop_value G I f =
     (if fld_Name f = ''__typename'' then MarshalString ''Query''
      else if delayed f then Null
      else if fld_Name f = ''__type'' then snd (Query_meta_type G I [] f no_service)
      else snd (Query_meta_schema G I [] f no_service))"

lemma Query_meta_value:
  assumes "wf_gql G"
  shows "\<exists>t'. Query_meta_type G I p f t = (t', snd (Query_meta_type G I p f no_service)) \<and>
      st t' = st t \<and> set (errs t) \<subseteq> set (errs t')"
    "\<exists>t'. Query_meta_schema G I p f t = (t', snd (Query_meta_schema G I p f no_service)) \<and>
      st t' = st t \<and> set (errs t) \<subseteq> set (errs t')"
  using twin_yields [OF twin_Query_meta(1) [OF assms assms same_but_schedule_refl], of I p f no_service]
    twin_yields [OF twin_Query_meta(2) [OF assms assms same_but_schedule_refl], of I p f no_service]
  unfolding yields_def by blast+

lemma run_query_loop:
  assumes "wf_gql G"
    and "\<forall>f \<in> set fs. fld_Name f \<in> {''__typename'', ''__type'', ''__schema'', ''users'', ''user''}"
  shows "\<exists>t'. run_fields (Query_loop G I) i fs t = (t', Value (map (loop_value G I) fs, 0)) \<and>
    st t' = st t \<and> set (errs t) \<subseteq> set (errs t')"
  using assms(2)
proof (induction fs arbitrary: i t)
  case Nil
  then show ?case by simp
next
  case (Cons f fs)
  obtain t1 where t1: "Query_loop G I i f t = (t1, Value (loop_value G I f, False))" "st t1 = st t"
      "set (errs t) \<subseteq> set (errs t1)"
    using Cons.prems Query_meta_value [OF assms(1), of I "[]" f t]
    by (auto simp: Query_loop_def loop_value_def delayed_def nullable_field_def)
  from Cons.IH [of "Suc i" t1] Cons.prems t1 show ?case by auto
qed

definition query_indices :: "'sel gfield list \<Rightarrow> nat list" where
  "query_indices fs = [i \<leftarrow> [0..<length fs]. delayed (fs ! i)]"

lemma schedule_indices:
  assumes "wf_gql G"
  shows "distinct (schedule G (query_indices fs))" "set (schedule G (query_indices fs)) = set (query_indices fs)"
  using wf_gqlD(2) [OF assms, of "query_indices fs"]
  by (metis distinct_filter distinct_upt mset_eq_imp_distinct_iff query_indices_def, metis mset_eq_setD)

text \<open>A query, reduced to its root fields' answers in the order of the schedule.\<close>

lemma Query_answers:
  assumes "wf_gql G" "valid_query G sel" "fs = CollectFields G sel [''Query'']"
    and "fold (query_step G rs es fs) (schedule G (query_indices fs)) (st t, map (loop_value G I) fs) = (s, ms)"
  shows "\<exists>t'. Query_object G I rs es sel t =
      (t', Value (if \<exists>i < length fs. fld_Name (fs ! i) = ''users'' \<and> ms ! i = Null then Null
                  else FieldSet (zip (map Alias fs) ms))) \<and>
    st t' = s \<and> length ms = length fs \<and>
    (\<forall>i < length fs. \<not> delayed (fs ! i) \<longrightarrow> ms ! i = loop_value G I (fs ! i)) \<and>
    (\<forall>i < length fs. fld_Name (fs ! i) = ''users'' \<longrightarrow> ms ! i = Null \<longrightarrow> reported (fs ! i) t')"
proof -
  have names: "\<forall>f \<in> set fs. fld_Name f \<in> {''__typename'', ''__type'', ''__schema'', ''users'', ''user''}"
    and subs: "\<forall>f \<in> set fs. delayed f \<longrightarrow> user_sel_ok G (Selections f)"
    using assms(2,3) by (auto simp: valid_query_def delayed_def)
  let ?xs = "schedule G (query_indices fs)"
  note xs = schedule_indices [OF assms(1), of fs]
  have mem: "i \<in> set ?xs \<longleftrightarrow> i < length fs \<and> delayed (fs ! i)" for i
    unfolding xs(2) by (auto simp: query_indices_def)
  obtain t1 where t1: "run_fields (Query_loop G I) 0 fs t = (t1, Value (map (loop_value G I) fs, 0))"
      "st t1 = st t"
    using run_query_loop [OF assms(1) names] by blast
  have ok: "\<forall>i \<in> set ?xs. fld_Name (fs ! i) \<in> {''users'', ''user''} \<and> user_sel_ok G (Selections (fs ! i))"
    using subs by (auto simp: mem delayed_def)
  obtain t' k' where t': "fold (Query_delayed G rs es fs) ?xs (t1, map (loop_value G I) fs, 0) = (t', ms, k')"
      "st t' = s" "length ms = length fs" "\<forall>j. j \<notin> set ?xs \<longrightarrow> ms ! j = map (loop_value G I) fs ! j"
      "0 < k' \<longleftrightarrow> (\<exists>i \<in> set ?xs. fld_Name (fs ! i) = ''users'' \<and> ms ! i = Null)"
      "\<forall>i \<in> set ?xs. fld_Name (fs ! i) = ''users'' \<longrightarrow> ms ! i = Null \<longrightarrow> reported (fs ! i) t'"
    using fold_delayed [OF assms(1) xs(1) _ ok, of "map (loop_value G I) fs" rs es t1 s ms 0] assms(4) t1(2)
    by (auto simp: mem)
  have "Query_object G I rs es sel t = (t', Value (object_value fs (ms, k')))"
    using t1(1) t'(1) assms(3) by (simp add: Query_object_def Let_def query_indices_def)
  moreover have "0 < k' \<longleftrightarrow> (\<exists>i < length fs. fld_Name (fs ! i) = ''users'' \<and> ms ! i = Null)"
    using t'(5) by (auto simp: mem delayed_def)
  ultimately show ?thesis using t' by (auto simp: object_value_def mem delayed_def)
qed

end
