(* ===== verification/Gql_Meta_Types.thy ===== *)
theory Gql_Meta_Types
  imports Gql_Props
begin

text \<open>
  Typing of the executor's values by the schema: the types of \<open>graph/schema.graphqls\<close> and the
  introspection types of the GraphQL specification, and the typing of every introspection value.
\<close>

subsection \<open>Types of values\<close>

definition scalar_ok :: "string \<Rightarrow> marshaler \<Rightarrow> bool" where
  "scalar_ok n m \<longleftrightarrow>
     n = ''ID'' \<and> (\<exists>s. m = MarshalID s) \<or> n = ''Boolean'' \<and> (\<exists>b. m = MarshalBoolean b) \<or>
     n \<in> {''String'', ''__TypeKind'', ''__DirectiveLocation''} \<and> (\<exists>s. m = MarshalString s)"

text \<open>The introspection types, as the GraphQL specification gives them.\<close>

definition schema_meta_Directive :: "field_type list" where
  "schema_meta_Directive =
     [(''name'', [], NonNull (Named ''String'')),
      (''description'', [], Named ''String''),
      (''locations'', [], NonNull (ListOf (NonNull (Named ''__DirectiveLocation'')))),
      (''args'', [], NonNull (ListOf (NonNull (Named ''__InputValue'')))),
      (''isRepeatable'', [], NonNull (Named ''Boolean''))]"

definition schema_meta_EnumValue :: "field_type list" where
  "schema_meta_EnumValue =
     [(''name'', [], NonNull (Named ''String'')),
      (''description'', [], Named ''String''),
      (''isDeprecated'', [], NonNull (Named ''Boolean'')),
      (''deprecationReason'', [], Named ''String'')]"

definition schema_meta_Field :: "field_type list" where
  "schema_meta_Field =
     [(''name'', [], NonNull (Named ''String'')),
      (''description'', [], Named ''String''),
      (''args'', [], NonNull (ListOf (NonNull (Named ''__InputValue'')))),
      (''type'', [], NonNull (Named ''__Type'')),
      (''isDeprecated'', [], NonNull (Named ''Boolean'')),
      (''deprecationReason'', [], Named ''String'')]"

definition schema_meta_InputValue :: "field_type list" where
  "schema_meta_InputValue =
     [(''name'', [], NonNull (Named ''String'')),
      (''description'', [], Named ''String''),
      (''type'', [], NonNull (Named ''__Type'')),
      (''defaultValue'', [], Named ''String'')]"

definition schema_meta_Schema :: "field_type list" where
  "schema_meta_Schema =
     [(''description'', [], Named ''String''),
      (''types'', [], NonNull (ListOf (NonNull (Named ''__Type'')))),
      (''queryType'', [], NonNull (Named ''__Type'')),
      (''mutationType'', [], Named ''__Type''),
      (''subscriptionType'', [], Named ''__Type''),
      (''directives'', [], NonNull (ListOf (NonNull (Named ''__Directive''))))]"

definition schema_meta_Type :: "field_type list" where
  "schema_meta_Type =
     [(''kind'', [], NonNull (Named ''__TypeKind'')),
      (''name'', [], Named ''String''),
      (''description'', [], Named ''String''),
      (''fields'', [(''includeDeprecated'', Named ''Boolean'')], ListOf (NonNull (Named ''__Field''))),
      (''interfaces'', [], ListOf (NonNull (Named ''__Type''))),
      (''possibleTypes'', [], ListOf (NonNull (Named ''__Type''))),
      (''enumValues'', [(''includeDeprecated'', Named ''Boolean'')], ListOf (NonNull (Named ''__EnumValue''))),
      (''inputFields'', [], ListOf (NonNull (Named ''__InputValue''))),
      (''ofType'', [], Named ''__Type''),
      (''specifiedByURL'', [], Named ''String'')]"

text \<open>\<open>Query\<close> has the two fields that the specification adds to it, nullable as gqlgen has them.\<close>

definition query_fields :: "field_type list" where
  "query_fields =
     schema_Query @
       [(''__schema'', [], Named ''__Schema''),
        (''__type'', [(''name'', NonNull (Named ''String''))], Named ''__Type'')]"

definition object_type :: "string \<Rightarrow> field_type list option" where
  "object_type = map_of
     [(''User'', schema_User), (''Mutation'', schema_Mutation),
      (''Query'', query_fields),
      (''__Directive'', schema_meta_Directive), (''__EnumValue'', schema_meta_EnumValue),
      (''__Field'', schema_meta_Field), (''__InputValue'', schema_meta_InputValue),
      (''__Schema'', schema_meta_Schema), (''__Type'', schema_meta_Type)]"

text \<open>
  A value has a type under a selection set: null unless the type ends in \<open>!\<close>, a list of values, or an
  object with one value per collected field, under the field's alias and of the field's type, where
  \<open>__typename\<close> is the type's name.
\<close>

inductive of_type :: "'sel gql \<Rightarrow> 'sel \<Rightarrow> gtype \<Rightarrow> marshaler \<Rightarrow> bool" for G where
  of_null: "of_type G sel (Named n) Null"
| of_scalar: "scalar_ok n m \<Longrightarrow> of_type G sel (Named n) m"
| of_object:
    "object_type n = Some ty \<Longrightarrow>
     list_all2 (\<lambda>f v.
       fld_Name f = ''__typename'' \<and> v = MarshalString n \<or>
       (\<exists>args t. (fld_Name f, args, t) \<in> set ty \<and> of_type G (Selections f) t v))
       (CollectFields G sel [n]) ms \<Longrightarrow>
     of_type G sel (Named n) (FieldSet (zip (map Alias (CollectFields G sel [n])) ms))"
| of_null_list: "of_type G sel (ListOf t) Null"
| of_list: "\<forall>m \<in> set ms. of_type G sel t m \<Longrightarrow> of_type G sel (ListOf t) (MArray ms)"
| of_nonnull: "m \<noteq> Null \<Longrightarrow> of_type G sel t m \<Longrightarrow> of_type G sel (NonNull t) m"

inductive_simps of_type_simps [simp]:
  "of_type G sel (ListOf t) m"
  "of_type G sel (NonNull t) m"

inductive_cases of_NamedE: "of_type G sel (Named n) m"

lemma of_type_Null [simp]: "of_type G sel (Named n) Null"
  by (rule of_null)

definition field_ok :: "'sel gql \<Rightarrow> string \<Rightarrow> 'sel gfield \<Rightarrow> marshaler \<Rightarrow> bool" where
  "field_ok G n f v \<longleftrightarrow>
     fld_Name f = ''__typename'' \<and> v = MarshalString n \<or>
     (\<exists>ty args t. object_type n = Some ty \<and> (fld_Name f, args, t) \<in> set ty \<and> of_type G (Selections f) t v)"

lemma object_of_fields:
  assumes "list_all2 (field_ok G n) (CollectFields G sel [n]) ms" "object_type n \<noteq> None"
  shows "of_type G sel (Named n) (FieldSet (zip (map Alias (CollectFields G sel [n])) ms))"
proof -
  obtain ty where ty: "object_type n = Some ty" using assms(2) by blast
  show ?thesis
    by (rule of_object [OF ty], rule list_all2_mono [OF assms(1)]) (auto simp: field_ok_def ty)
qed

lemma object_types [simp]:
  "object_type ''User'' = Some schema_User" "object_type ''Mutation'' = Some schema_Mutation"
  "object_type ''Query'' = Some query_fields"
  "object_type ''__Directive'' = Some schema_meta_Directive"
  "object_type ''__EnumValue'' = Some schema_meta_EnumValue"
  "object_type ''__Field'' = Some schema_meta_Field"
  "object_type ''__InputValue'' = Some schema_meta_InputValue"
  "object_type ''__Schema'' = Some schema_meta_Schema" "object_type ''__Type'' = Some schema_meta_Type"
  by (simp_all add: object_type_def)

subsection \<open>Typed computations\<close>

definition typed ::
  "'sel gql \<Rightarrow> 'sel \<Rightarrow> gtype \<Rightarrow> ('s exec \<Rightarrow> 's exec \<times> marshaler outcome) \<Rightarrow> bool" where
  "typed G sel ty c \<longleftrightarrow> (\<forall>t m. snd (c t) = Value m \<longrightarrow> of_type G sel ty m)"

named_theorems typed_intros

lemma typed_scalars [typed_intros]:
  "typed G sel (Named ''String'') (\<lambda>t. marshalNString2string G p t s)"
  "typed G sel (Named ''Boolean'') (\<lambda>t. marshalNBoolean2bool G p t b)"
  "typed G sel (Named ''__TypeKind'') (\<lambda>t. marshalNTypeKind2string G p t s)"
  "typed G sel (Named ''__DirectiveLocation'') (\<lambda>t. marshalNDirectiveLocation2string G p t s)"
  "typed G sel (Named ''String'') (\<lambda>t. marshalOString2string t v)"
  by (auto simp: typed_def marshalNString2string_def marshalNBoolean2bool_def marshalNTypeKind2string_def
      marshalNDirectiveLocation2string_def marshalOString2string_def null_checked_def scalar_ok_def
      intro: of_scalar split: option.split)

lemma typed_option [typed_intros]:
  assumes "\<And>y. typed G sel (Named n) (k y)"
  shows "typed G sel (Named n) (\<lambda>t. case x of None \<Rightarrow> (h t, Value Null) | Some y \<Rightarrow> k y t)"
  using assms by (cases x) (auto simp: typed_def)

text \<open>Lists: a null among the elements makes the list null, so the elements of a list are not null.\<close>

lemma fold_marshal_typed:
  assumes "\<And>q x. typed G sel ty (\<lambda>t. elem q t x)"
    and "fold (marshal_element G p elem v) xs (t, ret) = (t', Some ms)"
    and "\<And>ms m. ret = Some ms \<Longrightarrow> m \<in> set ms \<Longrightarrow> m = Null \<or> of_type G sel ty m" "m \<in> set ms"
  shows "m = Null \<or> of_type G sel ty m"
  using assms(2,3)
proof (induction xs arbitrary: t ret)
  case Nil
  then show ?case using assms(4) by simp
next
  case (Cons i xs)
  obtain t1 ret1 where step: "marshal_element G p elem v i (t, ret) = (t1, ret1)" by fastforce
  have "m = Null \<or> of_type G sel ty m" if "ret1 = Some ms'" "m \<in> set ms'" for ms' m
    using step that Cons.prems(2) assms(1) [of "p @ [PathIndex i]" "v ! i"]
    by (auto simp: marshal_element_def typed_def dest!: subsetD [OF set_update_subset_insert]
        split: prod.splits outcome.splits option.splits) (metis snd_conv)+
  then show ?case using Cons.IH [of t1 ret1] Cons.prems(1) step by simp
qed

lemma typed_marshal_list [typed_intros]:
  assumes "\<And>q x. typed G sel ty (\<lambda>t. elem q t x)"
  shows "typed G sel (ListOf (NonNull ty)) (\<lambda>t. marshal_list G p elem t v)"
  unfolding typed_def
proof (intro allI impI)
  fix t m
  assume m: "snd (marshal_list G p elem t v) = Value m"
  obtain t' ret where ret: "fold (marshal_element G p elem v) (schedule G [0..<length v])
      (t, Some (replicate (length v) Null)) = (t', ret)" by fastforce
  show "of_type G sel (ListOf (NonNull ty)) m"
  proof (cases ret)
    case None
    then show ?thesis using m ret by (auto simp: marshal_list_def)
  next
    case (Some ms)
    have init: "y = Null \<or> of_type G sel ty y"
      if "Some (replicate (length v) Null) = Some ms'" "y \<in> set ms'" for ms' y
      using that by auto
    have "x = Null \<or> of_type G sel ty x" if "x \<in> set ms" for x
      by (rule fold_marshal_typed [OF assms ret [unfolded Some] init that])
    then show ?thesis using m ret Some by (auto simp: marshal_list_def split: if_splits)
  qed
qed

lemma typed_marshal_nil_list [typed_intros]:
  assumes "\<And>q x. typed G sel ty (\<lambda>t. elem q t x)"
  shows "typed G sel (ListOf (NonNull ty)) (\<lambda>t. marshal_nil_list G p elem t v)"
  using typed_marshal_list [OF assms] by (cases v) (simp_all add: marshal_nil_list_def typed_def)

subsection \<open>Fields\<close>

definition nullable_type :: "gtype \<Rightarrow> bool" where
  "nullable_type ty \<longleftrightarrow> (\<forall>t. ty \<noteq> NonNull t)"

lemma nullable_types [typed_intros]: "nullable_type (Named n)" "nullable_type (ListOf t)"
  by (simp_all add: nullable_type_def)

lemma of_nullable: "nullable_type ty \<Longrightarrow> of_type G sel ty Null"
  by (cases ty) (simp_all add: nullable_type_def)

lemma meta_field_typed [typed_intros]:
  assumes "nullable_type ty" "\<And>q v. typed G sel ty (\<lambda>t. marshal q t v)"
  shows "of_type G sel ty (snd (meta_field G nonnull marshal p x f t))"
proof (cases x)
  case (Ok v)
  then show ?thesis
    using assms(2) [of "field_path p f" v] of_nullable [OF assms(1), of G sel]
    by (auto simp: meta_field_def Let_def resolved_as_def recovering_def typed_def
        split: prod.splits outcome.splits) (metis snd_conv)
qed (simp_all add: meta_field_def Let_def resolved_as_def recovering_def of_nullable [OF assms(1)])

lemma args_context_typed [typed_intros]:
  assumes "nullable_type ty" "\<And>fc t. of_type G sel ty (snd (k fc t))"
  shows "of_type G sel ty (snd
    (case args_field_context G ob r ch args p f t of (t, Inl x) \<Rightarrow> (t, Null) | (t, Inr fc) \<Rightarrow> k fc t))"
  using assms of_nullable [OF assms(1)] by (auto split: prod.split sum.split)

text \<open>One turn of an object's loop; a field that counts as invalid makes no promise.\<close>

definition step_typed ::
  "'sel gql \<Rightarrow> string \<Rightarrow> field_type list \<Rightarrow> 'sel gfield \<Rightarrow> 's exec \<times> (marshaler \<times> bool) outcome \<Rightarrow> bool" where
  "step_typed G n ty f y \<longleftrightarrow>
     (\<forall>m. snd y = Value (m, False) \<longrightarrow>
        fld_Name f = ''__typename'' \<and> m = MarshalString n \<or>
        (\<exists>args t. (fld_Name f, args, t) \<in> set ty \<and> of_type G (Selections f) t m))"

lemma step_if: "(b \<Longrightarrow> step_typed G n ty f x) \<Longrightarrow> (\<not> b \<Longrightarrow> step_typed G n ty f y) \<Longrightarrow> step_typed G n ty f (if b then x else y)"
  by simp

lemma step_typename: "fld_Name f = ''__typename'' \<Longrightarrow> step_typed G n ty f (t, Value (MarshalString n, False))"
  by (simp add: step_typed_def)

lemma step_unknown: "step_typed G n ty f (unknown_field f t)"
  by (simp add: step_typed_def unknown_field_def)

lemma step_nonnull:
  assumes "of_type G (Selections f) t (snd x)" "\<exists>args. (fld_Name f, args, NonNull t) \<in> set ty"
  shows "step_typed G n ty f (nonnull_field x)"
  using assms by (cases x) (fastforce simp: step_typed_def nonnull_field_def)

lemma step_nullable:
  assumes "of_type G (Selections f) t (snd x)" "\<exists>args. (fld_Name f, args, t) \<in> set ty"
  shows "step_typed G n ty f (nullable_field x)"
  using assms by (cases x) (auto simp: step_typed_def nullable_field_def)

lemma run_fields_typed:
  assumes "\<And>i f t m. f \<in> set fs \<Longrightarrow> snd (step i f t) = Value (m, False) \<Longrightarrow> ok f m"
    and "snd (run_fields step i fs t) = Value (ms, 0)"
  shows "list_all2 ok fs ms"
  using assms
proof (induction fs arbitrary: i t ms)
  case (Cons f fs)
  obtain t1 y where y: "step i f t = (t1, y)" by fastforce
  obtain t2 z where z: "run_fields step (Suc i) fs t1 = (t2, z)" by fastforce
  obtain m ms' where "y = Value (m, False)" "z = Value (ms', 0)" "ms = m # ms'"
    using Cons.prems(2) y z by (auto split: outcome.splits if_splits simp: of_bool_def)
  then show ?case
    using Cons.IH [of "Suc i" t1 ms'] Cons.prems(1) [of f i t m] Cons.prems(1) y z by simp
qed simp

lemma typed_object:
  assumes "object_type n = Some ty" "\<And>i f t. step_typed G n ty f (step i f t)"
  shows "typed G sel (Named n)
    (\<lambda>t. let fs = CollectFields G sel [n] in object_outcome fs (run_fields step 0 fs t))"
  unfolding typed_def Let_def
proof (intro allI impI)
  fix t m
  assume m: "snd (object_outcome (CollectFields G sel [n]) (run_fields step 0 (CollectFields G sel [n]) t)) = Value m"
  obtain t' y where y: "run_fields step 0 (CollectFields G sel [n]) t = (t', y)" by fastforce
  then obtain ms k where v: "y = Value (ms, k)" "m = object_value (CollectFields G sel [n]) (ms, k)"
    using m by (auto simp: object_outcome_def split: outcome.splits)
  show "of_type G sel (Named n) m"
  proof (cases "k = 0")
    case True
    have "list_all2 (field_ok G n) (CollectFields G sel [n]) ms"
      using y v(1) True assms by (intro run_fields_typed [of _ step _ 0 t]) (auto simp: step_typed_def field_ok_def)
    then show ?thesis using v(2) True assms(1) by (simp add: object_value_def object_of_fields)
  next
    case False
    then show ?thesis using v(2) by (simp add: object_value_def)
  qed
qed

subsection \<open>The introspection types\<close>

primrec node_type :: "('ty, 'sc) node \<Rightarrow> string" where
  "node_type (DirectiveNode x) = ''__Directive''"
| "node_type (EnumValueNode x) = ''__EnumValue''"
| "node_type (FieldNode x) = ''__Field''"
| "node_type (InputValueNode x) = ''__InputValue''"
| "node_type (SchemaNode x) = ''__Schema''"
| "node_type (TypeNode x) = ''__Type''"

text \<open>Object functions over typed object functions below.\<close>

locale typed_objects =
  fixes G :: "'sel gql"
    and I :: "('ty, 'sc) introspection"
    and d :: "('sel, 'ty, 'sc, 's) objects"
  assumes node: "typed G sel (Named (node_type x)) (d p sel x)"
begin

lemma below:
  "typed G sel (Named ''__Directive'') (d p sel (DirectiveNode dr))"
  "typed G sel (Named ''__EnumValue'') (d p sel (EnumValueNode ev))"
  "typed G sel (Named ''__Field'') (d p sel (FieldNode mf))"
  "typed G sel (Named ''__InputValue'') (d p sel (InputValueNode iv))"
  "typed G sel (Named ''__Schema'') (d p sel (SchemaNode sc))"
  "typed G sel (Named ''__Type'') (d p sel (TypeNode ty))"
  using node [of sel "DirectiveNode dr" p] node [of sel "EnumValueNode ev" p] node [of sel "FieldNode mf" p]
    node [of sel "InputValueNode iv" p] node [of sel "SchemaNode sc" p] node [of sel "TypeNode ty" p]
  by simp_all

lemma Directive_typed:
  "of_type G (Selections f) (Named ''String'') (snd (meta_Directive_name G p obj f t))"
  "of_type G (Selections f) (Named ''String'') (snd (meta_Directive_description G p obj f t))"
  "of_type G (Selections f) (ListOf (NonNull (Named ''__DirectiveLocation''))) (snd (meta_Directive_locations G p obj f t))"
  "of_type G (Selections f) (ListOf (NonNull (Named ''__InputValue''))) (snd (meta_Directive_args G d p obj f t))"
  "of_type G (Selections f) (Named ''Boolean'') (snd (meta_Directive_isRepeatable G p obj f t))"
  unfolding Directive_defs marshal_defs by (intro typed_intros below)+

lemma Directive_step: "step_typed G ''__Directive'' schema_meta_Directive f (meta_Directive_field G d p obj i f t)"
  unfolding meta_Directive_field_def
  by (intro step_if step_typename step_unknown
      step_nonnull [OF Directive_typed(1)] step_nullable [OF Directive_typed(2)]
      step_nonnull [OF Directive_typed(3)] step_nonnull [OF Directive_typed(4)]
      step_nonnull [OF Directive_typed(5)]) (simp_all add: schema_meta_Directive_def)

lemma Directive_object: "typed G sel (Named ''__Directive'') (meta_Directive G d p sel obj)"
  unfolding meta_Directive_def by (rule typed_object [where ty = schema_meta_Directive]) (simp_all add: object_type_def Directive_step)

lemma EnumValue_typed:
  "of_type G (Selections f) (Named ''String'') (snd (meta_EnumValue_name G p obj f t))"
  "of_type G (Selections f) (Named ''String'') (snd (meta_EnumValue_description G p obj f t))"
  "of_type G (Selections f) (Named ''Boolean'') (snd (meta_EnumValue_isDeprecated G p obj f t))"
  "of_type G (Selections f) (Named ''String'') (snd (meta_EnumValue_deprecationReason G p obj f t))"
  unfolding EnumValue_defs marshal_defs by (intro typed_intros below)+

lemma EnumValue_step: "step_typed G ''__EnumValue'' schema_meta_EnumValue f (meta_EnumValue_field G p obj i f t)"
  unfolding meta_EnumValue_field_def
  by (intro step_if step_typename step_unknown
      step_nonnull [OF EnumValue_typed(1)] step_nullable [OF EnumValue_typed(2)]
      step_nonnull [OF EnumValue_typed(3)] step_nullable [OF EnumValue_typed(4)]) (simp_all add: schema_meta_EnumValue_def)

lemma EnumValue_object: "typed G sel (Named ''__EnumValue'') (meta_EnumValue G p sel obj)"
  unfolding meta_EnumValue_def by (rule typed_object [where ty = schema_meta_EnumValue]) (simp_all add: object_type_def EnumValue_step)

lemma Field_typed:
  "of_type G (Selections f) (Named ''String'') (snd (meta_Field_name G p obj f t))"
  "of_type G (Selections f) (Named ''String'') (snd (meta_Field_description G p obj f t))"
  "of_type G (Selections f) (ListOf (NonNull (Named ''__InputValue''))) (snd (meta_Field_args G d p obj f t))"
  "of_type G (Selections f) (Named ''__Type'') (snd (meta_Field_type G d p obj f t))"
  "of_type G (Selections f) (Named ''Boolean'') (snd (meta_Field_isDeprecated G p obj f t))"
  "of_type G (Selections f) (Named ''String'') (snd (meta_Field_deprecationReason G p obj f t))"
  unfolding Field_defs marshal_defs by (intro typed_intros below)+

lemma Field_step: "step_typed G ''__Field'' schema_meta_Field f (meta_Field_field G d p obj i f t)"
  unfolding meta_Field_field_def
  by (intro step_if step_typename step_unknown
      step_nonnull [OF Field_typed(1)] step_nullable [OF Field_typed(2)]
      step_nonnull [OF Field_typed(3)] step_nonnull [OF Field_typed(4)]
      step_nonnull [OF Field_typed(5)] step_nullable [OF Field_typed(6)]) (simp_all add: schema_meta_Field_def)

lemma Field_object: "typed G sel (Named ''__Field'') (meta_Field G d p sel obj)"
  unfolding meta_Field_def by (rule typed_object [where ty = schema_meta_Field]) (simp_all add: object_type_def Field_step)

lemma InputValue_typed:
  "of_type G (Selections f) (Named ''String'') (snd (meta_InputValue_name G p obj f t))"
  "of_type G (Selections f) (Named ''String'') (snd (meta_InputValue_description G p obj f t))"
  "of_type G (Selections f) (Named ''__Type'') (snd (meta_InputValue_type G d p obj f t))"
  "of_type G (Selections f) (Named ''String'') (snd (meta_InputValue_defaultValue G p obj f t))"
  unfolding InputValue_defs marshal_defs by (intro typed_intros below)+

lemma InputValue_step: "step_typed G ''__InputValue'' schema_meta_InputValue f (meta_InputValue_field G d p obj i f t)"
  unfolding meta_InputValue_field_def
  by (intro step_if step_typename step_unknown
      step_nonnull [OF InputValue_typed(1)] step_nullable [OF InputValue_typed(2)]
      step_nonnull [OF InputValue_typed(3)] step_nullable [OF InputValue_typed(4)]) (simp_all add: schema_meta_InputValue_def)

lemma InputValue_object: "typed G sel (Named ''__InputValue'') (meta_InputValue G d p sel obj)"
  unfolding meta_InputValue_def by (rule typed_object [where ty = schema_meta_InputValue]) (simp_all add: object_type_def InputValue_step)

lemma Schema_typed:
  "of_type G (Selections f) (Named ''String'') (snd (meta_Schema_description G I p obj f t))"
  "of_type G (Selections f) (ListOf (NonNull (Named ''__Type''))) (snd (meta_Schema_types G I d p obj f t))"
  "of_type G (Selections f) (Named ''__Type'') (snd (meta_Schema_queryType G I d p obj f t))"
  "of_type G (Selections f) (Named ''__Type'') (snd (meta_Schema_mutationType G I d p obj f t))"
  "of_type G (Selections f) (Named ''__Type'') (snd (meta_Schema_subscriptionType G I d p obj f t))"
  "of_type G (Selections f) (ListOf (NonNull (Named ''__Directive''))) (snd (meta_Schema_directives G I d p obj f t))"
  unfolding Schema_defs marshal_defs by (intro typed_intros below)+

lemma Schema_step: "step_typed G ''__Schema'' schema_meta_Schema f (meta_Schema_field G I d p obj i f t)"
  unfolding meta_Schema_field_def
  by (intro step_if step_typename step_unknown
      step_nullable [OF Schema_typed(1)] step_nonnull [OF Schema_typed(2)]
      step_nonnull [OF Schema_typed(3)] step_nullable [OF Schema_typed(4)]
      step_nullable [OF Schema_typed(5)] step_nonnull [OF Schema_typed(6)]) (simp_all add: schema_meta_Schema_def)

lemma Schema_object: "typed G sel (Named ''__Schema'') (meta_Schema G I d p sel obj)"
  unfolding meta_Schema_def by (rule typed_object [where ty = schema_meta_Schema]) (simp_all add: object_type_def Schema_step)

lemma Type_typed:
  "of_type G (Selections f) (Named ''__TypeKind'') (snd (meta_Type_kind G I p obj f t))"
  "of_type G (Selections f) (Named ''String'') (snd (meta_Type_name G I p obj f t))"
  "of_type G (Selections f) (Named ''String'') (snd (meta_Type_description G I p obj f t))"
  "of_type G (Selections f) (ListOf (NonNull (Named ''__Field''))) (snd (meta_Type_fields G I d p obj f t))"
  "of_type G (Selections f) (ListOf (NonNull (Named ''__Type''))) (snd (meta_Type_interfaces G I d p obj f t))"
  "of_type G (Selections f) (ListOf (NonNull (Named ''__Type''))) (snd (meta_Type_possibleTypes G I d p obj f t))"
  "of_type G (Selections f) (ListOf (NonNull (Named ''__EnumValue''))) (snd (meta_Type_enumValues G I d p obj f t))"
  "of_type G (Selections f) (ListOf (NonNull (Named ''__InputValue''))) (snd (meta_Type_inputFields G I d p obj f t))"
  "of_type G (Selections f) (Named ''__Type'') (snd (meta_Type_ofType G I d p obj f t))"
  "of_type G (Selections f) (Named ''String'') (snd (meta_Type_specifiedByURL G I p obj f t))"
  unfolding Type_defs marshal_defs by (intro typed_intros below)+

lemma Type_step: "step_typed G ''__Type'' schema_meta_Type f (meta_Type_field G I d p obj i f t)"
  unfolding meta_Type_field_def
  by (intro step_if step_typename step_unknown
      step_nonnull [OF Type_typed(1)] step_nullable [OF Type_typed(2)]
      step_nullable [OF Type_typed(3)] step_nullable [OF Type_typed(4)]
      step_nullable [OF Type_typed(5)] step_nullable [OF Type_typed(6)]
      step_nullable [OF Type_typed(7)] step_nullable [OF Type_typed(8)]
      step_nullable [OF Type_typed(9)] step_nullable [OF Type_typed(10)]) (simp_all add: schema_meta_Type_def)

lemma Type_object: "typed G sel (Named ''__Type'') (meta_Type G I d p sel obj)"
  unfolding meta_Type_def by (rule typed_object [where ty = schema_meta_Type]) (simp_all add: object_type_def Type_step)

end

lemma meta_object_typed: "typed G sel (Named (node_type x)) (meta_object n G I p sel x :: 's exec \<Rightarrow> _)"
proof (induction n arbitrary: p sel x)
  case 0
  then show ?case by (simp add: typed_def)
next
  case (Suc n)
  then have objects: "typed_objects G (meta_object n G I :: (_, _, _, 's) objects)" by unfold_locales
  show ?case
    by (cases x)
      (simp_all add: typed_objects.Directive_object [OF objects] typed_objects.EnumValue_object [OF objects]
        typed_objects.Field_object [OF objects] typed_objects.InputValue_object [OF objects]
        typed_objects.Schema_object [OF objects] typed_objects.Type_object [OF objects])
qed

interpretation introspected: typed_objects G I "meta_objects G I" for G I
  by unfold_locales (simp only: meta_objects_def meta_object_typed)

lemma Query_meta_typed:
  "of_type G (Selections f) (Named ''__Type'') (snd (Query_meta_type G I p f t))"
  "of_type G (Selections f) (Named ''__Schema'') (snd (Query_meta_schema G I p f t))"
  unfolding Query_meta_type_def Query_meta_schema_def fieldContext_Query_meta_type_def
    marshalOmeta_Type2Type_ptr_def marshalOmeta_Schema2Schema_ptr_def
  by (intro typed_intros introspected.below)+

end
