(* ===== verification/Gql_Types.thy ===== *)
theory Gql_Types
  imports Gql_Meta_Types
begin

text \<open>
  Typing of the executor's answers by the schema of \<open>graph/schema.graphqls\<close>, the protocol of the
  response handler, and the independence of a query from its schedule.
\<close>

subsection \<open>Users\<close>

lemma of_User:
  assumes "user_sel_ok G sel"
  shows "of_type G sel (Named ''User'') (user_object G sel u)"
proof -
  have "field_ok G ''User'' f (user_value u f)"
    if "fld_Name f \<in> {''__typename'', ''id'', ''name'', ''email'', ''createdAt'', ''updatedAt'', ''deletedAt''}" for f
  proof (cases "fld_Name f = ''__typename''")
    case False
    then have "\<exists>t. (fld_Name f, [], t) \<in> set schema_User \<and> of_type G (Selections f) t (user_value u f)"
      using that
      by (auto simp: schema_User_def user_value_def scalar_ok_def intro: of_scalar split: option.split)
    then show ?thesis unfolding field_ok_def by auto
  qed (simp add: field_ok_def user_value_def)
  then have "list_all2 (field_ok G ''User'') (CollectFields G sel [''User''])
      (map (user_value u) (CollectFields G sel [''User'']))"
    using assms by (intro list_all2_all_nthI) (auto simp: user_sel_ok_def)
  then show ?thesis unfolding user_object_def Let_def by (rule object_of_fields) simp
qed

text \<open>The answer of a root field has its type, but for the \<open>!\<close> at the top.\<close>

lemma answer_user:
  assumes "user_sel_ok G sel"
  shows "of_type G sel (Named ''User'') (snd (answer (user_or_null G sel) x))"
  using of_User [OF assms]
  by (auto simp: answer_def user_or_null_def split: prod.splits res.splits option.splits)

lemma root_answer_user:
  assumes "fld_Name f \<in> {''createUser'', ''updateUser'', ''user''}" "user_sel_ok G (Selections f)"
  shows "of_type G (Selections f) (Named ''User'') (snd (root_answer G rs e f s))"
proof -
  note u = answer_user [OF assms(2)]
  from assms(1) consider "fld_Name f = ''createUser''" | "fld_Name f = ''updateUser''" | "fld_Name f = ''user''"
    by blast
  then show ?thesis
    by cases (simp_all add: root_answer_def Let_def u split: option.split)
qed

lemma root_answer_delete:
  assumes "fld_Name f = ''deleteUser''"
  shows "of_type G (Selections f) (Named ''Boolean'') (snd (root_answer G rs e f s))"
  using assms
  by (auto simp: root_answer_def Let_def answer_def scalar_ok_def intro: of_scalar
      split: option.splits prod.splits res.splits)

lemma root_answer_users:
  assumes "fld_Name f = ''users''" "user_sel_ok G (Selections f)"
  shows "of_type G (Selections f) (ListOf (NonNull (Named ''User''))) (snd (root_answer G rs e f s))"
  using assms of_User [OF assms(2)]
  by (auto simp: root_answer_def Let_def answer_def split: option.splits prod.splits res.splits)

subsection \<open>Executing a validated operation\<close>

definition root_type :: "operation \<Rightarrow> string" where
  "root_type op = (if op = OpMutation then ''Mutation'' else ''Query'')"

definition root_fields :: "'sel gql \<Rightarrow> operation \<Rightarrow> 'sel \<Rightarrow> 'sel gfield list" where
  "root_fields G op sel = CollectFields G sel [root_type op]"

definition valid_operation :: "'sel gql \<Rightarrow> operation \<Rightarrow> 'sel \<Rightarrow> bool" where
  "valid_operation G op sel \<longleftrightarrow>
     op = OpQuery \<and> valid_query G sel \<or> op = OpMutation \<and> valid_mutation G sel"

lemma schema_members:
  "\<exists>args. (''createUser'', args, NonNull (Named ''User'')) \<in> set schema_Mutation"
  "\<exists>args. (''updateUser'', args, NonNull (Named ''User'')) \<in> set schema_Mutation"
  "\<exists>args. (''deleteUser'', args, NonNull (Named ''Boolean'')) \<in> set schema_Mutation"
  "\<exists>args. (''users'', args, NonNull (ListOf (NonNull (Named ''User'')))) \<in> set query_fields"
  "\<exists>args. (''user'', args, Named ''User'') \<in> set query_fields"
  "\<exists>args. (''__type'', args, Named ''__Type'') \<in> set query_fields"
  "\<exists>args. (''__schema'', args, Named ''__Schema'') \<in> set query_fields"
  by (simp_all add: schema_Mutation_def schema_Query_def query_fields_def)

lemma field_okI:
  "object_type n = Some ty \<Longrightarrow> \<exists>args. (fld_Name f, args, t) \<in> set ty \<Longrightarrow>
   of_type G (Selections f) t m \<Longrightarrow> field_ok G n f m"
  unfolding field_ok_def by blast

lemma loop_value_ok:
  assumes "fld_Name f \<in> {''__typename'', ''__type'', ''__schema''}"
  shows "field_ok G ''Query'' f (loop_value G I f)"
proof -
  note meta = Query_meta_typed [of G f I "[]" no_service]
  from assms consider "fld_Name f = ''__typename''" | "fld_Name f = ''__type''" | "fld_Name f = ''__schema''" by blast
  then show ?thesis
  proof cases
    case 1
    then show ?thesis by (simp add: field_ok_def loop_value_def)
  next
    case 2
    with meta(1) schema_members(6) show ?thesis
      by (intro field_okI [where t = "Named ''__Type''"]) (auto simp: loop_value_def delayed_def)
  next
    case 3
    with meta(2) schema_members(7) show ?thesis
      by (intro field_okI [where t = "Named ''__Schema''"]) (auto simp: loop_value_def delayed_def)
  qed
qed

lemma mutation_field_ok:
  assumes "fld_Name f = ''deleteUser'' \<or>
      fld_Name f \<in> {''createUser'', ''updateUser''} \<and> user_sel_ok G (Selections f)"
    and "root_answer G rs e f s = (s', m)" "m \<noteq> Null"
  shows "field_ok G ''Mutation'' f m"
proof -
  from assms(1) consider "fld_Name f = ''deleteUser''"
    | "fld_Name f \<in> {''createUser'', ''updateUser''}" "user_sel_ok G (Selections f)" by blast
  then show ?thesis
  proof cases
    case 1
    with root_answer_delete [OF 1, of G rs e s] assms(2,3) schema_members(3) show ?thesis
      by (intro field_okI [where t = "NonNull (Named ''Boolean'')"]) auto
  next
    case 2
    with root_answer_user [of f G rs e s] assms(2,3) schema_members(1,2) show ?thesis
      by (intro field_okI [where t = "NonNull (Named ''User'')"]) auto
  qed
qed

lemma mutation_spec_typed:
  assumes "mutation_spec G rs es i fs s = (s', ms)" "Null \<notin> set ms"
    and "\<forall>f \<in> set fs. fld_Name f \<in> {''__typename'', ''deleteUser''} \<or>
      fld_Name f \<in> {''createUser'', ''updateUser''} \<and> user_sel_ok G (Selections f)"
  shows "list_all2 (field_ok G ''Mutation'') fs ms"
  using assms
proof (induction fs arbitrary: i s ms)
  case Nil
  then show ?case by simp
next
  case (Cons f fs)
  obtain s1 m where m: "(if fld_Name f = ''__typename'' then (s, MarshalString ''Mutation'')
      else root_answer G rs (es i) f s) = (s1, m)" by fastforce
  obtain ms' where ms': "mutation_spec G rs es (Suc i) fs s1 = (s', ms')" "ms = m # ms'"
    using Cons.prems(1) m by (auto split: prod.splits)
  have "field_ok G ''Mutation'' f m"
  proof (cases "fld_Name f = ''__typename''")
    case True
    then show ?thesis using m by (simp add: field_ok_def)
  next
    case False
    then show ?thesis
      using m Cons.prems(2,3) ms'(2) by (intro mutation_field_ok [of f G rs "es i" s]) auto
  qed
  then show ?case using Cons.IH [OF ms'(1)] Cons.prems(2,3) ms'(2) by simp
qed

lemma fold_query_values:
  assumes "fold (query_step G rs es fs) xs (s, ms) = (s', ms')" "j < length ms"
    and "j \<in> set xs \<or> (\<exists>s0. ms ! j = snd (root_answer G rs (es j) (fs ! j) s0))"
  shows "\<exists>s0. ms' ! j = snd (root_answer G rs (es j) (fs ! j) s0)"
  using assms
proof (induction xs arbitrary: s ms)
  case Nil
  then show ?case by auto
next
  case (Cons i xs)
  obtain s1 m where m: "root_answer G rs (es i) (fs ! i) s = (s1, m)" by fastforce
  then have step: "fold (query_step G rs es fs) xs (s1, ms[i := m]) = (s', ms')"
    using Cons.prems(1) by (simp add: query_step_def [of G rs es fs i])
  show ?case
  proof (rule Cons.IH [OF step])
    show "j < length (ms[i := m])" using Cons.prems(2) by simp
    show "j \<in> set xs \<or> (\<exists>s0. ms[i := m] ! j = snd (root_answer G rs (es j) (fs ! j) s0))"
      using Cons.prems(2,3) m by (cases "j = i") (auto intro!: exI [of _ s])
  qed
qed

lemma query_field_ok:
  assumes "fld_Name f \<in> {''users'', ''user''}" "user_sel_ok G (Selections f)"
    and "m = snd (root_answer G rs e f s)" "fld_Name f = ''users'' \<Longrightarrow> m \<noteq> Null"
  shows "field_ok G ''Query'' f m"
proof (cases "fld_Name f = ''users''")
  case True
  with root_answer_users [OF True assms(2), of rs e s] assms(3,4) schema_members(4) show ?thesis
    by (intro field_okI [where t = "NonNull (ListOf (NonNull (Named ''User'')))"]) auto
next
  case False
  with root_answer_user [of f G rs e s] assms schema_members(5) show ?thesis
    by (intro field_okI [where t = "Named ''User''"]) auto
qed

lemma query_typed:
  assumes "wf_gql G" "valid_query G sel" "fs = CollectFields G sel [''Query'']"
    and "fold (query_step G rs es fs) (schedule G (query_indices fs)) (s, map (loop_value G I) fs) = (s', ms)"
    and "length ms = length fs"
    and "\<forall>i < length fs. \<not> delayed (fs ! i) \<longrightarrow> ms ! i = loop_value G I (fs ! i)"
    and "\<not> (\<exists>i < length fs. fld_Name (fs ! i) = ''users'' \<and> ms ! i = Null)"
  shows "list_all2 (field_ok G ''Query'') fs ms"
proof (rule list_all2_all_nthI)
  show "length fs = length ms" using assms(5) by simp
  fix i
  assume i: "i < length fs"
  then have f: "fs ! i \<in> set (CollectFields G sel [''Query''])" using assms(3) by simp
  show "field_ok G ''Query'' (fs ! i) (ms ! i)"
  proof (cases "delayed (fs ! i)")
    case True
    then have "i \<in> set (schedule G (query_indices fs))"
      unfolding schedule_indices(2) [OF assms(1)] using i by (simp add: query_indices_def)
    then obtain s0 where "ms ! i = snd (root_answer G rs (es i) (fs ! i) s0)"
      using fold_query_values [OF assms(4)] i by auto
    then show ?thesis
      using True f assms(2,7) i by (intro query_field_ok) (auto simp: delayed_def valid_query_def)
  next
    case False
    then show ?thesis
      using f i assms(2,6) by (auto simp: valid_query_def delayed_def intro!: loop_value_ok)
  qed
qed

text \<open>
  C13: Every operation that passed validation gets a response, no panic escapes, and the data are null
  or an object of the type the schema gives them, whatever the resolvers return: every \<open>!\<close> of
  \<open>schema.graphqls\<close>, and of the introspection types, holds below the root. Null data come with an error whose path begins at one of
  the operation's fields.
\<close>

theorem exec_typed:
  assumes "wf_gql G" "valid_operation G op sel"
  shows "\<exists>t' m. Exec G I rs es op sel (True, t) = ((False, t'), Value (Some \<lparr>Data = Some m, Errors = []\<rparr>)) \<and>
    (if m = Null then \<exists>f \<in> set (root_fields G op sel). reported f t' else of_type G sel (Named (root_type op)) m)"
proof (cases "op = OpMutation")
  case True
  then have valid: "valid_mutation G sel" using assms(2) by (simp add: valid_operation_def)
  let ?fs = "CollectFields G sel [''Mutation'']"
  obtain s ms where ms: "mutation_spec G rs es 0 ?fs (st t) = (s, ms)" by fastforce
  from mutation_spec_typed [OF ms] valid
  have "Null \<notin> set ms \<Longrightarrow> of_type G sel (Named (root_type op)) (FieldSet (zip (map Alias ?fs) ms))"
    using True unfolding valid_mutation_def root_type_def by (auto intro!: object_of_fields)
  moreover obtain t' where
    "Mutation_object G rs es sel t =
      (t', Value (if Null \<in> set ms then Null else FieldSet (zip (map Alias ?fs) ms)))"
    "Null \<in> set ms \<longrightarrow> (\<exists>f \<in> set ?fs. reported f t')"
    using Mutation_answers [OF assms(1) valid ms] by blast
  ultimately show ?thesis using True by (simp add: Exec_def respond_def root_fields_def root_type_def)
next
  case False
  then have valid: "valid_query G sel" and op: "op = OpQuery" using assms(2) by (auto simp: valid_operation_def)
  let ?fs = "CollectFields G sel [''Query'']"
  obtain s ms where ms: "fold (query_step G rs es ?fs) (schedule G (query_indices ?fs))
      (st t, map (loop_value G I) ?fs) = (s, ms)" by fastforce
  from Query_answers [OF assms(1) valid refl ms] obtain t' where
    q: "Query_object G I rs es sel t =
        (t', Value (if \<exists>i < length ?fs. fld_Name (?fs ! i) = ''users'' \<and> ms ! i = Null then Null
                    else FieldSet (zip (map Alias ?fs) ms)))"
      "length ms = length ?fs"
      "\<forall>i < length ?fs. \<not> delayed (?fs ! i) \<longrightarrow> ms ! i = loop_value G I (?fs ! i)"
      "\<forall>i < length ?fs. fld_Name (?fs ! i) = ''users'' \<longrightarrow> ms ! i = Null \<longrightarrow> reported (?fs ! i) t'"
    by blast
  show ?thesis
  proof (cases "\<exists>i < length ?fs. fld_Name (?fs ! i) = ''users'' \<and> ms ! i = Null")
    case True
    then have "\<exists>f \<in> set ?fs. reported f t'" using q(4) nth_mem by blast
    then show ?thesis using q(1) True op by (simp add: Exec_def respond_def root_fields_def root_type_def)
  next
    case False
    from query_typed [OF assms(1) valid refl ms q(2,3) False]
    have "of_type G sel (Named (root_type op)) (FieldSet (zip (map Alias ?fs) ms))"
      using op object_of_fields [of G "''Query''" sel ms] by (simp add: root_type_def)
    then show ?thesis using q(1) False op by (simp add: Exec_def respond_def)
  qed
qed

text \<open>
  C14: A mutation runs its fields one after the other, in the order of the document: the service ends in
  the state that the resolvers' calls leave in that order, each with the arguments of its field. One
  null field makes all of the data null, and undoes nothing: the calls before it and after it have
  taken effect.
\<close>

theorem mutation_serial:
  assumes "wf_gql G" "valid_mutation G sel"
    and "mutation_spec G rs es 0 (CollectFields G sel [''Mutation'']) (st t) = (s, ms)"
  shows "\<exists>t'. Exec G I rs es OpMutation sel (True, t) =
      ((False, t'), Value (Some
         \<lparr>Data = Some (if Null \<in> set ms then Null
                       else FieldSet (zip (map Alias (CollectFields G sel [''Mutation''])) ms)),
          Errors = []\<rparr>)) \<and> st t' = s"
  using Mutation_answers [OF assms] by (auto simp: Exec_def respond_def)

subsection \<open>The schedule\<close>

lemma fold_query_readonly:
  assumes "\<And>e f s. f \<in> set fs \<Longrightarrow> delayed f \<Longrightarrow> fst (root_answer G rs e f s) = s"
    and "\<forall>i \<in> set xs. i < length fs \<and> delayed (fs ! i)" "length ms = length fs"
  shows "fst (fold (query_step G rs es fs) xs (s, ms)) = s"
    "length (snd (fold (query_step G rs es fs) xs (s, ms))) = length fs"
    "j < length fs \<Longrightarrow> snd (fold (query_step G rs es fs) xs (s, ms)) ! j =
      (if j \<in> set xs then snd (root_answer G rs (es j) (fs ! j) s) else ms ! j)"
proof -
  have "\<exists>ms'. fold (query_step G rs es fs) xs (s, ms) = (s, ms') \<and> length ms' = length fs \<and>
      (\<forall>j < length fs. ms' ! j = (if j \<in> set xs then snd (root_answer G rs (es j) (fs ! j) s) else ms ! j))"
    using assms(2,3)
  proof (induction xs arbitrary: ms)
    case Nil
    then show ?case by simp
  next
    case (Cons i xs)
    obtain m where m: "root_answer G rs (es i) (fs ! i) s = (s, m)"
      using assms(1) [of "fs ! i" "es i" s] Cons.prems(1)
      by (cases "root_answer G rs (es i) (fs ! i) s") auto
    have "fold (query_step G rs es fs) (i # xs) (s, ms) = fold (query_step G rs es fs) xs (s, ms[i := m])"
      by (simp add: query_step_def [of G rs es fs i] m)
    then show ?case using Cons.IH [of "ms[i := m]"] Cons.prems m by (auto simp: nth_list_update)
  qed
  then show "fst (fold (query_step G rs es fs) xs (s, ms)) = s"
    "length (snd (fold (query_step G rs es fs) xs (s, ms))) = length fs"
    "j < length fs \<Longrightarrow> snd (fold (query_step G rs es fs) xs (s, ms)) ! j =
      (if j \<in> set xs then snd (root_answer G rs (es j) (fs ! j) s) else ms ! j)"
    by auto
qed

lemma values_schedule [simp]:
  "user_object (G\<lparr>schedule := z\<rparr>) = user_object G"
  "user_or_null (G\<lparr>schedule := z\<rparr>) = user_or_null G"
  by (intro ext, simp add: user_object_def user_or_null_def cong: option.case_cong)+

lemma root_answer_schedule: "root_answer (G\<lparr>schedule := z\<rparr>) rs e f s = root_answer G rs e f s"
  by (simp only: root_answer_def field_Mutation_createUser_argsName_def
      field_Mutation_createUser_argsEmail_def field_Mutation_deleteUser_argsID_def
      field_Mutation_updateUser_argsID_def field_Mutation_updateUser_argsName_def
      field_Mutation_updateUser_argsEmail_def field_Query_user_argsID_def
      field_Query_users_argsPage_def field_Query_users_argsPageSize_def
      unmarshal_schedule values_schedule)

lemma valid_query_schedule: "valid_query (G\<lparr>schedule := z\<rparr>) sel = valid_query G sel"
  by (simp add: valid_query_def user_sel_ok_def)

lemma loop_value_schedule:
  assumes "wf_gql G" "wf_gql H" "same_but_schedule G H"
  shows "loop_value H I = loop_value G I"
  unfolding loop_value_def
  by (intro ext)
    (simp add: twinD(3) [OF twin_Query_meta(1) [OF assms, of I "[]"], of _ no_service no_service, symmetric]
      twinD(3) [OF twin_Query_meta(2) [OF assms, of I "[]"], of _ no_service no_service, symmetric])

lemma same_but_schedule:
  assumes "same_but_schedule G H"
  shows "root_answer H rs e f s = root_answer G rs e f s"
    "CollectFields H = CollectFields G" "valid_query H sel = valid_query G sel"
proof -
  obtain z where "H = G\<lparr>schedule := z\<rparr>" using assms unfolding same_but_schedule_def by blast
  then show "root_answer H rs e f s = root_answer G rs e f s"
    "CollectFields H = CollectFields G" "valid_query H sel = valid_query G sel"
    by (simp_all add: root_answer_schedule valid_query_schedule)
qed

lemma fst_answer [simp]: "fst (answer render x) = fst x"
  by (simp add: answer_def split: prod.split res.split)

text \<open>Resolvers whose query fields only read.\<close>

locale reading_resolvers =
  fixes rs :: "'s resolvers"
  assumes users_read: "fst (rs_Users rs e s page page_size) = s"
    and user_reads: "fst (rs_User rs e s i) = s"
begin

lemma root_answer_reads: "delayed f \<Longrightarrow> fst (root_answer G rs e f s) = s"
  by (auto simp: root_answer_def Let_def delayed_def users_read user_reads split: option.split)

end

text \<open>
  C17: The answer to a query does not depend on the order in which its fields and the elements of its
  lists are computed, as long as the resolvers of its fields only read: any two schedules give the
  same data and leave the service as it was.
\<close>

theorem query_order_irrelevant:
  assumes "wf_gql G" "wf_gql H" "same_but_schedule G H" "valid_query G sel" "reading_resolvers rs"
  shows "\<exists>t1 t2 y. Exec G I rs es OpQuery sel (True, t) = ((False, t1), y) \<and>
    Exec H I rs es OpQuery sel (True, t) = ((False, t2), y) \<and> st t1 = st t \<and> st t2 = st t"
proof -
  let ?fs = "CollectFields G sel [''Query'']"
  let ?run = "\<lambda>G. fold (query_step G rs es ?fs) (schedule G (query_indices ?fs)) (st t, map (loop_value G I) ?fs)"
  note same = same_but_schedule(1) [OF assms(3)] loop_value_schedule [OF assms(1-3), of I]
    same_but_schedule(2,3) [OF assms(3)]
  have idx: "\<forall>i \<in> set (schedule K (query_indices ?fs)). i < length ?fs \<and> delayed (?fs ! i)" if "wf_gql K" for K
    unfolding schedule_indices(2) [OF that] by (auto simp: query_indices_def)
  note reads = reading_resolvers.root_answer_reads [OF assms(5)]
  have roH: "\<And>e f s. f \<in> set ?fs \<Longrightarrow> delayed f \<Longrightarrow> fst (root_answer H rs e f s) = s"
    by (simp add: reads)
  note g = fold_query_readonly [where G = G and rs = rs and fs = ?fs and ms = "map (loop_value G I) ?fs" and
      xs = "schedule G (query_indices ?fs)", OF reads idx [OF assms(1)], simplified]
  note h = fold_query_readonly [where G = H and rs = rs and fs = ?fs and ms = "map (loop_value H I) ?fs" and
      xs = "schedule H (query_indices ?fs)", OF roH idx [OF assms(2)], simplified, unfolded same(2)]
  have "snd (?run G) = snd (?run H)"
    using g(2) h(2)
    by (intro nth_equalityI) (simp_all add: g(3) h(3) same(1,2) schedule_indices(2) [OF assms(1)] schedule_indices(2) [OF assms(2)])
  then have "?run G = (st t, snd (?run G))" "?run H = (st t, snd (?run G))"
    using g(1) h(1) same(2) by (metis prod.collapse)+
  then show ?thesis
    using Query_answers [OF assms(1,4) refl, of rs es t I "st t" "snd (?run G)"]
      Query_answers [OF assms(2) iffD2 [OF same(4) assms(4)], of ?fs rs es t I "st t" "snd (?run G)"] same(3)
    by (auto simp: Exec_def respond_def)
qed

end
