(* ===== verification/Gql_Wired.thy ===== *)
theory Gql_Wired
  imports Gql_Types Rest_Api
begin

text \<open>
  The endpoint as \<open>router.go\<close> wires it, the protocol of its response handler, the two sets of GraphQL
  resolvers compared, and a small library to evaluate the executor on.
\<close>

subsection \<open>A library to evaluate on\<close>

text \<open>
  A selection set is a list of fields, each with its arguments and what is selected below it; there are
  no aliases and no fragments.
\<close>

datatype doc = Doc "item list"
  and item = Item string "(string \<times> gval) list" doc

primrec depth :: "doc \<Rightarrow> nat" and item_depth :: "item \<Rightarrow> nat" where
  "depth (Doc xs) = foldr max (map item_depth xs) 0"
| "item_depth (Item n args below) = Suc (depth below)"

primrec items :: "doc \<Rightarrow> item list" where
  "items (Doc xs) = xs"

primrec item_field :: "item \<Rightarrow> doc gfield" where
  "item_field (Item n args below) =
     \<lparr>fld_Name = n, Alias = n, ArgumentMap = map_of args, Selections = below\<rparr>"

abbreviation leaf :: "string \<Rightarrow> item" where
  "leaf n \<equiv> Item n [] (Doc [])"

definition sample_gql :: "(nat list \<Rightarrow> nat list) \<Rightarrow> doc gql" where
  "sample_gql order =
     \<lparr>CollectFields = (\<lambda>sel tys. map item_field (items sel)),
      HasFieldError = (\<lambda>es p. p \<in> fst ` set es),
      RecoverFunc = (\<lambda>q. ErrorNew ''internal system error''),
      UnmarshalString = (\<lambda>v. case v of VString s \<Rightarrow> Ok s | _ \<Rightarrow> Err (ErrorNew ''not a string'')),
      UnmarshalID = (\<lambda>v. case v of VString s \<Rightarrow> Ok s | _ \<Rightarrow> Err (ErrorNew ''not an ID'')),
      UnmarshalInt = (\<lambda>v. case v of VInt n \<Rightarrow> Ok (word_of_int n) | _ \<Rightarrow> Err (ErrorNew ''not an int'')),
      UnmarshalBoolean = (\<lambda>v. case v of VBool b \<Rightarrow> Ok b | _ \<Rightarrow> Err (ErrorNew ''not a boolean'')),
      CoerceList = (\<lambda>v. case v of VList vs \<Rightarrow> vs | _ \<Rightarrow> [v]),
      schedule = order, nesting = depth\<rparr>"

lemma le_foldr_max: "x \<in> set xs \<Longrightarrow> f x \<le> foldr max (map f xs) (0 :: nat)"
  by (induction xs) (auto simp: le_max_iff_disj)

lemma depth_below: "f \<in> set (map item_field (items sel)) \<Longrightarrow> depth (Selections f) < depth sel"
proof -
  assume "f \<in> set (map item_field (items sel))"
  then obtain x where x: "x \<in> set (items sel)" "f = item_field x" by auto
  have "item_depth x \<le> depth sel" using le_foldr_max [OF x(1), of item_depth] by (cases sel) simp
  then show ?thesis using x(2) by (cases x) simp
qed

lemma wf_sample_gql [simp]: "wf_gql (sample_gql (\<lambda>xs. xs))" "wf_gql (sample_gql rev)"
  using depth_below by (simp_all add: wf_gql_def sample_gql_def del: set_map)

lemma sample_same: "same_but_schedule (sample_gql (\<lambda>xs. xs)) (sample_gql rev)"
  by (simp add: same_but_schedule_def sample_gql_def)

text \<open>A schema with one object type, one scalar and one directive; a type is known by its name.\<close>

definition sample_schema :: "(string, unit) introspection" where
  "sample_schema =
     \<lparr>DisableIntrospection = False, WrapSchema = (),
      WrapTypeFromDef = (\<lambda>n. if n \<in> {''User'', ''ID''} then Some n else None),
      sc_Description = (\<lambda>sc. Value None), sc_Types = (\<lambda>sc. Value [''User'', ''ID'']),
      sc_QueryType = (\<lambda>sc. Value (Some ''User'')), sc_MutationType = (\<lambda>sc. Value None),
      sc_SubscriptionType = (\<lambda>sc. Value None),
      sc_Directives = (\<lambda>sc. Value
        [\<lparr>dr_Name = ''skip'', dr_Description = None, dr_Locations = [''FIELD''], dr_Args = [], dr_IsRepeatable = False\<rparr>]),
      ty_Kind = (\<lambda>ty. if ty = ''User'' then Value ''OBJECT'' else if ty = ''ID'' then Value ''SCALAR'' else Panics ''unknown type''),
      ty_Name = (\<lambda>ty. Value (Some ty)), ty_Description = (\<lambda>ty. Value None),
      ty_Fields = (\<lambda>ty deprecated. Value (if ty = ''User'' then Some
        [\<lparr>mf_Name = ''id'', mf_Description = None, mf_Args = [], mf_Type = Some ''ID'', mf_IsDeprecated = False,
          mf_DeprecationReason = None\<rparr>] else None)),
      ty_Interfaces = (\<lambda>ty. Value None), ty_PossibleTypes = (\<lambda>ty. Value None),
      ty_EnumValues = (\<lambda>ty deprecated. Value None), ty_InputFields = (\<lambda>ty. Value None),
      ty_OfType = (\<lambda>ty. Value None), ty_SpecifiedByURL = (\<lambda>ty. Value None)\<rparr>"

text \<open>Twin executions of introspection, with two schedules.\<close>

interpretation sample_twins: twin_objects "sample_gql (\<lambda>xs. xs)" "sample_gql rev" I
    "meta_object n (sample_gql (\<lambda>xs. xs)) I" "meta_object n (sample_gql rev) I" for I n
  by unfold_locales
    (simp_all only: wf_sample_gql sample_same twin_meta_object [OF wf_sample_gql sample_same]
      twin_meta_object_self [OF wf_sample_gql(2)])

text \<open>A query for the fields of a type and their types, and for the schema's directives.\<close>

definition sample_introspection :: doc where
  "sample_introspection = Doc
     [Item ''__type'' [(''name'', VString ''User'')] (Doc
        [leaf ''kind'', leaf ''name'',
         Item ''fields'' [(''includeDeprecated'', VBool True)] (Doc
           [leaf ''name'', Item ''type'' [] (Doc [leaf ''__typename'', leaf ''name'', leaf ''ofType''])])]),
      Item ''__schema'' [] (Doc [Item ''directives'' [] (Doc [leaf ''name'', leaf ''locations''])])]"

definition sample_mutation :: doc where
  "sample_mutation = Doc
     [Item ''createUser'' [(''name'', VString ''Bob''), (''email'', VString ''bob@example.org'')] (Doc [leaf ''id'']),
      Item ''deleteUser'' [(''id'', VString [])] (Doc [])]"

lemma valid_sample_mutation [simp]: "valid_mutation (sample_gql order) sample_mutation"
  by (simp add: valid_mutation_def user_sel_ok_def sample_gql_def sample_mutation_def)

abbreviation sample_exec :: "mem_repo exec" where
  "sample_exec \<equiv> \<lparr>st = \<lparr>users = []\<rparr>, errs = []\<rparr>"

abbreviation sample_resolvers :: "mem_repo resolvers" where
  "sample_resolvers \<equiv> user_resolvers sample_http sample_codecs mem_service"

text \<open>Of two mutation fields the second fails: the data are null and the user of the first is there.\<close>

theorem mutation_serial_witness:
  "\<exists>t. Exec (sample_gql (\<lambda>xs. xs)) sample_schema sample_resolvers (\<lambda>i. sample_env) OpMutation sample_mutation (True, sample_exec) =
      ((False, t), Value (Some \<lparr>Data = Some Null, Errors = []\<rparr>)) \<and>
    map fst (users (st t)) = [7]"
proof -
  let ?spec = "mutation_spec (sample_gql (\<lambda>xs. xs)) sample_resolvers (\<lambda>i. sample_env) 0
      (CollectFields (sample_gql (\<lambda>xs. xs)) sample_mutation [''Mutation'']) (st sample_exec)"
  have "map fst (users (fst ?spec)) = [7] \<and> Null \<in> set (snd ?spec)" by code_simp
  then show ?thesis
    using mutation_serial [where I = sample_schema and rs = sample_resolvers and es = "\<lambda>i. sample_env" and t = sample_exec,
        OF wf_sample_gql(1) valid_sample_mutation prod.collapse [symmetric]]
    by auto
qed

theorem exec_typed_witness:
  "\<exists>t m. Exec (sample_gql rev) sample_schema sample_resolvers (\<lambda>i. sample_env) OpMutation sample_mutation (True, sample_exec) =
      ((False, t), Value (Some \<lparr>Data = Some m, Errors = []\<rparr>))"
  using exec_typed [OF wf_sample_gql(2), of OpMutation sample_mutation sample_schema sample_resolvers "\<lambda>i. sample_env" sample_exec]
  by (auto simp: valid_operation_def)

text \<open>The two query fields over the in-memory store only read.\<close>

interpretation mem_reading: reading_resolvers "user_resolvers he cd mem_service" for he cd
proof
  fix e s i page page_size
  have get: "fst (mem_Get e s i) = s" for i by (simp add: mem_Get_live split: option.split)
  have list: "fst (mem_List e s p z) = s" for p z using mem.list_state by simp
  show "fst (rs_Users (user_resolvers he cd mem_service) e s page page_size) = s"
    using list
    by (auto simp: user_resolvers_def q_Users_def service_List_def Let_def split: prod.splits res.splits)
      (metis fst_conv)+
  show "fst (rs_User (user_resolvers he cd mem_service) e s i) = s"
    using get
    by (auto simp: user_resolvers_def q_User_def service_Get_def split: prod.splits res.splits sum.splits)
      (metis fst_conv)+
qed

definition sample_query :: doc where
  "sample_query = Doc
     (Item ''users'' [] (Doc [leaf ''name'']) # Item ''user'' [(''id'', VString ''x'')] (Doc [leaf ''email'']) #
      items sample_introspection)"

theorem query_order_irrelevant_witness:
  "\<exists>t1 t2 y.
     Exec (sample_gql (\<lambda>xs. xs)) sample_schema sample_resolvers (\<lambda>i. sample_env) OpQuery sample_query (True, sample_exec) =
       ((False, t1), y) \<and>
     Exec (sample_gql rev) sample_schema sample_resolvers (\<lambda>i. sample_env) OpQuery sample_query (True, sample_exec) =
       ((False, t2), y)"
proof -
  have valid: "valid_query (sample_gql (\<lambda>xs. xs)) sample_query"
    by (simp add: valid_query_def user_sel_ok_def sample_gql_def sample_query_def sample_introspection_def)
  from query_order_irrelevant [OF wf_sample_gql sample_same valid mem_reading.reading_resolvers_axioms]
  show ?thesis by blast
qed

subsection \<open>The wired resolvers\<close>

interpretation wired_reading: reading_resolvers Resolver
  by unfold_locales (simp_all add: Resolver_def Resolver_defs)

lemma root_answer_Resolver:
  "fld_Name f \<noteq> ''__typename'' \<Longrightarrow> root_answer G Resolver e f s = (s, Null)"
  by (simp add: root_answer_def Let_def Resolver_def Resolver_defs answer_def split: option.split)

lemma mutation_spec_Resolver:
  "mutation_spec G Resolver es i fs s =
    (s, map (\<lambda>f. if fld_Name f = ''__typename'' then MarshalString ''Mutation'' else Null) fs)"
  by (induction fs arbitrary: i) (simp_all add: root_answer_Resolver)

text \<open>
  C15: The GraphQL endpoint does nothing: with the resolvers that \<open>router.go\<close> gives it, whose methods
  are the generated panics, no operation reads or changes a user, every field but \<open>__typename\<close> and the
  introspection is null, and a mutation's or a listing's data are null as a whole.
\<close>

theorem gql_endpoint_inert:
  assumes "wf_gql G" "valid_operation G op sel"
  shows "\<exists>t' m. Exec G I Resolver es op sel (True, t) = ((False, t'), Value (Some \<lparr>Data = Some m, Errors = []\<rparr>)) \<and>
    st t' = st t \<and>
    ((\<exists>f \<in> set (root_fields G op sel). fld_Name f \<in> {''createUser'', ''updateUser'', ''deleteUser'', ''users''}) \<longrightarrow>
      m = Null) \<and>
    (m \<noteq> Null \<longrightarrow> (\<exists>ms. m = FieldSet (zip (map Alias (root_fields G op sel)) ms) \<and>
      (\<forall>i < length (root_fields G op sel). fld_Name (root_fields G op sel ! i) = ''user'' \<longrightarrow> ms ! i = Null)))"
proof (cases "op = OpMutation")
  case True
  then have valid: "valid_mutation G sel" using assms(2) by (simp add: valid_operation_def)
  let ?fs = "CollectFields G sel [''Mutation'']"
  let ?ms = "map (\<lambda>f. if fld_Name f = ''__typename'' then MarshalString ''Mutation'' else Null) ?fs"
  have "fld_Name (?fs ! i) \<noteq> ''user''" if "i < length ?fs" for i
    using valid nth_mem [OF that] by (auto simp: valid_mutation_def)
  then show ?thesis
    using Mutation_answers [OF assms(1) valid mutation_spec_Resolver, of es t] True
    by (auto simp: Exec_def respond_def root_fields_def root_type_def image_iff)
next
  case False
  then have valid: "valid_query G sel" and op: "op = OpQuery" using assms(2) by (auto simp: valid_operation_def)
  let ?fs = "CollectFields G sel [''Query'']"
  have idx: "\<forall>i \<in> set (schedule G (query_indices ?fs)). i < length ?fs \<and> delayed (?fs ! i)"
    unfolding schedule_indices(2) [OF assms(1)] by (auto simp: query_indices_def)
  let ?run = "fold (query_step G Resolver es ?fs) (schedule G (query_indices ?fs)) (st t, map (loop_value G I) ?fs)"
  note run = fold_query_readonly [where G = G and rs = Resolver and fs = ?fs and ms = "map (loop_value G I) ?fs" and
      xs = "schedule G (query_indices ?fs)", OF wired_reading.root_answer_reads idx, simplified]
  have null: "snd ?run ! i = Null" if "i < length ?fs" "delayed (?fs ! i)" for i
    using that
    by (subst run(3) [OF that(1)], subst root_answer_Resolver)
      (auto simp: schedule_indices(2) [OF assms(1)] query_indices_def delayed_def loop_value_def)
  have run0: "?run = (st t, snd ?run)" by (rule prod_eqI) (simp_all only: run(1) prod.sel)
  obtain t' where t': "Query_object G I Resolver es sel t =
      (t', Value (if \<exists>i < length ?fs. fld_Name (?fs ! i) = ''users'' \<and> snd ?run ! i = Null then Null
                  else FieldSet (zip (map Alias ?fs) (snd ?run))))" "st t' = st t"
    using Query_answers [OF assms(1) valid refl run0] by blast
  show ?thesis
  proof (cases "\<exists>f \<in> set ?fs. fld_Name f = ''users''")
    case True
    then obtain i where i: "i < length ?fs" "fld_Name (?fs ! i) = ''users''"
      by (auto simp: in_set_conv_nth)
    then have "\<exists>i < length ?fs. fld_Name (?fs ! i) = ''users'' \<and> snd ?run ! i = Null"
      using null [of i] by (auto simp: delayed_def)
    then have "Query_object G I Resolver es sel t = (t', Value Null)" using t'(1) by (simp only: if_True)
    then show ?thesis using t'(2) op by (simp add: Exec_def respond_def)
  next
    case False
    then have "\<not> (\<exists>i < length ?fs. fld_Name (?fs ! i) = ''users'' \<and> snd ?run ! i = Null)" by auto
    then have "Query_object G I Resolver es sel t = (t', Value (FieldSet (zip (map Alias ?fs) (snd ?run))))"
      using t'(1) by (simp only: if_False)
    moreover have "\<not> (\<exists>f \<in> set ?fs. fld_Name f \<in> {''createUser'', ''updateUser'', ''deleteUser'', ''users''})"
      using valid False by (auto simp: valid_query_def)
    moreover have "\<forall>i < length ?fs. fld_Name (?fs ! i) = ''user'' \<longrightarrow> snd ?run ! i = Null"
      using null by (simp add: delayed_def)
    ultimately show ?thesis
      using t'(2) op unfolding Exec_def respond_def root_fields_def root_type_def by simp blast
  qed
qed

theorem gql_endpoint_inert_witness:
  "\<exists>t. Exec (sample_gql rev) sample_schema Resolver (\<lambda>i. sample_env) OpMutation sample_mutation (True, sample_exec) =
    ((False, t), Value (Some \<lparr>Data = Some Null, Errors = []\<rparr>)) \<and> st t = \<lparr>users = []\<rparr>"
proof -
  have valid: "valid_operation (sample_gql rev) OpMutation sample_mutation"
    by (simp add: valid_operation_def)
  have "\<exists>f \<in> set (root_fields (sample_gql rev) OpMutation sample_mutation). fld_Name f = ''createUser''"
    by (simp add: root_fields_def root_type_def sample_gql_def sample_mutation_def)
  with gql_endpoint_inert [OF wf_sample_gql(2) valid, of sample_schema "\<lambda>i. sample_env" sample_exec] show ?thesis
    by auto
qed

subsection \<open>The response handler\<close>

text \<open>What a transport sees that calls the handler \<open>n\<close> times.\<close>

primrec polls ::
  "nat \<Rightarrow> 'sel gql \<Rightarrow> ('ty, 'sc) introspection \<Rightarrow> 's resolvers \<Rightarrow> (nat \<Rightarrow> env) \<Rightarrow> operation \<Rightarrow> 'sel \<Rightarrow> bool \<times> 's exec \<Rightarrow>
   (bool \<times> 's exec) \<times> gql_response option outcome list" where
  "polls 0 G I rs es op sel h = (h, [])"
| "polls (Suc n) G I rs es op sel h =
     (case Exec G I rs es op sel h of (h, y) \<Rightarrow>
        (case polls n G I rs es op sel h of (h, ys) \<Rightarrow> (h, y # ys)))"

lemma polls_after: "polls n G I rs es op sel (False, t) = ((False, t), replicate n (Value None))"
  by (induction n) (simp_all add: Exec_def)

lemma Exec_first: "\<exists>t'. fst (Exec G I rs es op sel (True, t)) = (False, t')"
  by (cases op) (auto simp: Exec_def respond_def split: prod.split outcome.split)

text \<open>
  The response handler answers once: the first call gives the response, whatever the operation,
  and every later call gives nil and executes nothing, so a transport that reads responses until nil
  stops after the first one.
\<close>

theorem exec_answers_once:
  "\<exists>t' y. Exec G I rs es op sel (True, t) = ((False, t'), y) \<and> y \<noteq> Value None \<and>
    polls (Suc n) G I rs es op sel (True, t) = ((False, t'), y # replicate n (Value None))"
proof -
  obtain t' y where "Exec G I rs es op sel (True, t) = ((False, t'), y)"
    using Exec_first [of G I rs es op sel t] by (metis prod.collapse)
  moreover from this have "y \<noteq> Value None"
    by (auto simp: Exec_def respond_def split: operation.splits prod.splits outcome.splits)
  ultimately show ?thesis by (simp add: polls_after)
qed

subsection \<open>The two sets of resolvers\<close>

text \<open>The map of \<open>schema.go\<close> that says the same as a \<open>model.User\<close>.\<close>

definition user_map :: "model_user \<Rightarrow> gval" where
  "user_map u =
     VMap ([(''id'', VString (mu_ID u)), (''name'', VString (mu_Name u)), (''email'', VString (mu_Email u)),
            (''createdAt'', VString (mu_CreatedAt u)), (''updatedAt'', VString (mu_UpdatedAt u))] @
           (case mu_DeletedAt u of None \<Rightarrow> [] | Some d \<Rightarrow> [(''deletedAt'', VString d)]))"

definition rendered :: "('a \<Rightarrow> gval) \<Rightarrow> 's \<times> 'a res \<Rightarrow> 's \<times> gval res" where
  "rendered f x = map_prod (\<lambda>s. s) (map_res f) x"

lemma schema_convertUser_map:
  "schema_convertUser he (Some u) = user_map (the (convertUser he (Some u)))"
  by (simp add: schema_convertUser_def convertUser_def user_map_def split: option.split)


definition sample_args :: "string \<Rightarrow> gval option" where
  "sample_args = map_of [(''id'', VString ''x''), (''name'', VString ''Al''), (''email'', VString ''al@b'')]"


end
