(* ===== verification/Gql_Introspect.thy ===== *)
theory Gql_Introspect
  imports Gql_Wired
begin

text \<open>
  What introspection promises: the recursion of its object functions is the code's, its fields read the
  schema and nothing else, and they give values of the types of the GraphQL specification.
\<close>


text \<open>The type \<open>User\<close> of the sample, three selections deep.\<close>

definition sample_type_doc :: doc where
  "sample_type_doc = Doc
     [leaf ''kind'', Item ''fields'' [] (Doc [leaf ''name'', Item ''type'' [] (Doc [leaf ''name''])])]"


subsection \<open>The introspection fields of a query\<close>

text \<open>With introspection disabled the two fields are null, and the error is at the field.\<close>

lemma failed_field:
  assumes "\<And>v. x \<noteq> Ok v"
  shows "\<exists>t'. meta_field G nonnull marshal [] x f t = (t', Null) \<and> reported f t'"
  using assms
  by (cases x) (auto simp: meta_field_def Let_def resolved_as_def recovering_def)

lemma disabled_fields:
  assumes "DisableIntrospection I"
  shows "\<exists>t'. Query_meta_type G I [] f t = (t', Null) \<and> reported f t'"
    "\<exists>t'. Query_meta_schema G I [] f t = (t', Null) \<and> reported f t'"
proof -
  show "\<exists>t'. Query_meta_schema G I [] f t = (t', Null) \<and> reported f t'"
    unfolding Query_meta_schema_def by (rule failed_field) (simp add: introspectSchema_def assms)
  show "\<exists>t'. Query_meta_type G I [] f t = (t', Null) \<and> reported f t'"
  proof (cases "given (field_Query_meta_type_args G (field_path [] f) (ArgumentMap f))")
    case None
    have "on_path (field_path [] f) (field_Query_meta_type_args G (field_path [] f) (ArgumentMap f))"
      unfolding field_Query_meta_type_args_def
      by (auto simp: field_Query_meta_type_argsName_def unmarshalNString2string_def intro!: on_path)
    from context_fails [of "field_Query_meta_type_args G", OF None this, of G "''Query''" False "ChildrenOf ''__Type''" t]
    show ?thesis by (auto simp: Query_meta_type_def fieldContext_Query_meta_type_def)
  next
    case (Some a)
    let ?fc = "FieldContext ''Query'' f True False (ChildrenOf ''__Type'') a"
    have "fieldContext_Query_meta_type G [] f t = (t, Inr ?fc)"
      using Some unfolding fieldContext_Query_meta_type_def args_field_context_def given_def
      by (auto split: outcome.splits sum.splits)
    moreover have "bind_res (as_string (Args ?fc) ''name'') (introspectType I) \<noteq> Ok v" for v
      by (cases "as_string (Args ?fc) ''name''") (simp_all add: introspectType_def assms)
    ultimately show ?thesis
      unfolding Query_meta_type_def
      using failed_field [of "bind_res (as_string (Args ?fc) ''name'') (introspectType I)"] by simp
  qed
qed

text \<open>
  A field of \<open>Query\<close> that gives one value of the type, in every state and under both schedules, and leaves
  the service alone; where introspection is disabled that value is null and comes with an error.
\<close>

definition introspects ::
  "'sel gql \<Rightarrow> 'sel gql \<Rightarrow> ('ty, 'sc) introspection \<Rightarrow> 'sel gfield \<Rightarrow> string \<Rightarrow>
   ('sel gql \<Rightarrow> ('ty, 'sc) introspection \<Rightarrow> path \<Rightarrow> 'sel gfield \<Rightarrow> 's exec \<Rightarrow> 's exec \<times> marshaler) \<Rightarrow> bool" where
  "introspects G H I f n field \<longleftrightarrow>
     (\<exists>m. of_type G (Selections f) (Named n) m \<and>
       (\<forall>t u. \<exists>t' u'. field G I [] f t = (t', m) \<and> field H I [] f u = (u', m) \<and> st t' = st t \<and>
         set (errs t) \<subseteq> set (errs t') \<and> (DisableIntrospection I \<longrightarrow> m = Null \<and> reported f t')))"

lemma introspectsI:
  assumes "twin (field G I [] f) (field H I [] f)"
    and "\<And>t. of_type G (Selections f) (Named n) (snd (field G I [] f t))"
    and "\<And>t. DisableIntrospection I \<Longrightarrow> \<exists>t'. field G I [] f t = (t', Null) \<and> reported f t'"
  shows "introspects G H I f n field"
  unfolding introspects_def
proof (intro exI [of _ "snd (field G I [] f undefined)"] conjI allI)
  show "of_type G (Selections f) (Named n) (snd (field G I [] f undefined))" by (rule assms(2))
next
  fix t u
  obtain t' u' m where m: "field G I [] f t = (t', m)" "field H I [] f u = (u', m)" "st t' = st t"
      "set (errs t) \<subseteq> set (errs t')"
    using twinE [OF assms(1)] .
  moreover have "snd (field G I [] f undefined) = m"
    using twinD(3) [OF assms(1), of undefined u] m(2) by simp
  ultimately show "\<exists>t' u'. field G I [] f t = (t', snd (field G I [] f undefined)) \<and>
      field H I [] f u = (u', snd (field G I [] f undefined)) \<and> st t' = st t \<and> set (errs t) \<subseteq> set (errs t') \<and>
      (DisableIntrospection I \<longrightarrow> snd (field G I [] f undefined) = Null \<and> reported f t')"
    using assms(3) [of t] by auto
qed

text \<open>
  C16: The introspection fields read the schema and nothing else: \<open>__type\<close> and \<open>__schema\<close> leave the
  service as it was, give the same value in every state and in whatever order the elements of lists are
  finished, and the value is null or of the type of the GraphQL specification, with every \<open>!\<close> below it,
  also where the schema's methods panic. With introspection disabled it is null, with an error.
\<close>

theorem introspection_reads_schema:
  assumes "wf_gql G" "wf_gql H" "same_but_schedule G H"
  shows "introspects G H I f ''__Type'' Query_meta_type \<and> introspects G H I f ''__Schema'' Query_meta_schema"
  using twin_Query_meta [OF assms, of I "[]" f] Query_meta_typed [of G f I "[]"] disabled_fields [of I G f]
  by (intro conjI introspectsI) blast+

theorem introspection_reads_schema_witness:
  "introspects (sample_gql (\<lambda>xs. xs)) (sample_gql rev) sample_schema
     (item_field (Item ''__type'' [(''name'', VString ''User'')] sample_type_doc)) ''__Type''
     (Query_meta_type :: _ \<Rightarrow> _ \<Rightarrow> _ \<Rightarrow> _ \<Rightarrow> unit exec \<Rightarrow> _) \<and>
   introspects (sample_gql (\<lambda>xs. xs)) (sample_gql rev) sample_schema (item_field (leaf ''__schema'')) ''__Schema''
     (Query_meta_schema :: _ \<Rightarrow> _ \<Rightarrow> _ \<Rightarrow> _ \<Rightarrow> unit exec \<Rightarrow> _)"
  using introspection_reads_schema [OF wf_sample_gql sample_same, of sample_schema] by blast

end
