(* ===== verification/Server.thy ===== *)
theory Server
  imports Router_Props Cached_Mem Pg_Repo
begin

text \<open>
  The start of \<open>cmd/server/main.go\<close>, with \<open>internal/log/logger.go\<close> and
  \<open>internal/storage/postgres/db.go\<close>: from the process's environment to the service that the router is
  given. zap, the database driver, the Redis client and Ristretto are the record \<open>outside\<close>. The
  listener, the signals and the shutdown that follow are I/O.
\<close>

record ('h, 'l, 'd) outside =
  environ :: getenv
  uni_lower :: "string \<Rightarrow> string"
  ParseDuration :: "string \<Rightarrow> gerr + int"
  zap_level :: "bool \<Rightarrow> string \<Rightarrow> gerr option"
  zap_Build :: "bool \<Rightarrow> gerr option"
  sql_Open :: "string \<Rightarrow> string \<Rightarrow> gerr + 'h"
  sql_limits :: "'h \<Rightarrow> nat \<Rightarrow> nat \<Rightarrow> int \<Rightarrow> 'h"
  sql_Ping :: "'h \<Rightarrow> gerr option"
  redis_NewClient :: "string \<Rightarrow> string \<Rightarrow> go_int \<Rightarrow> 'd"
  redis_Ping :: "'d \<Rightarrow> gerr option"
  ristretto_NewCache :: "go_int \<Rightarrow> go_int \<Rightarrow> go_int \<Rightarrow> gerr + 'l"

subsection \<open>Logger and database\<close>

text \<open>
  \<open>log.New\<close>: the production or the development configuration of zap, the level read into it, then
  built; the error, if any.
\<close>

definition log_New :: "('h, 'l, 'd) outside \<Rightarrow> string \<Rightarrow> string \<Rightarrow> gerr option" where
  "log_New w env lvl =
     (let prod = (env = ''prod'') in
      case (if lvl = [] then None else zap_level w prod lvl) of
        Some f \<Rightarrow> Some f
      | None \<Rightarrow> zap_Build w prod)"

definition pg_Open :: "('h, 'l, 'd) outside \<Rightarrow> string \<Rightarrow> gerr + 'h" where
  "pg_Open w dsn =
     (case sql_Open w ''pgx'' dsn of
        Inl f \<Rightarrow> Inl f
      | Inr db \<Rightarrow>
          (let db = sql_limits w db 25 25 (30 * 60 * 1000000000)
           in case sql_Ping w db of Some f \<Rightarrow> Inl f | None \<Rightarrow> Inr db))"

subsection \<open>Wiring\<close>

text \<open>A client whose ping fails is dropped.\<close>

definition connect_redis :: "('h, 'l, 'd) outside \<Rightarrow> config \<Rightarrow> 'd option" where
  "connect_redis w cfg =
     (if RedisAddr cfg = [] then None
      else let rdb = redis_NewClient w (RedisAddr cfg) (RedisPassword cfg) (RedisDB cfg)
           in case redis_Ping w rdb of Some f \<Rightarrow> None | None \<Rightarrow> Some rdb)"

text \<open>A cache that cannot be built is nil, which \<open>NewCachedUserService\<close> takes for no cache.\<close>

definition make_cache :: "('h, 'l, 'd) outside \<Rightarrow> config \<Rightarrow> ('l, 'd) layered option" where
  "make_cache w cfg =
     (case cache_New (ristretto_NewCache w)
             \<lparr>MaxCost = CacheMaxCost cfg, NumCounters = CacheNumCounters cfg,
              BufferItems = CacheBufferItems cfg, TTL = 5 * 60 * 1000000000,
              RedisClient = connect_redis w cfg\<rparr> of
        Ok c \<Rightarrow> Some c
      | Err f \<Rightarrow> None
      | Panic q \<Rightarrow> None)"

text \<open>\<open>main\<close> up to the router: a fatal error, or the service's state over one of the two stores.\<close>

datatype ('h, 'l, 'd) started =
    Fatal string gerr
  | ServeMemory config "mem_repo + (mem_repo, ('l, 'd) layered) cached"
  | ServePostgres config 'h "'h + ('h, ('l, 'd) layered) cached"

definition main :: "('h, 'l, 'd) outside \<Rightarrow> ('h, 'l, 'd) started" where
  "main w =
     (case Load (uni_lower w) (ParseDuration w) (environ w) of
        Err f \<Rightarrow> Fatal ''config error'' f
      | Panic q \<Rightarrow> Fatal q (ErrorNew q)
      | Ok cfg \<Rightarrow>
          (case log_New w (Env cfg) (LogLevel cfg) of
             Some f \<Rightarrow> Fatal ''logger init error'' f
           | None \<Rightarrow>
               if InMemory cfg
               then ServeMemory cfg (NewCachedUserService NewInMemoryUserRepo (make_cache w cfg))
               else case pg_Open w (DBDSN cfg) of
                 Inl f \<Rightarrow> Fatal ''db open'' f
               | Inr db \<Rightarrow> ServePostgres cfg db (NewCachedUserService db (make_cache w cfg))))"

text \<open>What the router is given; \<open>ping\<close> is \<open>None\<close> for the nil \<open>*sql.DB\<close> of the in-memory mode.\<close>

definition main_deps ::
  "('s, 't) svc_ops \<Rightarrow> config \<Rightarrow> (http_env \<Rightarrow> 's \<Rightarrow> gerr option) option \<Rightarrow> ('s, 't) deps" where
  "main_deps ops cfg ping =
     \<lparr>UserSvc = ops, CFG = cfg, has_registry = True, Version = ''dev'', Commit = ''none'',
      BuildDate = ''unknown'', db_ping = ping\<rparr>"

text \<open>\<open>cmd/api/main.go\<close>: the only handler of the placeholder server.\<close>

definition api_healthz :: "'s plain" where
  "api_healthz he r s = (s, [SendBody ''ok''], Returned)"

subsection \<open>Starting\<close>

text \<open>The store \<open>main\<close> needs: none in memory, an opened database that answers its ping otherwise.\<close>

definition store_ready :: "('h, 'l, 'd) outside \<Rightarrow> config \<Rightarrow> bool" where
  "store_ready w cfg \<longleftrightarrow>
     InMemory cfg \<or>
     (\<exists>db. sql_Open w ''pgx'' (DBDSN cfg) = Inr db \<and>
       sql_Ping w (sql_limits w db 25 25 (30 * 60 * 1000000000)) = None)"

lemma make_cache_redis:
  "make_cache w cfg = Some c \<Longrightarrow>
   redis c = connect_redis w cfg \<and> ttl c = 300000000000"
  by (auto simp: make_cache_def cache_New_def split: sum.splits)


text \<open>A server whose Redis does not answer and whose cache can be built.\<close>

definition lonely :: "(unit, bounded, server) outside" where
  "lonely =
     \<lparr>environ = sample_getenv, uni_lower = (\<lambda>s. s), ParseDuration = (\<lambda>s. Inr 10),
      zap_level = (\<lambda>p l. None), zap_Build = (\<lambda>p. None),
      sql_Open = (\<lambda>drv dsn. Inr ()), sql_limits = (\<lambda>h m n t. h), sql_Ping = (\<lambda>h. None),
      redis_NewClient = (\<lambda>a p n. []), redis_Ping = (\<lambda>d. Some (ErrorNew ''connection refused'')),
      ristretto_NewCache = (\<lambda>n m b. Inr \<lparr>capacity = 2, items = []\<rparr>)\<rparr>"


end
