(* ===== verification/Server_Run.thy ===== *)
theory Server_Run
  imports Server
begin

text \<open>
  The life of the two servers after their start: \<open>cmd/server/main.go\<close> from the listener's goroutine on,
  and \<open>cmd/api/main.go\<close>. The goroutine of \<open>main\<close>, the one that listens, the requests being served, the
  clock and the signals take turns; an event is one turn. Of \<open>net/http\<close> the model has what the code
  relies on: \<open>Shutdown\<close> stops the listener, waits for the requests under way and gives up with the
  context; \<open>ListenAndServe\<close> returns \<open>ErrServerClosed\<close> once a shutdown has begun; \<open>Close\<close> cuts off.
\<close>

subsection \<open>What is served\<close>

record http_server =
  Addr :: string
  ReadTimeout :: int
  ReadHeaderTimeout :: int
  WriteTimeout :: int
  IdleTimeout :: int

definition main_server :: "config \<Rightarrow> http_server" where
  "main_server cfg =
     \<lparr>Addr = CHR '':'' # show_int (sint (HTTPPort cfg)), ReadTimeout = config.ReadTimeout cfg,
      ReadHeaderTimeout = 5 * 1000000000, WriteTimeout = config.WriteTimeout cfg,
      IdleTimeout = 60 * 1000000000\<rparr>"

definition api_server :: http_server where
  "api_server =
     \<lparr>Addr = '':8080'', ReadTimeout = 0, ReadHeaderTimeout = 5 * 1000000000, WriteTimeout = 0,
      IdleTimeout = 0\<rparr>"

text \<open>The outer router: everything of \<open>New\<close>, and beside it the page of the metrics.\<close>

definition main_router :: "'s third_party \<Rightarrow> 's handler \<Rightarrow> 's handler \<Rightarrow> 's handler" where
  "main_router tp apiRouter promhttp_handler =
     chi_router tp [(''*'', ''/*'', apiRouter), (''*'', ''/metrics'', promhttp_handler)]"

subsection \<open>The goroutines\<close>

text \<open>\<open>http.ErrServerClosed\<close>.\<close>

definition ErrServerClosed :: gerr where
  "ErrServerClosed = ErrorNew ''http: Server closed''"

datatype main_at = AtGo | AtNotify | AtReceive | AtShutdown | InShutdown | AtClose | AtReturn

datatype listener_at = NotStarted | AtListen | InServe | ListenerDone

datatype ending = MainReturned | FatalExit gerr | KilledBySignal

text \<open>
  What differs between the two programs: how long \<open>Shutdown\<close> may take, whether its error leads to
  \<open>Close\<close>, what \<open>main\<close> has deferred, and the test of the listener's error (\<open>errors.Is\<close> or \<open>!=\<close>).
\<close>

record program =
  grace :: int
  closes :: bool
  defers_db_Close :: bool
  defers_Sync :: bool
  is_closed :: "gerr \<Rightarrow> bool"

definition main_program :: "config \<Rightarrow> program" where
  "main_program cfg =
     \<lparr>grace = 20 * 1000000000, closes = True, defers_db_Close = (\<not> InMemory cfg), defers_Sync = True,
      is_closed = (\<lambda>f. errors_is f ErrServerClosed)\<rparr>"

definition api_program :: program where
  "api_program =
     \<lparr>grace = 5 * 1000000000, closes = False, defers_db_Close = False, defers_Sync = False,
      is_closed = (\<lambda>f. f = ErrServerClosed)\<rparr>"

text \<open>
  \<open>stop\<close> is the number of signals in the channel, which holds one; \<open>active\<close> the number of requests
  being served, \<open>cut\<close> of those that did not get to their end; \<open>waited\<close> the time in \<open>Shutdown\<close>.
\<close>

record server_state =
  main_goroutine :: main_at
  listener :: listener_at
  notified :: bool
  stop :: nat
  closing :: bool
  active :: nat
  cut :: nat
  waited :: int
  db_closed :: bool
  synced :: bool
  ended :: "ending option"

definition spawned :: server_state where
  "spawned =
     \<lparr>main_goroutine = AtGo, listener = NotStarted, notified = False, stop = 0, closing = False,
      active = 0, cut = 0, waited = 0, db_closed = False, synced = False, ended = None\<rparr>"

text \<open>
  \<open>main\<close>, statement by statement. \<open>ShutdownReturns\<close> is the return of \<open>srv.Shutdown\<close>: without an error
  when no request is under way, with the context's when its time has passed, with another when
  closing the listeners failed. The deferred calls run when \<open>main\<close> returns, and the process ends with
  it, whatever is still being served.
\<close>

datatype event =
    MainStep
  | ShutdownReturns "gerr option"
  | Listens
  | ListenAndServeReturns gerr
  | Signal
  | RequestBegins
  | RequestEnds
  | Elapses nat

definition main_step :: "program \<Rightarrow> server_state \<Rightarrow> server_state option" where
  "main_step P s =
     (case main_goroutine s of
        AtGo \<Rightarrow> Some (s\<lparr>main_goroutine := AtNotify, listener := AtListen\<rparr>)
      | AtNotify \<Rightarrow> Some (s\<lparr>main_goroutine := AtReceive, notified := True\<rparr>)
      | AtReceive \<Rightarrow>
          if stop s = 0 then None else Some (s\<lparr>main_goroutine := AtShutdown, stop := stop s - 1\<rparr>)
      | AtShutdown \<Rightarrow> Some (s\<lparr>main_goroutine := InShutdown, closing := True, waited := 0\<rparr>)
      | InShutdown \<Rightarrow> None
      | AtClose \<Rightarrow> Some (s\<lparr>main_goroutine := AtReturn, cut := cut s + active s, active := 0\<rparr>)
      | AtReturn \<Rightarrow>
          Some (s\<lparr>db_closed := defers_db_Close P, synced := defers_Sync P,
            cut := cut s + active s, active := 0, ended := Some MainReturned\<rparr>))"

definition shutdown_returns :: "program \<Rightarrow> gerr option \<Rightarrow> server_state \<Rightarrow> server_state option" where
  "shutdown_returns P err s =
     (if main_goroutine s \<noteq> InShutdown \<or> (active s > 0 \<and> waited s < grace P) then None
      else case err of
        None \<Rightarrow> if active s > 0 then None else Some (s\<lparr>main_goroutine := AtReturn\<rparr>)
      | Some f \<Rightarrow> Some (s\<lparr>main_goroutine := (if closes P then AtClose else AtReturn)\<rparr>))"

text \<open>
  The goroutine that listens: \<open>Fatal\<close> ends the process at once, without the deferred calls, for every
  error but the one that a shutdown causes.
\<close>

definition listener_returns :: "program \<Rightarrow> gerr \<Rightarrow> server_state \<Rightarrow> server_state option" where
  "listener_returns P err s =
     (if listener s \<noteq> AtListen \<and> listener s \<noteq> InServe \<or> (err = ErrServerClosed) \<noteq> closing s then None
      else if \<not> is_closed P err
      then Some (s\<lparr>listener := ListenerDone, cut := cut s + active s, active := 0, ended := Some (FatalExit err)\<rparr>)
      else Some (s\<lparr>listener := ListenerDone\<rparr>))"

definition on_event :: "program \<Rightarrow> event \<Rightarrow> server_state \<Rightarrow> server_state option" where
  "on_event P ev s =
     (if ended s \<noteq> None then None
      else case ev of
        MainStep \<Rightarrow> main_step P s
      | ShutdownReturns err \<Rightarrow> shutdown_returns P err s
      | Listens \<Rightarrow>
          if listener s = AtListen \<and> \<not> closing s then Some (s\<lparr>listener := InServe\<rparr>) else None
      | ListenAndServeReturns err \<Rightarrow> listener_returns P err s
      | Signal \<Rightarrow>
          if notified s then Some (s\<lparr>stop := min 1 (stop s + 1)\<rparr>)
          else Some (s\<lparr>cut := cut s + active s, active := 0, ended := Some KilledBySignal\<rparr>)
      | RequestBegins \<Rightarrow>
          if listener s = InServe \<and> \<not> closing s then Some (s\<lparr>active := active s + 1\<rparr>) else None
      | RequestEnds \<Rightarrow> if active s > 0 then Some (s\<lparr>active := active s - 1\<rparr>) else None
      | Elapses n \<Rightarrow> if closing s then Some (s\<lparr>waited := waited s + int n\<rparr>) else Some s)"

fun on_events :: "program \<Rightarrow> event list \<Rightarrow> server_state \<Rightarrow> server_state option" where
  "on_events P [] s = Some s"
| "on_events P (ev # evs) s = Option.bind (on_event P ev s) (on_events P evs)"

lemma on_events_snoc:
  "on_events P (evs @ [ev]) s = Option.bind (on_events P evs s) (on_event P ev)"
  by (induction evs arbitrary: s) (auto split: Option.bind_splits)

lemma on_events_append:
  "on_events P (evs @ evs') s = Option.bind (on_events P evs s) (on_events P evs')"
  by (induction evs arbitrary: s) (auto split: Option.bind_splits)

subsection \<open>The invariant\<close>

definition signalled :: "server_state \<Rightarrow> bool" where
  "signalled s \<longleftrightarrow>
     0 < stop s \<or> main_goroutine s \<in> {AtShutdown, InShutdown, AtClose, AtReturn}"

definition server_inv :: "program \<Rightarrow> event list \<Rightarrow> server_state \<Rightarrow> bool" where
  "server_inv P evs s \<longleftrightarrow>
     (notified s \<longleftrightarrow> main_goroutine s \<notin> {AtGo, AtNotify}) \<and>
     (closing s \<longleftrightarrow> main_goroutine s \<in> {InShutdown, AtClose, AtReturn}) \<and>
     (signalled s \<longrightarrow> notified s \<and> Signal \<in> set evs) \<and>
     (main_goroutine s = AtReturn \<and> 0 < active s \<longrightarrow> grace P \<le> waited s) \<and>
     (main_goroutine s = AtClose \<and> 0 < active s \<longrightarrow> grace P \<le> waited s) \<and>
     (case ended s of
        None \<Rightarrow> \<not> db_closed s \<and> \<not> synced s \<and> (0 < cut s \<longrightarrow> closing s \<and> grace P \<le> waited s)
      | Some MainReturned \<Rightarrow>
          signalled s \<and> db_closed s = defers_db_Close P \<and> synced s = defers_Sync P \<and>
          (0 < cut s \<longrightarrow> grace P \<le> waited s)
      | Some (FatalExit f) \<Rightarrow>
          ListenAndServeReturns f \<in> set evs \<and> \<not> is_closed P f \<and> \<not> closing s \<and>
          \<not> db_closed s \<and> \<not> synced s
      | Some KilledBySignal \<Rightarrow>
          Signal \<in> set evs \<and> \<not> notified s \<and> \<not> db_closed s \<and> \<not> synced s)"

lemma server_inv_start: "server_inv P [] spawned"
  by (simp add: server_inv_def spawned_def signalled_def)

lemma server_inv_event:
  assumes "server_inv P evs s" "on_event P ev s = Some s'" "is_closed P ErrServerClosed"
  shows "server_inv P (evs @ [ev]) s'"
proof -
  have run: "ended s = None" using assms(2) by (auto simp: on_event_def split: if_splits)
  note inv = assms(1) [unfolded server_inv_def run option.case]
  note defs = server_inv_def on_event_def signalled_def run
  show ?thesis
  proof (cases ev)
    case MainStep
    then show ?thesis
      using assms(2) inv
      by (cases "main_goroutine s") (auto simp: defs main_step_def split: if_splits)
  next
    case (ShutdownReturns err)
    then show ?thesis
      using assms(2) inv
      by (cases err) (auto simp: defs shutdown_returns_def split: if_splits)
  next
    case (ListenAndServeReturns err)
    then consider "is_closed P err" "s' = s\<lparr>listener := ListenerDone\<rparr>"
      | "\<not> is_closed P err" "\<not> closing s"
        "s' = s\<lparr>listener := ListenerDone, cut := cut s + active s, active := 0, ended := Some (FatalExit err)\<rparr>"
      using assms(2,3) by (auto simp: on_event_def listener_returns_def split: if_splits)
    then show ?thesis
    proof cases
      case 1
      with inv show ?thesis by (simp add: defs) blast
    next
      case 2
      with inv ListenAndServeReturns show ?thesis
        by (cases "main_goroutine s") (auto simp: defs)
    qed
  next
    case Listens
    then have "s' = s\<lparr>listener := InServe\<rparr>" using assms(2) by (auto simp: defs split: if_splits)
    with inv show ?thesis by (simp add: defs) blast
  next
    case Signal
    show ?thesis
    proof (cases "notified s")
      case True
      with Signal have "s' = s\<lparr>stop := 1\<rparr>" using assms(2) by (simp add: on_event_def run)
      with inv True Signal show ?thesis by (cases "main_goroutine s") (auto simp: defs)
    next
      case False
      with Signal have "s' = s\<lparr>cut := cut s + active s, active := 0, ended := Some KilledBySignal\<rparr>"
        using assms(2) by (simp add: on_event_def run)
      with inv False Signal show ?thesis by (cases "main_goroutine s") (auto simp: defs)
    qed
  next
    case RequestBegins
    then have "s' = s\<lparr>active := active s + 1\<rparr>" "\<not> closing s"
      using assms(2) by (auto simp: defs split: if_splits)
    with inv show ?thesis by (cases "main_goroutine s") (auto simp: defs)
  next
    case RequestEnds
    then have "s' = s\<lparr>active := active s - 1\<rparr>" "0 < active s"
      using assms(2) by (auto simp: defs split: if_splits)
    with inv show ?thesis by (cases "main_goroutine s") (auto simp: defs)
  next
    case (Elapses n)
    then have "s' = (if closing s then s\<lparr>waited := waited s + int n\<rparr> else s)"
      using assms(2) by (auto simp: defs split: if_splits)
    with inv show ?thesis by (cases "main_goroutine s") (auto simp: defs)
  qed
qed

lemma server_inv_events:
  assumes "on_events P evs spawned = Some s" "is_closed P ErrServerClosed"
  shows "server_inv P evs s"
  using assms(1)
proof (induction evs arbitrary: s rule: rev_induct)
  case Nil
  then show ?case by (simp add: server_inv_start)
next
  case (snoc ev evs)
  then obtain s0 where "on_events P evs spawned = Some s0" "on_event P ev s0 = Some s"
    by (auto simp: on_events_snoc split: Option.bind_splits)
  with snoc.IH server_inv_event assms(2) show ?case by blast
qed

lemma programs_closed [simp]:
  "is_closed (main_program cfg) ErrServerClosed" "is_closed api_program ErrServerClosed"
  by (simp_all add: main_program_def api_program_def ErrServerClosed_def)

subsection \<open>Properties\<close>

text \<open>
  C21: How a server ends. \<open>main\<close> returns only after a signal, then with its deferred calls done, and it
  cuts requests off only when the grace period of the shutdown has passed (20 seconds, or 5 of the
  placeholder). The process is ended by the listener only for an error that is not the one of a
  shutdown, and never during a shutdown, and by a signal only when that comes before \<open>signal.Notify\<close>;
  in these two cases the deferred calls do not run, so that the database is not closed.
\<close>

theorem how_server_ends:
  assumes "on_events P evs spawned = Some s" "P = main_program cfg \<or> P = api_program"
  shows "case ended s of
      None \<Rightarrow> cut s = 0 \<or> grace P \<le> waited s
    | Some MainReturned \<Rightarrow>
        Signal \<in> set evs \<and> db_closed s = defers_db_Close P \<and> synced s = defers_Sync P \<and>
        (cut s = 0 \<or> grace P \<le> waited s)
    | Some (FatalExit f) \<Rightarrow>
        ListenAndServeReturns f \<in> set evs \<and> f \<noteq> ErrServerClosed \<and> \<not> closing s \<and>
        \<not> db_closed s \<and> \<not> synced s
    | Some KilledBySignal \<Rightarrow>
        Signal \<in> set evs \<and> \<not> notified s \<and> \<not> db_closed s \<and> \<not> synced s"
proof -
  from assms(2) have closed: "is_closed P ErrServerClosed" by auto
  show ?thesis
    using server_inv_events [OF assms(1) closed] closed
    by (auto simp: server_inv_def split: option.splits ending.splits)
qed

definition busy_server :: "event list" where
  "busy_server =
     [MainStep, Listens, RequestBegins, MainStep, RequestBegins, Signal, MainStep, MainStep, RequestEnds,
      Elapses 20000000000, ShutdownReturns (Some (ErrorNew ''context deadline exceeded'')), MainStep, MainStep]"

theorem how_server_ends_witness:
  "\<exists>s. on_events (main_program sample_config) busy_server spawned = Some s \<and>
    ended s = Some MainReturned \<and> db_closed s = (\<not> InMemory sample_config) \<and> synced s \<and> cut s = 1"
proof -
  let ?P = "main_program sample_config"
  obtain s where s: "on_events ?P busy_server spawned = Some s"
      "ended s = Some MainReturned" "cut s = 1"
    by (simp add: busy_server_def spawned_def on_event_def main_step_def shutdown_returns_def
        main_program_def)
  with how_server_ends [OF s(1)] show ?thesis by (auto simp: main_program_def)
qed

text \<open>Reaching the end in at most \<open>n\<close> turns of \<open>main\<close>, of the clock and of a shutdown that gives up.\<close>

definition deadline_exceeded :: gerr where
  "deadline_exceeded = ErrorNew ''context deadline exceeded''"

definition ends_within :: "program \<Rightarrow> nat \<Rightarrow> server_state \<Rightarrow> bool" where
  "ends_within P n s \<longleftrightarrow>
     (\<exists>evs s'. on_events P evs s = Some s' \<and> ended s' = Some MainReturned \<and> length evs \<le> n \<and>
        set evs \<subseteq> {MainStep, ShutdownReturns (Some deadline_exceeded)} \<union> range Elapses)"

lemma ends_within_event:
  assumes "on_event P ev s = Some s1" "ends_within P n s1"
    and "ev \<in> {MainStep, ShutdownReturns (Some deadline_exceeded)} \<union> range Elapses"
  shows "ends_within P (Suc n) s"
proof -
  from assms(2) obtain evs s' where "on_events P evs s1 = Some s'" "ended s' = Some MainReturned"
      "length evs \<le> n" "set evs \<subseteq> {MainStep, ShutdownReturns (Some deadline_exceeded)} \<union> range Elapses"
    unfolding ends_within_def by blast
  with assms(1,3) show ?thesis
    unfolding ends_within_def by (intro exI [of _ "ev # evs"] exI [of _ s']) auto
qed

lemma ends_within_mono: "ends_within P n s \<Longrightarrow> n \<le> m \<Longrightarrow> ends_within P m s"
  unfolding ends_within_def by (meson order_trans)

lemma ends_AtReturn:
  assumes "ended s = None" "main_goroutine s = AtReturn"
  shows "ends_within P 1 s"
  using assms unfolding ends_within_def
  by (intro exI [of _ "[MainStep]"]) (simp add: on_event_def main_step_def)

lemma ends_AtClose:
  assumes "ended s = None" "main_goroutine s = AtClose"
  shows "ends_within P 2 s"
  using ends_within_event [of P MainStep s, OF _ ends_AtReturn] assms
  by (simp add: on_event_def main_step_def numeral_2_eq_2)

lemma ends_InShutdown:
  assumes "ended s = None" "main_goroutine s = InShutdown" "closing s" "0 \<le> waited s"
  shows "ends_within P 4 s"
proof -
  let ?s1 = "s\<lparr>waited := waited s + int (nat (grace P))\<rparr>"
  let ?s2 = "?s1\<lparr>main_goroutine := (if closes P then AtClose else AtReturn)\<rparr>"
  have "ends_within P 2 ?s2"
    using ends_AtClose [of ?s2 P] ends_within_mono [OF ends_AtReturn [of ?s2 P]] assms(1)
    by (cases "closes P") simp_all
  moreover have "on_event P (ShutdownReturns (Some deadline_exceeded)) ?s1 = Some ?s2"
    using assms by (simp add: on_event_def shutdown_returns_def)
  ultimately have "ends_within P 3 ?s1" using ends_within_event by (simp add: numeral_3_eq_3 numeral_2_eq_2)
  moreover have "on_event P (Elapses (nat (grace P))) s = Some ?s1"
    using assms by (simp add: on_event_def)
  ultimately show ?thesis using ends_within_event [of P _ s ?s1 3] by simp
qed

lemma ends_AtShutdown:
  assumes "ended s = None" "main_goroutine s = AtShutdown"
  shows "ends_within P 5 s"
  using ends_within_event [of P MainStep s _ 4, OF _ ends_InShutdown] assms
  by (simp add: on_event_def main_step_def)

lemma ends_AtReceive:
  assumes "ended s = None" "main_goroutine s = AtReceive" "0 < stop s"
  shows "ends_within P 6 s"
  using ends_within_event [of P MainStep s _ 5, OF _ ends_AtShutdown] assms
  by (simp add: on_event_def main_step_def)

lemma signalled_event:
  assumes "on_event P ev s = Some s'" "signalled s"
  shows "signalled s'"
  using assms
  by (cases ev; cases "main_goroutine s")
    (simp_all add: signalled_def on_event_def main_step_def shutdown_returns_def listener_returns_def
      split: if_splits option.splits, auto)

lemma signalled_events:
  "on_events P evs s = Some s' \<Longrightarrow> signalled s \<Longrightarrow> signalled s'"
  by (induction evs arbitrary: s) (auto split: Option.bind_splits dest: signalled_event)

lemma waited_event: "on_event P ev s = Some s' \<Longrightarrow> 0 \<le> waited s \<Longrightarrow> 0 \<le> waited s'"
  by (cases ev; cases "main_goroutine s")
    (auto simp: on_event_def main_step_def shutdown_returns_def listener_returns_def
      split: if_splits option.splits)

lemma waited_events: "on_events P evs s = Some s' \<Longrightarrow> 0 \<le> waited s \<Longrightarrow> 0 \<le> waited s'"
  by (induction evs arbitrary: s) (auto split: Option.bind_splits dest: waited_event)

text \<open>
  C20: A signal that the server has been notified of is never lost: whatever happens after it, as long
  as the process runs \<open>main\<close> can return within six turns of its own, of the clock and of a shutdown that
  gives up, and it needs no request to end for that.
\<close>

theorem signal_ends_server:
  assumes "on_events P evs spawned = Some s" "P = main_program cfg \<or> P = api_program"
    and "notified s" "on_event P Signal s = Some s1" "on_events P later s1 = Some t" "ended t = None"
  shows "ends_within P 6 t"
proof -
  from assms(2) have closed: "is_closed P ErrServerClosed" by auto
  have "0 < stop s1" using assms(3,4) by (auto simp: on_event_def split: if_splits)
  then have sig: "signalled t" using signalled_events [OF assms(5)] by (simp add: signalled_def)
  have all: "on_events P (evs @ [Signal] @ later) spawned = Some t"
    using assms(1,4,5) by (simp add: on_events_append)
  note inv = server_inv_events [OF all closed]
  have "0 \<le> waited t" using waited_events [OF all] by (simp add: spawned_def)
  then show ?thesis
    using inv sig assms(6) ends_AtReceive [of t P]
      ends_within_mono [OF ends_AtShutdown [of t P], of 6] ends_within_mono [OF ends_InShutdown [of t P], of 6]
      ends_within_mono [OF ends_AtClose [of t P], of 6] ends_within_mono [OF ends_AtReturn [of t P], of 6]
    by (cases "main_goroutine t") (auto simp: server_inv_def signalled_def)
qed

theorem signal_ends_server_witness:
  "\<exists>s. on_events api_program [MainStep, Listens, MainStep, RequestBegins, Signal, MainStep, MainStep] spawned =
      Some s \<and> active s = 1 \<and> ends_within api_program 6 s"
proof -
  obtain s s1 t where run: "on_events api_program [MainStep, Listens, MainStep, RequestBegins] spawned = Some s"
      "on_event api_program Signal s = Some s1" "on_events api_program [MainStep, MainStep] s1 = Some t"
      "notified s" "ended t = None" "active t = 1"
    by (simp add: spawned_def on_event_def main_step_def)
  have "on_events api_program ([MainStep, Listens, MainStep, RequestBegins] @ Signal # [MainStep, MainStep]) spawned =
      Some t"
    by (simp only: on_events_append run(1) bind.bind_lunit on_events.simps(2) [of _ Signal] run(2,3))
  with signal_ends_server [OF run(1) _ run(4,2,3,5)] run(6) show ?thesis by auto
qed

end
